theory Spec2Isabelle
  imports Main "HOL-Library.Sublist"
begin

section \<open>Python values used by the pipeline\<close>

text \<open>
  Strings are lists of characters. Exceptions are values of the type \<open>error\<close>; a function
  that can raise returns \<open>error + 'a\<close> with \<open>Inl\<close> for the exception.
\<close>

datatype error =
    KeyError string
  | ValueError
  | TypeError
  | IndexError
  | OverflowError
  | CypherSyntaxError
  | ConstraintError
  | StoreError string
  | KeyboardInterrupt
  | SystemExit

text \<open>
  The exceptions that a handler \<open>except Exception\<close> catches: \<open>KeyboardInterrupt\<close> and
  \<open>SystemExit\<close> derive from \<open>BaseException\<close> only and pass through it.
\<close>

definition is_exception :: "error \<Rightarrow> bool" where
  "is_exception e = (e \<noteq> KeyboardInterrupt \<and> e \<noteq> SystemExit)"

definition is_digit :: "char \<Rightarrow> bool" where
  "is_digit c = (c \<in> set ''0123456789'')"

definition digit_val :: "char \<Rightarrow> nat" where
  "digit_val c = of_char c - 48"

text \<open>Code points below 256 that \<open>str.strip()\<close> and \<open>int()\<close> treat as white space.\<close>

definition py_isspace :: "char \<Rightarrow> bool" where
  "py_isspace c = ((of_char c :: nat) \<in> {9, 10, 11, 12, 13, 28, 29, 30, 31, 32, 133, 160})"

definition py_strip :: "string \<Rightarrow> string" where
  "py_strip s = rev (dropWhile py_isspace (rev (dropWhile py_isspace s)))"

text \<open>
  The digit part of an integer literal accepted by \<open>int(str)\<close>: decimal digits, with single
  underscores allowed between two digits. The flag records whether the previous character
  was a digit.
\<close>

fun int_digits :: "bool \<Rightarrow> nat \<Rightarrow> string \<Rightarrow> nat option" where
  "int_digits prev acc [] = (if prev then Some acc else None)"
| "int_digits prev acc (c # cs) =
     (if is_digit c then int_digits True (acc * 10 + digit_val c) cs
      else if c = CHR ''_'' \<and> prev then int_digits False acc cs
      else None)"

text \<open>\<open>int(s)\<close> for a string; \<open>None\<close> stands for the \<open>ValueError\<close> it raises.\<close>

definition py_int :: "string \<Rightarrow> int option" where
  "py_int s =
     (case py_strip s of
        [] \<Rightarrow> None
      | c # r \<Rightarrow>
          if c = CHR ''-'' then map_option (\<lambda>n. - int n) (int_digits False 0 r)
          else if c = CHR ''+'' then map_option int (int_digits False 0 r)
          else map_option int (int_digits False 0 (c # r)))"

section \<open>Calendar dates (\<open>datetime\<close>)\<close>

definition is_leap :: "int \<Rightarrow> bool" where
  "is_leap y = (y mod 4 = 0 \<and> (y mod 100 \<noteq> 0 \<or> y mod 400 = 0))"

definition days_in_month :: "int \<Rightarrow> int \<Rightarrow> int" where
  "days_in_month y m =
     (if m = 2 then (if is_leap y then 29 else 28)
      else if m \<in> {4, 6, 9, 11} then 30 else 31)"

text \<open>The values \<open>datetime(y, m, d)\<close> accepts; any other triple raises \<open>ValueError\<close>.\<close>

definition valid_date :: "int \<Rightarrow> int \<Rightarrow> int \<Rightarrow> bool" where
  "valid_date y m d =
     (1 \<le> y \<and> y \<le> 9999 \<and> 1 \<le> m \<and> m \<le> 12 \<and> 1 \<le> d \<and> d \<le> days_in_month y m)"

type_synonym date = "int \<times> int \<times> int"

text \<open>
  \<open>datetime.strptime\<close> compiles the format into a regular expression and takes the first
  match in the order of its alternatives, with backtracking: \<open>%Y\<close> is four digits, \<open>%m\<close> is
  \<open>1[0-2]|0[1-9]|[1-9]\<close>, \<open>%d\<close> is \<open>3[0-1]|[1-2]\d|0[1-9]|[1-9]| [1-9]\<close>. Each function
  below lists the ways its directive can match a prefix, in that order, with the rest of
  the input. Input left over after the first match is a \<open>ValueError\<close>.
\<close>

fun year_alts :: "string \<Rightarrow> (string \<times> string) list" where
  "year_alts (a # b # c # d # r) =
     (if is_digit a \<and> is_digit b \<and> is_digit c \<and> is_digit d then [([a, b, c, d], r)] else [])"
| "year_alts _ = []"

definition two_chars :: "(char \<Rightarrow> bool) \<Rightarrow> (char \<Rightarrow> bool) \<Rightarrow> string \<Rightarrow> (string \<times> string) list" where
  "two_chars p q s =
     (case s of a # b # r \<Rightarrow> if p a \<and> q b then [([a, b], r)] else [] | _ \<Rightarrow> [])"

definition one_char :: "(char \<Rightarrow> bool) \<Rightarrow> string \<Rightarrow> (string \<times> string) list" where
  "one_char p s = (case s of a # r \<Rightarrow> if p a then [([a], r)] else [] | _ \<Rightarrow> [])"

definition month_alts :: "string \<Rightarrow> (string \<times> string) list" where
  "month_alts s =
     two_chars (\<lambda>c. c = CHR ''1'') (\<lambda>c. c \<in> set ''012'') s
   @ two_chars (\<lambda>c. c = CHR ''0'') (\<lambda>c. c \<in> set ''123456789'') s
   @ one_char (\<lambda>c. c \<in> set ''123456789'') s"

definition day_alts :: "string \<Rightarrow> (string \<times> string) list" where
  "day_alts s =
     two_chars (\<lambda>c. c = CHR ''3'') (\<lambda>c. c \<in> set ''01'') s
   @ two_chars (\<lambda>c. c \<in> set ''12'') is_digit s
   @ two_chars (\<lambda>c. c = CHR ''0'') (\<lambda>c. c \<in> set ''123456789'') s
   @ one_char (\<lambda>c. c \<in> set ''123456789'') s
   @ two_chars (\<lambda>c. c = CHR '' '') (\<lambda>c. c \<in> set ''123456789'') s"

definition lit :: "char \<Rightarrow> string \<Rightarrow> string list" where
  "lit c s = (case s of a # r \<Rightarrow> if a = c then [r] else [] | _ \<Rightarrow> [])"

text \<open>The date built from the matched groups, as \<open>datetime(int(Y), int(m), int(d))\<close>.\<close>

definition make_date :: "string \<Rightarrow> string \<Rightarrow> string \<Rightarrow> string \<Rightarrow> error + date" where
  "make_date Y m d rest =
     (if rest \<noteq> [] then Inl ValueError
      else case (py_int Y, py_int m, py_int d) of
             (Some y, Some mo, Some da) \<Rightarrow>
               if valid_date y mo da then Inr (y, mo, da) else Inl ValueError
           | _ \<Rightarrow> Inl ValueError)"

text \<open>\<open>datetime.strptime(s, '%Y-%m-%d')\<close>.\<close>

definition strptime_iso :: "string \<Rightarrow> error + date" where
  "strptime_iso s =
     (case [(Y, m, d, rest).
              (Y, r1) \<leftarrow> year_alts s, r2 \<leftarrow> lit CHR ''-'' r1,
              (m, r3) \<leftarrow> month_alts r2, r4 \<leftarrow> lit CHR ''-'' r3,
              (d, rest) \<leftarrow> day_alts r4] of
        [] \<Rightarrow> Inl ValueError
      | (Y, m, d, rest) # _ \<Rightarrow> make_date Y m d rest)"

text \<open>\<open>datetime.strptime(s, '%Y%m%d')\<close>.\<close>

definition strptime_ymd :: "string \<Rightarrow> error + date" where
  "strptime_ymd s =
     (case [(Y, m, d, rest).
              (Y, r1) \<leftarrow> year_alts s, (m, r2) \<leftarrow> month_alts r1, (d, rest) \<leftarrow> day_alts r2] of
        [] \<Rightarrow> Inl ValueError
      | (Y, m, d, rest) # _ \<Rightarrow> make_date Y m d rest)"

section \<open>Date components (\<open>stock_knowledge_graph._get_date_components\<close>)\<close>

text \<open>
  The result \<open>None\<close> stands for the tuple \<open>(None, None, None, None)\<close> returned when the
  parsing raised. A string of length 8 is sliced and converted with \<open>int\<close>, without
  any check of the month or the day; any other string goes through \<open>strptime\<close>.
\<close>

definition get_date_components :: "string \<Rightarrow> (int \<times> int \<times> int \<times> int) option" where
  "get_date_components date_str =
     (if length date_str = 8 then
        (case (py_int (take 4 date_str), py_int (take 2 (drop 4 date_str)),
               py_int (take 2 (drop 6 date_str))) of
           (Some year, Some month, Some day) \<Rightarrow> Some (year, month, day, (month - 1) div 3 + 1)
         | _ \<Rightarrow> None)
      else
        (case strptime_iso date_str of
           Inr (year, month, day) \<Rightarrow> Some (year, month, day, (month - 1) div 3 + 1)
         | Inl e \<Rightarrow> None))"

text \<open>The decimal value of a string of digits, for stating what a date string denotes.\<close>

definition dec :: "string \<Rightarrow> int" where
  "dec s = int (foldl (\<lambda>a c. a * 10 + digit_val c) 0 s)"

section \<open>Date ranges (\<open>data_collectors.get_date_list\<close>)\<close>

text \<open>
  \<open>current_date += timedelta(days=1)\<close>: the day is incremented and carried into the month
  and the year; a year beyond 9999 raises \<open>OverflowError\<close>.
\<close>

definition add_one_day :: "date \<Rightarrow> error + date" where
  "add_one_day dt =
     (case dt of (y, m, d) \<Rightarrow>
        if d + 1 \<le> days_in_month y m then Inr (y, m, d + 1)
        else if m + 1 \<le> 12 then Inr (y, m + 1, 1)
        else if y + 1 \<le> 9999 then Inr (y + 1, 1, 1)
        else Inl OverflowError)"

text \<open>\<open>a <= b\<close> on dates.\<close>

definition date_le :: "date \<Rightarrow> date \<Rightarrow> bool" where
  "date_le a b =
     (case (a, b) of ((y, m, d), (y', m', d')) \<Rightarrow>
        y < y' \<or> (y = y' \<and> (m < m' \<or> (m = m' \<and> d \<le> d'))))"

text \<open>A number written with a fixed count of decimal digits, zero padded.\<close>

fun zpad :: "nat \<Rightarrow> nat \<Rightarrow> string" where
  "zpad 0 n = []"
| "zpad (Suc k) n = zpad k (n div 10) @ [char_of (48 + n mod 10)]"

text \<open>The decimal digits of a number, as \<open>str\<close> writes them.\<close>

fun show_nat :: "nat \<Rightarrow> string" where
  "show_nat n = (if n < 10 then [char_of (48 + n)] else show_nat (n div 10) @ [char_of (48 + n mod 10)])"

text \<open>
  \<open>dt.strftime('%Y%m%d')\<close>: the C library writes the year without padding, so a year below
  1000 has fewer than four digits; month and day have two digits.
\<close>

definition strftime_ymd :: "date \<Rightarrow> string" where
  "strftime_ymd dt =
     (case dt of (y, m, d) \<Rightarrow> show_nat (nat y) @ zpad 2 (nat m) @ zpad 2 (nat d))"

function date_loop :: "date \<Rightarrow> date \<Rightarrow> string list \<Rightarrow> error + string list" where
  "date_loop cur fin date_li =
     (if date_le cur fin then
        (case add_one_day cur of
           Inl e \<Rightarrow> Inl e
         | Inr nxt \<Rightarrow> date_loop nxt fin (date_li @ [strftime_ymd cur]))
      else Inr date_li)"
  by pat_completeness auto
termination
proof (relation "measures [\<lambda>(c, f, a). nat (fst f + 1 - fst c),
                           \<lambda>(c, f, a). nat (12 - fst (snd c)),
                           \<lambda>(c, f, a). nat (31 - snd (snd c))]")
  show "wf (measures [\<lambda>(c, f, a). nat (fst f + 1 - fst c),
                      \<lambda>(c, f, a). nat (12 - fst (snd c)),
                      \<lambda>(c, f, a). nat (31 - snd (snd c))])"
    by simp
next
  fix cur fin :: date and date_li :: "string list" and nxt :: date
  assume le: "date_le cur fin" and nx: "add_one_day cur = Inr nxt"
  obtain y m d where c: "cur = (y, m, d)" by (cases cur) auto
  obtain y' m' d' where f: "fin = (y', m', d')" by (cases fin) auto
  have dim: "days_in_month y m \<le> 31" by (simp add: days_in_month_def)
  have yy: "y \<le> y'" using le c f by (auto simp: date_le_def)
  show "((nxt, fin, date_li @ [strftime_ymd cur]), (cur, fin, date_li))
        \<in> measures [\<lambda>(c, f, a). nat (fst f + 1 - fst c),
                     \<lambda>(c, f, a). nat (12 - fst (snd c)),
                     \<lambda>(c, f, a). nat (31 - snd (snd c))]"
    using nx dim yy unfolding c f add_one_day_def
    by (auto split: if_splits)
qed

definition get_date_list :: "string \<Rightarrow> string \<Rightarrow> error + string list" where
  "get_date_list date_st date_fn =
     (case strptime_ymd date_st of
        Inl e \<Rightarrow> Inl e
      | Inr start_date \<Rightarrow>
          (case strptime_ymd date_fn of
             Inl e \<Rightarrow> Inl e
           | Inr end_date \<Rightarrow> date_loop start_date end_date []))"

section \<open>Records and data frames\<close>

text \<open>
  A cell of a data frame or a value of a dict: a string, an integer, a list, \<open>None\<close> or the
  float NaN that pandas stores for a missing value. The elements of a list are strings,
  integers, \<open>None\<close> or NaN. A row (and the dict that \<open>to_dict()\<close> makes of it) is an
  association list from column names to cells. A data frame has its column names and its
  rows; a frame may have columns and no row.
\<close>

datatype elem = EStr string | EInt int | ENone | ENaN

datatype cell = CStr string | CInt int | CList "elem list" | CNone | CNaN

definition cell_of_elem :: "elem \<Rightarrow> cell" where
  "cell_of_elem x = (case x of EStr s \<Rightarrow> CStr s | EInt i \<Rightarrow> CInt i | ENone \<Rightarrow> CNone | ENaN \<Rightarrow> CNaN)"

type_synonym row = "(string \<times> cell) list"

record dataframe =
  columns :: "string list"
  frame_rows :: "row list"

definition show_int :: "int \<Rightarrow> string" where
  "show_int i = (if i < 0 then CHR ''-'' # show_nat (nat (- i)) else show_nat (nat i))"

fun join :: "string \<Rightarrow> string list \<Rightarrow> string" where
  "join sep [] = []"
| "join sep [x] = x"
| "join sep (x # y # r) = x @ sep @ join sep (y # r)"

text \<open>
  \<open>str(v)\<close>. The text of a list holds the \<open>repr\<close> of each element; a string element is
  written between single quotes, which is what Python prints for strings without quotes,
  backslashes or control characters.
\<close>

definition elem_repr :: "elem \<Rightarrow> string" where
  "elem_repr x =
     (case x of
        EStr s \<Rightarrow> [CHR 0x27] @ s @ [CHR 0x27]
      | EInt i \<Rightarrow> show_int i
      | ENone \<Rightarrow> ''None''
      | ENaN \<Rightarrow> ''nan'')"

definition py_str :: "cell \<Rightarrow> string" where
  "py_str v =
     (case v of
        CStr s \<Rightarrow> s
      | CInt i \<Rightarrow> show_int i
      | CList l \<Rightarrow> ''['' @ join '', '' (map elem_repr l) @ '']''
      | CNone \<Rightarrow> ''None''
      | CNaN \<Rightarrow> ''nan'')"

text \<open>The truth value of a cell in a condition (\<open>not v\<close> is its negation).\<close>

definition py_truthy :: "cell \<Rightarrow> bool" where
  "py_truthy v =
     (case v of
        CStr s \<Rightarrow> s \<noteq> []
      | CInt i \<Rightarrow> i \<noteq> 0
      | CList l \<Rightarrow> l \<noteq> []
      | CNone \<Rightarrow> False
      | CNaN \<Rightarrow> True)"

text \<open>\<open>a == b\<close> on cells: NaN differs from everything, itself included.\<close>

definition cell_eq :: "cell \<Rightarrow> cell \<Rightarrow> bool" where
  "cell_eq a b = (a = b \<and> a \<noteq> CNaN)"

text \<open>
  One cell of a column in \<open>df[k] == v\<close>: pandas compares a missing value, \<open>None\<close> or NaN, as
  different from everything.
\<close>

definition series_eq :: "cell \<Rightarrow> cell \<Rightarrow> bool" where
  "series_eq c v = (c = v \<and> c \<noteq> CNaN \<and> c \<noteq> CNone)"

text \<open>\<open>d[k]\<close>, which raises \<open>KeyError\<close> on a missing key, and \<open>d.get(k, default)\<close>.\<close>

definition getitem :: "row \<Rightarrow> string \<Rightarrow> error + cell" where
  "getitem d k = (case map_of d k of None \<Rightarrow> Inl (KeyError k) | Some v \<Rightarrow> Inr v)"

definition get_default :: "row \<Rightarrow> string \<Rightarrow> cell \<Rightarrow> cell" where
  "get_default d k dflt = (case map_of d k of None \<Rightarrow> dflt | Some v \<Rightarrow> v)"

text \<open>
  The first key of the list that the dict lacks: the \<open>KeyError\<close> an f-string raises when
  it evaluates \<open>d[k]\<close> for these keys from left to right.
\<close>

definition first_missing :: "row \<Rightarrow> string list \<Rightarrow> string option" where
  "first_missing d ks = (case filter (\<lambda>k. map_of d k = None) ks of [] \<Rightarrow> None | k # _ \<Rightarrow> Some k)"

text \<open>\<open>k in df.columns\<close>, and \<open>df.empty\<close>: no row or no column.\<close>

definition has_column :: "dataframe \<Rightarrow> string \<Rightarrow> bool" where
  "has_column df k = (k \<in> set (columns df))"

definition frame_empty :: "dataframe \<Rightarrow> bool" where
  "frame_empty df = (frame_rows df = [] \<or> columns df = [])"

text \<open>A value that is not a list.\<close>

definition scalar :: "cell \<Rightarrow> bool" where
  "scalar v = (case v of CList l \<Rightarrow> False | _ \<Rightarrow> True)"

text \<open>
  \<open>df[df[k] == v]\<close>: the rows whose cell in column \<open>k\<close> equals \<open>v\<close>; \<open>df[k]\<close> raises
  \<open>KeyError\<close> when the frame has no column \<open>k\<close>. A list is compared with the column
  element by element, and raises \<open>ValueError\<close> when it has not the length of the column.
\<close>

definition cell_is :: "string \<Rightarrow> cell \<Rightarrow> row \<Rightarrow> bool" where
  "cell_is k v r = (case map_of r k of None \<Rightarrow> False | Some c \<Rightarrow> series_eq c v)"

definition rows_with :: "dataframe \<Rightarrow> string \<Rightarrow> cell \<Rightarrow> error + row list" where
  "rows_with df k v =
     (if \<not> has_column df k then Inl (KeyError k)
      else case v of
             CList l \<Rightarrow>
               if length l = length (frame_rows df)
               then Inr (map fst (filter (\<lambda>(r, x). cell_is k (cell_of_elem x) r)
                                    (zip (frame_rows df) l)))
               else Inl ValueError
           | _ \<Rightarrow> Inr (filter (cell_is k v) (frame_rows df)))"

text \<open>\<open>df[k] = df[k].fillna('')\<close>: a missing value in column \<open>k\<close> becomes the empty string.\<close>

definition fillna_empty :: "string \<Rightarrow> row \<Rightarrow> row" where
  "fillna_empty k r =
     (if map_of r k \<in> {None, Some CNone, Some CNaN} then (k, CStr '''') # r else r)"

definition fillna_column :: "string \<Rightarrow> dataframe \<Rightarrow> dataframe" where
  "fillna_column k df = df\<lparr>frame_rows := map (fillna_empty k) (frame_rows df)\<rparr>"

fun split_on :: "char \<Rightarrow> string \<Rightarrow> string list" where
  "split_on c [] = [[]]"
| "split_on c (x # xs) =
     (if x = c then [] # split_on c xs
      else (case split_on c xs of p # ps \<Rightarrow> (x # p) # ps | [] \<Rightarrow> [[x]]))"

section \<open>Cypher text produced by the query synthesizer\<close>

text \<open>
  A query is kept as the list of its clauses. A property value is the text the f-string
  puts in the query: between single quotes (\<open>Quoted\<close>) or bare (\<open>Raw\<close>). The empty list is
  the empty query text \<open>""\<close>.
\<close>

datatype lit = Quoted string | Raw string

datatype clause =
    MergeNode string string "(string \<times> lit) list"
  | MatchNode string string "(string \<times> lit) list"
  | OptionalMatch string string string string
  | MergeRel string string string
  | WithVars "string list"
  | DetachDelete "string list"
  | Delete string

type_synonym query = "clause list"

text \<open>\<open>escape_string\<close>, local to the two synthesizers: a quote becomes backslash quote.\<close>

definition escape_string :: "cell \<Rightarrow> string" where
  "escape_string s =
     (case s of
        CNone \<Rightarrow> ''''
      | _ \<Rightarrow> concat (map (\<lambda>c. if c = CHR 0x27 then [CHR 0x5C, CHR 0x27] else [c]) (py_str s)))"

subsection \<open>\<open>_create_cypher_query_competitor\<close>\<close>

definition create_cypher_query_competitor :: "row \<Rightarrow> row \<Rightarrow> error + query" where
  "create_cypher_query_competitor src dst =
     (case getitem src ''stock_code'' of
        Inl e \<Rightarrow> Inl e
      | Inr s \<Rightarrow>
          (case getitem dst ''stock_code'' of
             Inl e \<Rightarrow> Inl e
           | Inr d \<Rightarrow>
               Inr [MatchNode ''Company'' ''Company'' [(''stock_code'', Quoted (py_str s))],
                    MatchNode ''Competitor'' ''Company'' [(''stock_code'', Quoted (py_str d))],
                    MergeRel ''Company'' ''COMPETES_WITH'' ''Competitor'']))"

subsection \<open>\<open>_create_cypher_query_company\<close>\<close>

text \<open>
  A list stored under the key is joined with \<open>', '\<close> before it is escaped; \<open>str.join\<close>
  raises \<open>TypeError\<close> when an element of the list is not a string.
\<close>

definition elem_string :: "elem \<Rightarrow> string option" where
  "elem_string x = (case x of EStr s \<Rightarrow> Some s | _ \<Rightarrow> None)"

definition joined_list :: "cell \<Rightarrow> error + cell" where
  "joined_list v =
     (case v of
        CList l \<Rightarrow>
          (case those (map elem_string l) of
             Some ss \<Rightarrow> Inr (CStr (join '', '' ss))
           | None \<Rightarrow> Inl TypeError)
      | _ \<Rightarrow> Inr v)"

definition cell_of :: "row \<Rightarrow> string \<Rightarrow> cell" where
  "cell_of d k = get_default d k CNone"

text \<open>The keys that the query text indexes, in the order in which it reads them.\<close>

definition company_keys :: "string list" where
  "company_keys =
     [''stock_code'', ''stock_nm'', ''stock_abbrv'', ''stock_nm_eng'', ''listing_dt'',
      ''outstanding_shares'', ''kospi200_item_yn'', ''stock_sector_nm'']"

definition company_query :: "row \<Rightarrow> cell \<Rightarrow> cell \<Rightarrow> query" where
  "company_query company_dict compete_stock_nm_li compete_stock_code_li =
     [MergeNode ''Company'' ''Company''
        [(''stock_code'', Quoted (py_str (cell_of company_dict ''stock_code''))),
         (''stock_nm'', Quoted (escape_string (cell_of company_dict ''stock_nm''))),
         (''stock_abbrv'', Quoted (escape_string (cell_of company_dict ''stock_abbrv''))),
         (''stock_nm_eng'', Quoted (escape_string (cell_of company_dict ''stock_nm_eng''))),
         (''listing_dt'', Quoted (py_str (cell_of company_dict ''listing_dt''))),
         (''outstanding_shares'', Raw (py_str (cell_of company_dict ''outstanding_shares''))),
         (''kospi200_item_yn'', Quoted (py_str (cell_of company_dict ''kospi200_item_yn''))),
         (''compete_stock_nm_li'', Quoted (escape_string compete_stock_nm_li)),
         (''compete_stock_code_li'', Quoted (escape_string compete_stock_code_li))],
      MergeNode ''Sector'' ''Sector''
        [(''stock_sector_nm'', Quoted (escape_string (cell_of company_dict ''stock_sector_nm'')))],
      MergeRel ''Company'' ''BELONGS_TO'' ''Sector'']"

text \<open>
  The two lists are joined first; then the query text is formatted, and the first key it
  reads that the record lacks raises \<open>KeyError\<close>.
\<close>

definition join_raises :: "row \<Rightarrow> bool" where
  "join_raises company_dict =
     (joined_list (get_default company_dict ''compete_stock_nm_li'' (CStr '''')) = Inl TypeError
      \<or> joined_list (get_default company_dict ''compete_stock_code_li'' (CStr '''')) = Inl TypeError)"

definition create_cypher_query_company :: "row \<Rightarrow> error + query" where
  "create_cypher_query_company company_dict =
     (case joined_list (get_default company_dict ''compete_stock_nm_li'' (CStr '''')) of
        Inl e \<Rightarrow> Inl e
      | Inr compete_stock_nm_li \<Rightarrow>
          (case joined_list (get_default company_dict ''compete_stock_code_li'' (CStr '''')) of
             Inl e \<Rightarrow> Inl e
           | Inr compete_stock_code_li \<Rightarrow>
               (case first_missing company_dict company_keys of
                  Some k \<Rightarrow> Inl (KeyError k)
                | None \<Rightarrow>
                    Inr (company_query company_dict compete_stock_nm_li compete_stock_code_li))))"

subsection \<open>\<open>_create_cypher_query_daily_data\<close>\<close>

definition fs_fields :: "string list" where
  "fs_fields = [''revenue'', ''operating_income'', ''net_income'', ''total_assets'',
                ''total_liabilities'', ''total_equity'', ''capital_stock'']"

definition daily_relationships :: query where
  "daily_relationships =
     [MergeRel ''StockPrice'' ''RECORDED_ON'' ''Date'',
      MergeRel ''Indicator'' ''MEASURED_ON'' ''Date'',
      MergeRel ''Date'' ''IN_QUARTER'' ''Quarter'',
      MergeRel ''Quarter'' ''IN_YEAR'' ''Year'',
      MergeRel ''Date'' ''IN_YEAR'' ''Year'',
      MergeRel ''Company'' ''HAS_STOCK_PRICE'' ''StockPrice'',
      MergeRel ''Company'' ''HAS_INDICATOR'' ''Indicator'']"

definition fs_relationships :: query where
  "fs_relationships =
     [MergeRel ''FinancialStatements'' ''FOR_QUARTER'' ''Quarter'',
      MergeRel ''FinancialStatements'' ''FOR_YEAR'' ''Year'',
      MergeRel ''Company'' ''HAS_FINANCIAL_STATEMENTS'' ''FinancialStatements'']"

definition create_cypher_query_daily_data ::
    "string \<Rightarrow> row \<Rightarrow> row \<Rightarrow> row option \<Rightarrow> error + query" where
  "create_cypher_query_daily_data date company_dict stock_price_dict fs_dict =
     (case get_date_components date of
        None \<Rightarrow> Inr []
      | Some (year, month, day, quarter) \<Rightarrow>
          (case first_missing stock_price_dict [''stck_hgpr'', ''stck_lwpr'', ''stck_oprc'', ''stck_clpr''] of
             Some k \<Rightarrow> Inl (KeyError k)
           | None \<Rightarrow>
               (case first_missing company_dict [''stock_code''] of
                  Some k \<Rightarrow> Inl (KeyError k)
                | None \<Rightarrow>
                    Inr ([MergeNode ''Date'' ''Date''
                            [(''date'', Quoted date), (''year'', Raw (show_int year)),
                             (''month'', Raw (show_int month)), (''day'', Raw (show_int day))],
                          MergeNode ''Quarter'' ''Quarter''
                            [(''year'', Raw (show_int year)), (''quarter'', Raw (show_int quarter))],
                          MergeNode ''Year'' ''Year'' [(''year'', Raw (show_int year))],
                          MergeNode ''StockPrice'' ''StockPrice''
                            (map (\<lambda>k. (k, Raw (py_str (cell_of stock_price_dict k))))
                               [''stck_hgpr'', ''stck_lwpr'', ''stck_oprc'', ''stck_clpr'']),
                          MergeNode ''Indicator'' ''Indicator''
                            (map (\<lambda>k. (k, Raw (py_str (get_default stock_price_dict k (CInt 0)))))
                               [''pbr'', ''per'', ''eps'']),
                          WithVars [''Date'', ''Quarter'', ''Year'', ''StockPrice'', ''Indicator''],
                          MatchNode ''Company'' ''Company''
                            [(''stock_code'', Quoted (py_str (cell_of company_dict ''stock_code'')))]]
                         @ (case fs_dict of
                              Some fs \<Rightarrow>
                                [MergeNode ''FinancialStatements'' ''FinancialStatements''
                                   (map (\<lambda>k. (k, Raw (py_str (get_default fs k (CInt 0))))) fs_fields),
                                 WithVars [''Date'', ''Quarter'', ''Year'', ''StockPrice'', ''Indicator'',
                                           ''FinancialStatements'', ''Company'']]
                            | None \<Rightarrow>
                                [WithVars [''Date'', ''Quarter'', ''Year'', ''StockPrice'', ''Indicator'',
                                           ''Company'']])
                         @ daily_relationships
                         @ (case fs_dict of Some fs \<Rightarrow> fs_relationships | None \<Rightarrow> [])))))"

subsection \<open>The recovery query of \<open>run_graphdb\<close>\<close>

definition cleanup_query :: "string \<Rightarrow> query" where
  "cleanup_query date =
     [MatchNode ''d'' ''Date'' [(''date'', Quoted date)],
      OptionalMatch ''d'' ''RECORDED_ON'' ''sp'' ''StockPrice'',
      OptionalMatch ''sp'' ''HAS_STOCK_PRICE'' ''i'' ''Indicator'',
      OptionalMatch ''i'' ''HAS_INDICATOR'' ''fs'' ''FinancialStatements'',
      DetachDelete [''sp'', ''i'', ''fs''],
      Delete ''d'']"

section \<open>The graph store\<close>

text \<open>
  The store is modelled as a labelled property graph held in memory. A node has an
  identifier, one label and its properties; a relationship has a type and the identifiers
  of its two ends. Queries are run one clause after the other on a table of variable
  bindings, as Cypher does. Failures of the connection are outside the model; the errors
  that remain are a query text that does not parse, a violated uniqueness constraint, a
  relationship created on a null end, and the deletion of a node that still has
  relationships.
\<close>

datatype pval = PStr string | PNum string

record node =
  nid :: nat
  nlabel :: string
  nprops :: "(string \<times> pval) list"

record edge =
  esrc :: nat
  etype :: string
  edst :: nat

record graph =
  nodes :: "node list"
  edges :: "edge list"

definition empty_graph :: graph where
  "empty_graph = \<lparr>nodes = [], edges = []\<rparr>"

definition node_ids :: "graph \<Rightarrow> nat list" where
  "node_ids g = map nid (nodes g)"

definition fresh_id :: "graph \<Rightarrow> nat" where
  "fresh_id g = Suc (foldr max (node_ids g) 0)"

text \<open>No relationship without both of its ends, and no identifier used twice.\<close>

definition dangling :: "graph \<Rightarrow> bool" where
  "dangling g = list_ex (\<lambda>e. esrc e \<notin> set (node_ids g) \<or> edst e \<notin> set (node_ids g)) (edges g)"

definition wf_graph :: "graph \<Rightarrow> bool" where
  "wf_graph g = (distinct (node_ids g) \<and> \<not> dangling g)"

subsection \<open>Literals\<close>

text \<open>
  The string a single-quoted literal denotes: a backslash escapes the next character, and a
  bare quote inside the text ends the literal early, which leaves a query that does not
  parse (\<open>None\<close>). Unicode escapes are not modelled and count as not parsing.
\<close>

definition escape_char :: "char \<Rightarrow> char option" where
  "escape_char e =
     (if e = CHR 0x27 \<or> e = CHR 0x22 \<or> e = CHR 0x5C then Some e
      else if e = CHR ''n'' then Some (CHR 0x0A)
      else if e = CHR ''t'' then Some (CHR 0x09)
      else if e = CHR ''r'' then Some (CHR 0x0D)
      else if e = CHR ''b'' then Some (CHR 0x08)
      else if e = CHR ''f'' then Some (CHR 0x0C)
      else None)"

fun cypher_string :: "string \<Rightarrow> string option" where
  "cypher_string [] = Some []"
| "cypher_string [c] = (if c = CHR 0x27 \<or> c = CHR 0x5C then None else Some [c])"
| "cypher_string (c # e # r) =
     (if c = CHR 0x27 then None
      else if c = CHR 0x5C then
        (case escape_char e of
           None \<Rightarrow> None
         | Some x \<Rightarrow> map_option ((#) x) (cypher_string r))
      else map_option ((#) c) (cypher_string (e # r)))"

text \<open>A bare text is accepted when it is a decimal number: sign, digits, optional fraction.\<close>

definition is_number_literal :: "string \<Rightarrow> bool" where
  "is_number_literal t =
     (let u = (case t of c # r \<Rightarrow> if c = CHR ''-'' then r else t | [] \<Rightarrow> t);
          ip = takeWhile is_digit u;
          fp = dropWhile is_digit u
      in ip \<noteq> [] \<and> (fp = [] \<or> (hd fp = CHR ''.'' \<and> tl fp \<noteq> [] \<and> list_all is_digit (tl fp))))"

definition lit_ok :: "lit \<Rightarrow> bool" where
  "lit_ok l = (case l of Quoted t \<Rightarrow> cypher_string t \<noteq> None | Raw t \<Rightarrow> is_number_literal t)"

definition lit_val :: "lit \<Rightarrow> pval" where
  "lit_val l =
     (case l of
        Quoted t \<Rightarrow> PStr (case cypher_string t of Some s \<Rightarrow> s | None \<Rightarrow> [])
      | Raw t \<Rightarrow> PNum t)"

definition clause_ok :: "clause \<Rightarrow> bool" where
  "clause_ok c =
     (case c of
        MergeNode v l ps \<Rightarrow> list_all (\<lambda>(k, x). lit_ok x) ps
      | MatchNode v l ps \<Rightarrow> list_all (\<lambda>(k, x). lit_ok x) ps
      | _ \<Rightarrow> True)"

text \<open>The empty text is not a query.\<close>

definition query_ok :: "query \<Rightarrow> bool" where
  "query_ok q = (q \<noteq> [] \<and> list_all clause_ok q)"

subsection \<open>Uniqueness constraints\<close>

text \<open>
  The constraints that \<open>_create_constraints\<close> declares before every write: label and key
  properties. A constraint binds the nodes of the label that have all the key properties.
\<close>

definition unique_keys :: "(string \<times> string list) list" where
  "unique_keys =
     [(''Company'', [''stock_code'']),
      (''Date'', [''date'']),
      (''Quarter'', [''year'', ''quarter'']),
      (''Year'', [''year'']),
      (''Sector'', [''stock_sector_nm''])]"

definition key_of :: "string list \<Rightarrow> node \<Rightarrow> pval option list" where
  "key_of ks n = map (\<lambda>k. map_of (nprops n) k) ks"

definition unique_ok :: "graph \<Rightarrow> bool" where
  "unique_ok g =
     list_all (\<lambda>(l, ks).
        distinct (map (key_of ks)
                    (filter (\<lambda>n. nlabel n = l \<and> None \<notin> set (key_of ks n)) (nodes g))))
       unique_keys"

subsection \<open>Running a query\<close>

type_synonym binding = "(string \<times> nat option) list"

definition bound :: "binding \<Rightarrow> string \<Rightarrow> nat option" where
  "bound r v = (case map_of r v of Some (Some x) \<Rightarrow> Some x | _ \<Rightarrow> None)"

definition props_val :: "(string \<times> lit) list \<Rightarrow> (string \<times> pval) list" where
  "props_val ps = map (\<lambda>(k, x). (k, lit_val x)) ps"

definition node_matches :: "string \<Rightarrow> (string \<times> pval) list \<Rightarrow> node \<Rightarrow> bool" where
  "node_matches l ps n = (nlabel n = l \<and> list_all (\<lambda>(k, v). map_of (nprops n) k = Some v) ps)"

definition has_label :: "graph \<Rightarrow> nat \<Rightarrow> string \<Rightarrow> bool" where
  "has_label g x l = list_ex (\<lambda>n. nid n = x \<and> nlabel n = l) (nodes g)"

definition detach_delete :: "nat \<Rightarrow> graph \<Rightarrow> graph" where
  "detach_delete x g =
     \<lparr>nodes = filter (\<lambda>n. nid n \<noteq> x) (nodes g),
      edges = filter (\<lambda>e. esrc e \<noteq> x \<and> edst e \<noteq> x) (edges g)\<rparr>"

definition delete_node :: "nat \<Rightarrow> graph \<Rightarrow> graph" where
  "delete_node x g = g\<lparr>nodes := filter (\<lambda>n. nid n \<noteq> x) (nodes g)\<rparr>"

text \<open>One clause on one row of bindings: the rows it yields and the graph it leaves.\<close>

fun exec_row :: "clause \<Rightarrow> binding \<Rightarrow> graph \<Rightarrow> error + (binding list \<times> graph)" where
  "exec_row (MatchNode v l ps) r g =
     Inr (map (\<lambda>n. (v, Some (nid n)) # r) (filter (node_matches l (props_val ps)) (nodes g)), g)"
| "exec_row (MergeNode v l ps) r g =
     (case filter (node_matches l (props_val ps)) (nodes g) of
        [] \<Rightarrow>
          (let n = \<lparr>nid = fresh_id g, nlabel = l, nprops = props_val ps\<rparr>;
               g' = g\<lparr>nodes := nodes g @ [n]\<rparr>
           in if unique_ok g' then Inr ([(v, Some (nid n)) # r], g') else Inl ConstraintError)
      | ms \<Rightarrow> Inr (map (\<lambda>n. (v, Some (nid n)) # r) ms, g))"
| "exec_row (OptionalMatch a t b l) r g =
     (case bound r a of
        None \<Rightarrow> Inr ([(b, None) # r], g)
      | Some x \<Rightarrow>
          (case filter (\<lambda>e. esrc e = x \<and> etype e = t \<and> has_label g (edst e) l) (edges g) of
             [] \<Rightarrow> Inr ([(b, None) # r], g)
           | es \<Rightarrow> Inr (map (\<lambda>e. (b, Some (edst e)) # r) es, g)))"
| "exec_row (MergeRel a t b) r g =
     (case (bound r a, bound r b) of
        (Some x, Some y) \<Rightarrow>
          (let e = \<lparr>esrc = x, etype = t, edst = y\<rparr>
           in Inr ([r], if e \<in> set (edges g) then g else g\<lparr>edges := edges g @ [e]\<rparr>))
      | _ \<Rightarrow> Inl (StoreError ''null''))"
| "exec_row (WithVars vs) r g = Inr ([map (\<lambda>v. (v, bound r v)) vs], g)"
| "exec_row (DetachDelete vs) r g =
     Inr ([r], fold detach_delete (concat (map (\<lambda>v. case bound r v of None \<Rightarrow> [] | Some x \<Rightarrow> [x]) vs)) g)"
| "exec_row (Delete v) r g =
     Inr ([r], case bound r v of None \<Rightarrow> g | Some x \<Rightarrow> delete_node x g)"

fun exec_rows :: "clause \<Rightarrow> binding list \<Rightarrow> graph \<Rightarrow> error + (binding list \<times> graph)" where
  "exec_rows c [] g = Inr ([], g)"
| "exec_rows c (r # rs) g =
     (case exec_row c r g of
        Inl e \<Rightarrow> Inl e
      | Inr (out, g') \<Rightarrow>
          (case exec_rows c rs g' of
             Inl e \<Rightarrow> Inl e
           | Inr (out', g'') \<Rightarrow> Inr (out @ out', g'')))"

fun exec_query :: "query \<Rightarrow> binding list \<Rightarrow> graph \<Rightarrow> error + (binding list \<times> graph)" where
  "exec_query [] rows g = Inr (rows, g)"
| "exec_query (c # cs) rows g =
     (case exec_rows c rows g of
        Inl e \<Rightarrow> Inl e
      | Inr (rows', g') \<Rightarrow> exec_query cs rows' g')"

text \<open>
  \<open>session.run(query)\<close>: one transaction. An error leaves the stored graph as it was; a
  node deleted while it still has relationships is an error when the transaction commits.
\<close>

definition run_query :: "query \<Rightarrow> graph \<Rightarrow> error + graph" where
  "run_query q g =
     (if \<not> query_ok q then Inl CypherSyntaxError
      else case exec_query q [[]] g of
             Inl e \<Rightarrow> Inl e
           | Inr (rows, g') \<Rightarrow> if dangling g' then Inl ConstraintError else Inr g')"

text \<open>
  \<open>StockKnowledgeGraph.create_schema\<close>: declare the constraints, then run the query.
  Declaring a constraint fails when the stored nodes already violate it.
\<close>

definition create_schema :: "graph \<Rightarrow> query \<Rightarrow> error + graph" where
  "create_schema g cypher_query =
     (if unique_ok g then run_query cypher_query g else Inl ConstraintError)"

subsection \<open>Administrative operations of \<open>StockKnowledgeGraph\<close>\<close>

text \<open>
  The database holds the graph and the names that \<open>SHOW CONSTRAINTS\<close> and \<open>SHOW INDEXES\<close>
  list (\<open>None\<close> for an entry without a name). Dropping a listed name succeeds and removes
  the entries of that name.
\<close>

record database =
  db_graph :: graph
  db_constraints :: "string option list"
  db_indexes :: "string option list"

text \<open>\<open>MATCH (n) DETACH DELETE n\<close>.\<close>

definition clear_all_data :: "database \<Rightarrow> database" where
  "clear_all_data db = db\<lparr>db_graph := fold detach_delete (node_ids (db_graph db)) (db_graph db)\<rparr>"

definition name_truthy :: "string option \<Rightarrow> bool" where
  "name_truthy n = (case n of None \<Rightarrow> False | Some s \<Rightarrow> s \<noteq> [])"

text \<open>The index names that \<open>_clear_indexes\<close> drops: named, and not starting with \<open>system\<close>.\<close>

definition droppable_index :: "string option \<Rightarrow> bool" where
  "droppable_index i = (case i of None \<Rightarrow> False | Some s \<Rightarrow> s \<noteq> [] \<and> \<not> prefix ''system'' s)"

definition drop_constraint :: "string \<Rightarrow> database \<Rightarrow> database" where
  "drop_constraint n db = db\<lparr>db_constraints := filter (\<lambda>c. c \<noteq> Some n) (db_constraints db)\<rparr>"

definition drop_index :: "string \<Rightarrow> database \<Rightarrow> database" where
  "drop_index n db = db\<lparr>db_indexes := filter (\<lambda>c. c \<noteq> Some n) (db_indexes db)\<rparr>"

fun clear_constraints_loop :: "string option list \<Rightarrow> database \<Rightarrow> database" where
  "clear_constraints_loop [] db = db"
| "clear_constraints_loop (c # cs) db =
     (case c of
        Some constraint_name \<Rightarrow>
          if constraint_name \<noteq> [] then clear_constraints_loop cs (drop_constraint constraint_name db)
          else clear_constraints_loop cs db
      | None \<Rightarrow> clear_constraints_loop cs db)"

definition clear_constraints :: "database \<Rightarrow> database" where
  "clear_constraints db = clear_constraints_loop (db_constraints db) db"

fun clear_indexes_loop :: "string option list \<Rightarrow> database \<Rightarrow> database" where
  "clear_indexes_loop [] db = db"
| "clear_indexes_loop (i # is) db =
     (case i of
        Some index_name \<Rightarrow>
          if index_name \<noteq> [] \<and> \<not> prefix ''system'' index_name
          then clear_indexes_loop is (drop_index index_name db)
          else clear_indexes_loop is db
      | None \<Rightarrow> clear_indexes_loop is db)"

definition clear_indexes :: "database \<Rightarrow> database" where
  "clear_indexes db = clear_indexes_loop (db_indexes db) db"

definition reset_database :: "database \<Rightarrow> database" where
  "reset_database db = clear_indexes (clear_constraints (clear_all_data db))"

section \<open>Financial statements (\<open>OpenDartCollector.get_financial_statements\<close>)\<close>

text \<open>
  The OpenDart client is a parameter: \<open>finstate corp year report\<close> raises, or returns nothing,
  or returns a data frame of accounts.
\<close>

type_synonym finstate = "cell \<Rightarrow> string \<Rightarrow> string \<Rightarrow> error + dataframe option"

definition get_quarter_list :: "string \<Rightarrow> error + (int \<times> string \<times> string) list" where
  "get_quarter_list date =
     (case (py_int (take 4 date), py_int (take 2 (drop 4 date))) of
        (Some year, Some month) \<Rightarrow>
          Inr (if month \<in> {1, 2, 3} then [(year - 1, ''11011'', ''4'')]
               else if month \<in> {4, 5, 6} then [(year, ''11013'', ''1''), (year - 1, ''11011'', ''4'')]
               else if month \<in> {7, 8, 9} then
                 [(year, ''11012'', ''2''), (year, ''11013'', ''1''), (year - 1, ''11011'', ''4'')]
               else [(year, ''11014'', ''3''), (year, ''11012'', ''2''), (year, ''11013'', ''1''),
                     (year - 1, ''11011'', ''4'')])
      | _ \<Rightarrow> Inl ValueError)"

text \<open>The account names of \<open>col_nm_li\<close> and the two statement kinds, as UTF-8 bytes.\<close>

definition col_nm_li :: "string list" where
  "col_nm_li =
     [[CHR 0xEB, CHR 0xA7, CHR 0xA4, CHR 0xEC, CHR 0xB6, CHR 0x9C, CHR 0xEC, CHR 0x95, CHR 0xA1],
      [CHR 0xEC, CHR 0x98, CHR 0x81, CHR 0xEC, CHR 0x97, CHR 0x85, CHR 0xEC, CHR 0x9D, CHR 0xB4, CHR 0xEC, CHR 0x9D, CHR 0xB5],
      [CHR 0xEB, CHR 0x8B, CHR 0xB9, CHR 0xEA, CHR 0xB8, CHR 0xB0, CHR 0xEC, CHR 0x88, CHR 0x9C, CHR 0xEC, CHR 0x9D, CHR 0xB4, CHR 0xEC, CHR 0x9D, CHR 0xB5],
      [CHR 0xEC, CHR 0x9E, CHR 0x90, CHR 0xEC, CHR 0x82, CHR 0xB0, CHR 0xEC, CHR 0xB4, CHR 0x9D, CHR 0xEA, CHR 0xB3, CHR 0x84],
      [CHR 0xEB, CHR 0xB6, CHR 0x80, CHR 0xEC, CHR 0xB1, CHR 0x84, CHR 0xEC, CHR 0xB4, CHR 0x9D, CHR 0xEA, CHR 0xB3, CHR 0x84],
      [CHR 0xEC, CHR 0x9E, CHR 0x90, CHR 0xEB, CHR 0xB3, CHR 0xB8, CHR 0xEC, CHR 0xB4, CHR 0x9D, CHR 0xEA, CHR 0xB3, CHR 0x84],
      [CHR 0xEC, CHR 0x9E, CHR 0x90, CHR 0xEB, CHR 0xB3, CHR 0xB8, CHR 0xEA, CHR 0xB8, CHR 0x88]]"

definition consolidated_nm :: string where
  "consolidated_nm =
     [CHR 0xEC, CHR 0x97, CHR 0xB0, CHR 0xEA, CHR 0xB2, CHR 0xB0, CHR 0xEC, CHR 0x9E, CHR 0xAC,
      CHR 0xEB, CHR 0xAC, CHR 0xB4, CHR 0xEC, CHR 0xA0, CHR 0x9C, CHR 0xED, CHR 0x91, CHR 0x9C]"

definition separate_nm :: string where
  "separate_nm =
     [CHR 0xEC, CHR 0x9E, CHR 0xAC, CHR 0xEB, CHR 0xAC, CHR 0xB4, CHR 0xEC, CHR 0xA0, CHR 0x9C,
      CHR 0xED, CHR 0x91, CHR 0x9C]"

text \<open>\<open>int(value[0].replace(',', ''))\<close>, with 0 for whatever raises.\<close>

definition amount_of :: "cell \<Rightarrow> int" where
  "amount_of v =
     (case v of
        CStr s \<Rightarrow> (case py_int (filter (\<lambda>c. c \<noteq> CHR '','') s) of Some n \<Rightarrow> n | None \<Rightarrow> 0)
      | _ \<Rightarrow> 0)"

text \<open>
  The rows of one account in one kind of statement. A frame that lacks one of the columns
  read raises inside the handler of the account, which gives the amount 0, as no row does.
\<close>

definition account_rows :: "dataframe \<Rightarrow> string \<Rightarrow> string \<Rightarrow> row list" where
  "account_rows dart_df col_nm fs_nm =
     filter (\<lambda>r. cell_is ''account_nm'' (CStr col_nm) r \<and> cell_is ''fs_nm'' (CStr fs_nm) r)
       (frame_rows dart_df)"

definition account_value :: "dataframe \<Rightarrow> string \<Rightarrow> int" where
  "account_value dart_df col_nm =
     (let value = (case account_rows dart_df col_nm consolidated_nm of
                     [] \<Rightarrow> account_rows dart_df col_nm separate_nm
                   | rs \<Rightarrow> rs)
      in case value of
           [] \<Rightarrow> 0
         | r # _ \<Rightarrow> (case map_of r ''thstrm_amount'' of Some v \<Rightarrow> amount_of v | None \<Rightarrow> 0))"

definition fs_row :: "cell \<Rightarrow> int \<Rightarrow> string \<Rightarrow> int list \<Rightarrow> row" where
  "fs_row stock_code bsns_year quarter_nm fs_info =
     [(''stock_code'', stock_code), (''year'', CInt bsns_year), (''quarter'', CStr quarter_nm)]
     @ zip fs_fields (map CInt fs_info)"

text \<open>
  The loop over the candidate quarters: the first one with data gives the row. The handler
  of a quarter is \<open>except Exception\<close>, so an exception of the client moves on to the next
  quarter and an interrupt leaves the function.
\<close>

fun fs_try_quarters ::
    "finstate \<Rightarrow> cell \<Rightarrow> (int \<times> string \<times> string) list \<Rightarrow> error + row option" where
  "fs_try_quarters finstate stock_code [] = Inr None"
| "fs_try_quarters finstate stock_code ((bsns_year, reprt_code, quarter_nm) # rest) =
     (case finstate stock_code (show_int bsns_year) reprt_code of
        Inl e \<Rightarrow> if is_exception e then fs_try_quarters finstate stock_code rest else Inl e
      | Inr None \<Rightarrow> fs_try_quarters finstate stock_code rest
      | Inr (Some dart_df) \<Rightarrow>
          if length (frame_rows dart_df) = 0 then fs_try_quarters finstate stock_code rest
          else Inr (Some (fs_row stock_code bsns_year quarter_nm
                            (map (account_value dart_df) col_nm_li))))"

text \<open>
  When no candidate gives data the row is filled with zeros; its year and quarter are those
  of the last candidate tried, which the loop variables still hold.
\<close>

definition get_financial_statements :: "finstate \<Rightarrow> cell \<Rightarrow> string \<Rightarrow> error + row" where
  "get_financial_statements finstate stock_code date =
     (case get_quarter_list date of
        Inl e \<Rightarrow> Inl e
      | Inr quarters \<Rightarrow>
          (case fs_try_quarters finstate stock_code quarters of
             Inl e \<Rightarrow> Inl e
           | Inr (Some r) \<Rightarrow> Inr r
           | Inr None \<Rightarrow>
               (case last quarters of (bsns_year, reprt_code, quarter_nm) \<Rightarrow>
                  Inr (fs_row stock_code bsns_year quarter_nm (map (\<lambda>c. 0) fs_fields)))))"

section \<open>Competitor relationships\<close>

subsection \<open>\<open>graph_builders.get_competitor_info\<close>\<close>

text \<open>
  The loop over the competitor codes. The body of one code is in a handler of its own: a
  code that no row carries (\<open>iloc[0]\<close> raises \<open>IndexError\<close>) is skipped.
\<close>

fun dst_loop :: "cell \<Rightarrow> dataframe \<Rightarrow> elem list \<Rightarrow> row list" where
  "dst_loop stock_code graph_df [] = []"
| "dst_loop stock_code graph_df (compete_stock_code # rest) =
     (if cell_eq stock_code (cell_of_elem compete_stock_code) then dst_loop stock_code graph_df rest
      else (case rows_with graph_df ''stock_code'' (cell_of_elem compete_stock_code) of
              Inr (dst_company_dict # _) \<Rightarrow> dst_company_dict # dst_loop stock_code graph_df rest
            | _ \<Rightarrow> dst_loop stock_code graph_df rest))"

text \<open>
  The cells of a column of numbers are numpy scalars: the column holds integers and NaN
  only. Comparing such a scalar with \<open>[]\<close> gives an empty array, which has no truth value
  (numpy 2.2 and later raise \<open>ValueError\<close>).
\<close>

definition numeric_column :: "dataframe \<Rightarrow> string \<Rightarrow> bool" where
  "numeric_column df k =
     list_all (\<lambda>r. case map_of r k of Some (CInt i) \<Rightarrow> True | Some CNaN \<Rightarrow> True | _ \<Rightarrow> False)
       (frame_rows df)"

text \<open>
  The result \<open>([], [])\<close> is the pair \<open>({}, [])\<close> of the outer exception handler: the frame
  has no column \<open>stock_code\<close> or \<open>compete_stock_code_li\<close>, or no row of the stock code, or
  the emptiness test raises on a numpy scalar.
\<close>

definition get_competitor_info :: "cell \<Rightarrow> dataframe \<Rightarrow> row \<times> row list" where
  "get_competitor_info stock_code graph_df =
     (case rows_with graph_df ''stock_code'' stock_code of
        Inl e \<Rightarrow> ([], [])
      | Inr [] \<Rightarrow> ([], [])
      | Inr (src_company_dict # _) \<Rightarrow>
          if \<not> has_column graph_df ''compete_stock_code_li'' then ([], [])
          else
            (case map_of src_company_dict ''compete_stock_code_li'' of
               None \<Rightarrow> ([], [])
             | Some li \<Rightarrow>
                 if numeric_column graph_df ''compete_stock_code_li'' then
                   (if \<not> py_truthy li then (src_company_dict, []) else ([], []))
                 else if \<not> py_truthy li \<or> li = CList [] \<or> li = CStr [] then (src_company_dict, [])
                 else
                   (case (case li of
                            CStr s \<Rightarrow>
                              CList (map (\<lambda>code. EStr (py_strip code))
                                       (filter (\<lambda>code. py_strip code \<noteq> []) (split_on CHR '','' s)))
                          | _ \<Rightarrow> li) of
                      CList codes \<Rightarrow>
                        if length codes = 0 then (src_company_dict, [])
                        else (src_company_dict, dst_loop stock_code graph_df codes)
                    | _ \<Rightarrow> (src_company_dict, []))))"

subsection \<open>\<open>run_graphdb.check_existing_competitor_relationships\<close>\<close>

text \<open>The text Python formats for a property read from the store.\<close>

definition prop_str :: "pval option \<Rightarrow> string" where
  "prop_str p = (case p of Some (PStr s) \<Rightarrow> s | Some (PNum t) \<Rightarrow> t | None \<Rightarrow> ''None'')"

definition company_code :: "node \<Rightarrow> string" where
  "company_code n = prop_str (map_of (nprops n) ''stock_code'')"

definition check_existing_competitor_relationships :: "graph \<Rightarrow> string list" where
  "check_existing_competitor_relationships g =
     concat (map (\<lambda>e.
        concat (map (\<lambda>c1.
          map (\<lambda>c2. company_code c1 @ ''-'' @ company_code c2)
            (filter (\<lambda>n. nid n = edst e \<and> nlabel n = ''Company'') (nodes g)))
          (filter (\<lambda>n. nid n = esrc e \<and> nlabel n = ''Company'') (nodes g))))
       (filter (\<lambda>e. etype e = ''COMPETES_WITH'') (edges g)))"

subsection \<open>\<open>run_graphdb.add_competitor_relationships\<close>\<close>

text \<open>
  The state is the graph and the counter \<open>added_relationships\<close>. An exception inside the
  body of a company is caught by the handler of that company, which only logs: the rest
  of the company's competitors is skipped and the writes made so far stay.
\<close>

fun competitor_dst_loop ::
    "string list \<Rightarrow> row \<Rightarrow> row \<Rightarrow> row list \<Rightarrow> graph \<times> nat \<Rightarrow> graph \<times> nat" where
  "competitor_dst_loop existing company src_company_dict [] st = st"
| "competitor_dst_loop existing company src_company_dict (dst_company_dict # rest) st =
     (case (getitem company ''stock_code'', getitem dst_company_dict ''stock_code'') of
        (Inr sc, Inr dc) \<Rightarrow>
          if py_str sc @ ''-'' @ py_str dc \<notin> set existing then
            (case create_cypher_query_competitor src_company_dict dst_company_dict of
               Inl e \<Rightarrow> st
             | Inr cypher_competitor_query \<Rightarrow>
                 (case create_schema (fst st) cypher_competitor_query of
                    Inl e \<Rightarrow> st
                  | Inr g' \<Rightarrow>
                      competitor_dst_loop existing company src_company_dict rest (g', snd st + 1)))
          else competitor_dst_loop existing company src_company_dict rest st
      | _ \<Rightarrow> st)"

definition competitor_company_step ::
    "string list \<Rightarrow> dataframe \<Rightarrow> row \<Rightarrow> graph \<times> nat \<Rightarrow> graph \<times> nat" where
  "competitor_company_step existing total_df company st =
     (let compete_codes = get_default company ''compete_stock_code_li'' (CStr [])
      in if \<not> py_truthy compete_codes \<or> compete_codes = CList [] \<or> compete_codes = CStr [] then st
         else (case getitem company ''stock_code'' of
                 Inl e \<Rightarrow> st
               | Inr sc \<Rightarrow>
                   (case get_competitor_info sc total_df of
                      (src_company_dict, dst_company_dict_li) \<Rightarrow>
                        if dst_company_dict_li = [] then st
                        else competitor_dst_loop existing company src_company_dict
                               dst_company_dict_li st)))"

definition add_competitor_relationships ::
    "graph \<Rightarrow> dataframe \<Rightarrow> dataframe option \<Rightarrow> graph \<times> nat" where
  "add_competitor_relationships g total_df competitor_df =
     (let existing_relationships = check_existing_competitor_relationships g
      in case competitor_df of
           None \<Rightarrow> (g, 0)
         | Some cdf \<Rightarrow>
             if frame_empty cdf then (g, 0)
             else if \<not> has_column total_df ''compete_stock_code_li'' then (g, 0)
             else (let df = fillna_column ''compete_stock_code_li'' total_df
                   in fold (competitor_company_step existing_relationships df) (frame_rows df) (g, 0)))"

text \<open>The ingestion run \<open>n\<close> times, each run on the graph the previous one left.\<close>

fun ingest_competitors :: "nat \<Rightarrow> dataframe \<Rightarrow> dataframe option \<Rightarrow> graph \<Rightarrow> graph" where
  "ingest_competitors 0 total_df competitor_df g = g"
| "ingest_competitors (Suc n) total_df competitor_df g =
     ingest_competitors n total_df competitor_df
       (fst (add_competitor_relationships g total_df competitor_df))"

text \<open>The number of relationships of one type between two nodes.\<close>

definition count_edges :: "graph \<Rightarrow> nat \<Rightarrow> string \<Rightarrow> nat \<Rightarrow> nat" where
  "count_edges g x t y = length (filter (\<lambda>e. esrc e = x \<and> etype e = t \<and> edst e = y) (edges g))"

section \<open>Daily data (\<open>run_graphdb.add_daily_data_to_graph\<close>)\<close>

text \<open>
  The write to the store is a parameter, so that a write may fail for any reason. The
  result carries the graph as it stands when the function returns or raises. Four
  expressions stand outside the \<open>try\<close> and raise out of the loop: the company's stock code,
  the selection of the price rows, the selection of the statement rows, and, inside the
  handler, the company's abbreviation in the log message. The handler is
  \<open>except Exception\<close>: an interrupt raised by the write leaves the loop.
\<close>

type_synonym store_write = "graph \<Rightarrow> query \<Rightarrow> error + graph"

text \<open>
  \<open>fs_df[fs_df['stock_code'] == stock_code]\<close> when there is a frame, and the dict of its
  first row when it has one.
\<close>

definition fs_dict_of :: "dataframe option \<Rightarrow> cell \<Rightarrow> error + row option" where
  "fs_dict_of fs_df stock_code =
     (case fs_df of
        None \<Rightarrow> Inr None
      | Some f \<Rightarrow>
          (case rows_with f ''stock_code'' stock_code of
             Inl e \<Rightarrow> Inl e
           | Inr [] \<Rightarrow> Inr None
           | Inr (r # _) \<Rightarrow> Inr (Some r)))"

text \<open>The body of the \<open>try\<close> for one company whose price row was found.\<close>

definition daily_write ::
    "store_write \<Rightarrow> string \<Rightarrow> row \<Rightarrow> row \<Rightarrow> row option \<Rightarrow> graph \<Rightarrow> error + graph" where
  "daily_write wr date company price fs_dict g =
     (case create_cypher_query_daily_data date company price fs_dict of
        Inl e \<Rightarrow> Inl e
      | Inr cypher_query \<Rightarrow> wr g cypher_query)"

fun add_daily_loop ::
    "store_write \<Rightarrow> dataframe \<Rightarrow> dataframe option \<Rightarrow> string \<Rightarrow> row list
       \<Rightarrow> nat \<Rightarrow> nat \<Rightarrow> graph \<Rightarrow> (error + nat \<times> nat) \<times> graph" where
  "add_daily_loop wr price_df fs_df date [] success_count error_count g =
     (Inr (success_count, error_count), g)"
| "add_daily_loop wr price_df fs_df date (company # rest) success_count error_count g =
     (case getitem company ''stock_code'' of
        Inl e \<Rightarrow> (Inl e, g)
      | Inr stock_code \<Rightarrow>
          (case rows_with price_df ''stock_code'' stock_code of
             Inl e \<Rightarrow> (Inl e, g)
           | Inr [] \<Rightarrow> add_daily_loop wr price_df fs_df date rest success_count (error_count + 1) g
           | Inr (price # _) \<Rightarrow>
               (case fs_dict_of fs_df stock_code of
                  Inl e \<Rightarrow> (Inl e, g)
                | Inr fs_dict \<Rightarrow>
                    (case daily_write wr date company price fs_dict g of
                       Inr g' \<Rightarrow>
                         add_daily_loop wr price_df fs_df date rest (success_count + 1) error_count g'
                     | Inl e \<Rightarrow>
                         if is_exception e then
                           (case getitem company ''stock_abbrv'' of
                              Inl e' \<Rightarrow> (Inl e', g)
                            | Inr abbrv \<Rightarrow>
                                add_daily_loop wr price_df fs_df date rest success_count
                                  (error_count + 1) g)
                         else (Inl e, g)))))"

definition add_daily_data_to_graph ::
    "store_write \<Rightarrow> graph \<Rightarrow> dataframe \<Rightarrow> dataframe \<Rightarrow> dataframe option \<Rightarrow> string
       \<Rightarrow> (error + nat \<times> nat) \<times> graph" where
  "add_daily_data_to_graph wr g company_df price_df fs_df date =
     add_daily_loop wr price_df fs_df date (frame_rows company_df) 0 0 g"

text \<open>
  What happens to each company in turn, for stating the counters: the company has no
  price row, or its write fails, or its write succeeds; the graph each company meets is
  the one its predecessors left.
\<close>

datatype outcome = NoPrice | WriteFailed | Written

definition company_outcome ::
    "store_write \<Rightarrow> dataframe \<Rightarrow> dataframe option \<Rightarrow> string \<Rightarrow> row \<Rightarrow> graph \<Rightarrow> outcome \<times> graph" where
  "company_outcome wr price_df fs_df date company g =
     (let stock_code = cell_of company ''stock_code''
      in case rows_with price_df ''stock_code'' stock_code of
           Inr (price # _) \<Rightarrow>
             (case fs_dict_of fs_df stock_code of
                Inl e \<Rightarrow> (WriteFailed, g)
              | Inr fs_dict \<Rightarrow>
                  (case daily_write wr date company price fs_dict g of
                     Inl e \<Rightarrow> (WriteFailed, g)
                   | Inr g' \<Rightarrow> (Written, g')))
         | _ \<Rightarrow> (NoPrice, g))"

fun outcomes ::
    "store_write \<Rightarrow> dataframe \<Rightarrow> dataframe option \<Rightarrow> string \<Rightarrow> row list \<Rightarrow> graph \<Rightarrow> outcome list" where
  "outcomes wr price_df fs_df date [] g = []"
| "outcomes wr price_df fs_df date (company # rest) g =
     (case company_outcome wr price_df fs_df date company g of
        (oc, g') \<Rightarrow> oc # outcomes wr price_df fs_df date rest g')"

section \<open>The per-date cycle and the recovery (\<open>run_graphdb\<close>)\<close>

text \<open>The globals \<open>current_date\<close> and \<open>processed_dates\<close>, and the graph behind \<open>current_graph\<close>.\<close>

record run_state =
  current_date :: "string option"
  processed_dates :: "string list"
  run_graph :: graph

text \<open>
  The two collection steps are parameters: each raises or returns the data frame it
  leaves in the processor (\<open>None\<close> when it leaves none).
\<close>

type_synonym collect_step = "string \<Rightarrow> error + dataframe option"

text \<open>The three steps inside the \<open>try\<close>: the result, and the graph they leave.\<close>

definition date_steps ::
    "collect_step \<Rightarrow> collect_step \<Rightarrow> store_write \<Rightarrow> string \<Rightarrow> dataframe \<Rightarrow> graph
       \<Rightarrow> (error + nat \<times> nat) \<times> graph" where
  "date_steps get_price_info get_fs wr date company_df g =
     (case get_price_info date of
        Inl e \<Rightarrow> (Inl e, g)
      | Inr price_df \<Rightarrow>
          (case get_fs date of
             Inl e \<Rightarrow> (Inl e, g)
           | Inr fs_df \<Rightarrow>
               (case price_df of
                  None \<Rightarrow> (Inr (0, 0), g)
                | Some p \<Rightarrow>
                    if \<not> frame_empty p then add_daily_data_to_graph wr g company_df p fs_df date
                    else (Inr (0, 0), g))))"

text \<open>
  \<open>process_single_date\<close>. The counters are local variables that start at 0 and are
  assigned only when the third step returns; the \<open>finally\<close> block reads them whether the
  \<open>try\<close> returned or raised.
\<close>

definition process_single_date ::
    "collect_step \<Rightarrow> collect_step \<Rightarrow> store_write \<Rightarrow> string \<Rightarrow> dataframe \<Rightarrow> run_state
       \<Rightarrow> (error + nat \<times> nat) \<times> run_state" where
  "process_single_date get_price_info get_fs wr date company_df st =
     (let st1 = st\<lparr>current_date := Some date\<rparr>;
          (res, g') = date_steps get_price_info get_fs wr date company_df (run_graph st1);
          (success_count, error_count) = (case res of Inr (s, e) \<Rightarrow> (s, e) | Inl err \<Rightarrow> (0, 0));
          st2 = st1\<lparr>run_graph := g'\<rparr>
      in (res,
          if success_count > 0 \<or> error_count = 0
          then st2\<lparr>processed_dates := processed_dates st2 @ [date], current_date := None\<rparr>
          else st2))"

text \<open>
  \<open>cleanup_single_date_data\<close> and \<open>cleanup_processed_data\<close>: the exception of a failed query
  is caught and printed, and the graph stays as the failed transaction left it. In
  \<open>cleanup_processed_data\<close> the handler is around the loop, so the first failure ends it.
\<close>

definition cleanup_single_date_data :: "graph \<Rightarrow> string \<Rightarrow> graph" where
  "cleanup_single_date_data g date =
     (case run_query (cleanup_query date) g of Inl e \<Rightarrow> g | Inr g' \<Rightarrow> g')"

fun cleanup_processed_data :: "graph \<Rightarrow> string list \<Rightarrow> graph" where
  "cleanup_processed_data g [] = g"
| "cleanup_processed_data g (date # dates) =
     (case run_query (cleanup_query date) g of
        Inl e \<Rightarrow> g
      | Inr g' \<Rightarrow> cleanup_processed_data g' dates)"

definition cleanup_and_exit :: "run_state \<Rightarrow> graph" where
  "cleanup_and_exit st =
     (let g1 = (if processed_dates st \<noteq> [] then cleanup_processed_data (run_graph st) (processed_dates st)
                else run_graph st)
      in case current_date st of
           Some d \<Rightarrow> if d \<noteq> [] then cleanup_single_date_data g1 d else g1
         | None \<Rightarrow> g1)"

text \<open>The nodes of one label, for counting what a recovery leaves.\<close>

definition nodes_labelled :: "graph \<Rightarrow> string \<Rightarrow> node list" where
  "nodes_labelled g l = filter (\<lambda>n. nlabel n = l) (nodes g)"

section \<open>Company ingestion (\<open>run_graphdb.add_companies_to_graph\<close>)\<close>

text \<open>
  A company whose query or write raises is logged and skipped; the log message reads the
  company's abbreviation, so a company without one raises out of the loop.
\<close>

fun add_companies_to_graph :: "graph \<Rightarrow> row list \<Rightarrow> error + graph" where
  "add_companies_to_graph g [] = Inr g"
| "add_companies_to_graph g (company # rest) =
     (case (case create_cypher_query_company company of
              Inl e \<Rightarrow> Inl e
            | Inr cypher_query \<Rightarrow> create_schema g cypher_query) of
        Inr g' \<Rightarrow> add_companies_to_graph g' rest
      | Inl e \<Rightarrow>
          (case getitem company ''stock_abbrv'' of
             Inl e' \<Rightarrow> Inl e'
           | Inr abbrv \<Rightarrow> add_companies_to_graph g rest))"

section \<open>A small universe, for evaluating the pipeline\<close>

definition example_company :: "string \<Rightarrow> cell \<Rightarrow> row" where
  "example_company code competitors =
     [(''stock_code'', CStr code), (''stock_nm'', CStr ''Nm''), (''stock_abbrv'', CStr ''N''),
      (''stock_nm_eng'', CStr ''Nm''), (''listing_dt'', CStr ''2000''),
      (''outstanding_shares'', CInt 10), (''kospi200_item_yn'', CStr ''Y''),
      (''stock_sector_nm'', CStr ''S''), (''compete_stock_code_li'', competitors)]"

definition example_price :: "string \<Rightarrow> string \<Rightarrow> row" where
  "example_price code date =
     [(''stock_code'', CStr code), (''date'', CStr date), (''stck_hgpr'', CStr ''71''),
      (''stck_lwpr'', CStr ''69''), (''stck_oprc'', CStr ''70''), (''stck_clpr'', CStr ''70''),
      (''eps'', CStr ''12''), (''pbr'', CStr ''1.5''), (''per'', CStr ''9.1'')]"

definition example_universe :: dataframe where
  "example_universe =
     \<lparr>columns = [''stock_code'', ''stock_nm'', ''stock_abbrv'', ''stock_nm_eng'', ''listing_dt'',
                 ''outstanding_shares'', ''kospi200_item_yn'', ''stock_sector_nm'',
                 ''compete_stock_code_li''],
      frame_rows = [example_company ''000001'' (CList [EStr ''000002'', EStr ''000001'']),
                    example_company ''000002'' (CList [])]\<rparr>"

text \<open>The graph of the one-time step: the two companies and their sector.\<close>

definition example_graph :: graph where
  "example_graph =
     (case add_companies_to_graph empty_graph (frame_rows example_universe) of
        Inr g \<Rightarrow> g
      | Inl e \<Rightarrow> empty_graph)"

text \<open>A client of the filing service that has no data for any quarter.\<close>

definition no_filings :: finstate where
  "no_filings corp year report = Inr None"

definition example_fs :: "string \<Rightarrow> dataframe" where
  "example_fs date =
     \<lparr>columns = [''stock_code'', ''year'', ''quarter''] @ fs_fields,
      frame_rows =
        concat (map (\<lambda>c. case get_financial_statements no_filings (cell_of c ''stock_code'') date of
                            Inr r \<Rightarrow> [r] | Inl e \<Rightarrow> [])
                  (frame_rows example_universe))\<rparr>"

text \<open>The prices of one date: a row for the first company only.\<close>

definition example_prices :: "string \<Rightarrow> dataframe" where
  "example_prices date =
     \<lparr>columns = [''stock_code'', ''date'', ''stck_hgpr'', ''stck_lwpr'', ''stck_oprc'', ''stck_clpr'',
                 ''eps'', ''pbr'', ''per''],
      frame_rows = [example_price ''000001'' date]\<rparr>"

text \<open>The graph after the daily data of one date was written for the first company.\<close>

definition example_written :: "string \<Rightarrow> graph" where
  "example_written date =
     snd (add_daily_data_to_graph create_schema example_graph example_universe
            (example_prices date) (Some (example_fs date)) date)"

text \<open>
  Two companies whose stock codes hold a hyphen, the first listing the second, and a graph
  that holds them and a relationship between two other companies.
\<close>

definition hyphen_universe :: dataframe where
  "hyphen_universe =
     \<lparr>columns = columns example_universe,
      frame_rows = [example_company ''0-1'' (CList [EStr ''2'']),
                    example_company ''2'' (CList [])]\<rparr>"

definition hyphen_graph :: graph where
  "hyphen_graph =
     \<lparr>nodes = [\<lparr>nid = 1, nlabel = ''Company'', nprops = [(''stock_code'', PStr ''0-1'')]\<rparr>,
               \<lparr>nid = 2, nlabel = ''Company'', nprops = [(''stock_code'', PStr ''2'')]\<rparr>,
               \<lparr>nid = 3, nlabel = ''Company'', nprops = [(''stock_code'', PStr ''0'')]\<rparr>,
               \<lparr>nid = 4, nlabel = ''Company'', nprops = [(''stock_code'', PStr ''1-2'')]\<rparr>],
      edges = [\<lparr>esrc = 3, etype = ''COMPETES_WITH'', edst = 4\<rparr>]\<rparr>"

text \<open>
  Two companies whose stock codes are a backslash followed by a double quote, and a double
  quote; the first lists the second. The graph is the one that the one-time step leaves.
\<close>

definition quote_universe :: dataframe where
  "quote_universe =
     \<lparr>columns = columns example_universe,
      frame_rows = [example_company [CHR 0x5C, CHR 0x22] (CList [EStr [CHR 0x22]]),
                    example_company [CHR 0x22] (CList [])]\<rparr>"

definition quote_graph :: graph where
  "quote_graph =
     (case add_companies_to_graph empty_graph (frame_rows quote_universe) of
        Inr g \<Rightarrow> g
      | Inl e \<Rightarrow> empty_graph)"

text \<open>A database with two nodes, one relationship, two constraints and three indexes.\<close>

definition example_db :: database where
  "example_db =
     \<lparr>db_graph =
        \<lparr>nodes = [\<lparr>nid = 1, nlabel = ''Company'', nprops = [(''stock_code'', PStr ''000001'')]\<rparr>,
                  \<lparr>nid = 2, nlabel = ''Sector'', nprops = [(''stock_sector_nm'', PStr ''S'')]\<rparr>],
         edges = [\<lparr>esrc = 1, etype = ''BELONGS_TO'', edst = 2\<rparr>]\<rparr>,
      db_constraints = [Some ''constraint_1'', Some ''constraint_2''],
      db_indexes = [Some ''constraint_1'', Some ''index_1'', Some ''system_1'']\<rparr>"

text \<open>The value of \<open>example_written\<close> for the date 20240515.\<close>

definition written_20240515 :: graph where
  "written_20240515 =
   \<lparr>nodes =
    [\<lparr>nid = 1, nlabel = ''Company'',
        nprops =
          [(''stock_code'', PStr ''000001''), (''stock_nm'', PStr ''Nm''),
           (''stock_abbrv'', PStr ''N''),
           (''stock_nm_eng'', PStr ''Nm''),
           (''listing_dt'', PStr ''2000''),
           (''outstanding_shares'', PNum ''10''),
           (''kospi200_item_yn'', PStr ''Y''),
           (''compete_stock_nm_li'', PStr []),
           (''compete_stock_code_li'', PStr ''000002, 000001'')]\<rparr>,
     \<lparr>nid = 2, nlabel = ''Sector'',
        nprops = [(''stock_sector_nm'', PStr ''S'')]\<rparr>,
     \<lparr>nid = 3, nlabel = ''Company'',
        nprops =
          [(''stock_code'', PStr ''000002''), (''stock_nm'', PStr ''Nm''),
           (''stock_abbrv'', PStr ''N''),
           (''stock_nm_eng'', PStr ''Nm''),
           (''listing_dt'', PStr ''2000''),
           (''outstanding_shares'', PNum ''10''),
           (''kospi200_item_yn'', PStr ''Y''),
           (''compete_stock_nm_li'', PStr []),
           (''compete_stock_code_li'', PStr [])]\<rparr>,
     \<lparr>nid = 4, nlabel = ''Date'',
        nprops =
          [(''date'', PStr ''20240515''), (''year'', PNum ''2024''),
           (''month'', PNum ''5''), (''day'', PNum ''15'')]\<rparr>,
     \<lparr>nid = 5, nlabel = ''Quarter'',
        nprops = [(''year'', PNum ''2024''), (''quarter'', PNum ''2'')]\<rparr>,
     \<lparr>nid = 6, nlabel = ''Year'', nprops = [(''year'', PNum ''2024'')]\<rparr>,
     \<lparr>nid = 7, nlabel = ''StockPrice'',
        nprops =
          [(''stck_hgpr'', PNum ''71''), (''stck_lwpr'', PNum ''69''),
           (''stck_oprc'', PNum ''70''), (''stck_clpr'', PNum ''70'')]\<rparr>,
     \<lparr>nid = 8, nlabel = ''Indicator'',
        nprops =
          [(''pbr'', PNum ''1.5''), (''per'', PNum ''9.1''),
           (''eps'', PNum ''12'')]\<rparr>,
     \<lparr>nid = 9, nlabel = ''FinancialStatements'',
        nprops =
          [(''revenue'', PNum ''0''), (''operating_income'', PNum ''0''),
           (''net_income'', PNum ''0''), (''total_assets'', PNum ''0''),
           (''total_liabilities'', PNum ''0''),
           (''total_equity'', PNum ''0''),
           (''capital_stock'', PNum ''0'')]\<rparr>],
    edges =
      [\<lparr>esrc = 1, etype = ''BELONGS_TO'', edst = 2\<rparr>,
       \<lparr>esrc = 3, etype = ''BELONGS_TO'', edst = 2\<rparr>,
       \<lparr>esrc = 7, etype = ''RECORDED_ON'', edst = 4\<rparr>,
       \<lparr>esrc = 8, etype = ''MEASURED_ON'', edst = 4\<rparr>,
       \<lparr>esrc = 4, etype = ''IN_QUARTER'', edst = 5\<rparr>,
       \<lparr>esrc = 5, etype = ''IN_YEAR'', edst = 6\<rparr>,
       \<lparr>esrc = 4, etype = ''IN_YEAR'', edst = 6\<rparr>,
       \<lparr>esrc = 1, etype = ''HAS_STOCK_PRICE'', edst = 7\<rparr>,
       \<lparr>esrc = 1, etype = ''HAS_INDICATOR'', edst = 8\<rparr>,
       \<lparr>esrc = 9, etype = ''FOR_QUARTER'', edst = 5\<rparr>,
       \<lparr>esrc = 9, etype = ''FOR_YEAR'', edst = 6\<rparr>,
       \<lparr>esrc = 1, etype = ''HAS_FINANCIAL_STATEMENTS'', edst = 9\<rparr>]\<rparr>"

section \<open>Notions for stating the properties of the competitor ingestion\<close>

text \<open>The query of \<open>_create_cypher_query_competitor\<close> for two stock codes.\<close>

definition competitor_query :: "string \<Rightarrow> string \<Rightarrow> query" where
  "competitor_query a b =
     [MatchNode ''Company'' ''Company'' [(''stock_code'', Quoted a)],
      MatchNode ''Competitor'' ''Company'' [(''stock_code'', Quoted b)],
      MergeRel ''Company'' ''COMPETES_WITH'' ''Competitor'']"

text \<open>The Company nodes that the pattern \<open>(:Company {stock_code: 'a'})\<close> matches.\<close>

definition company_ids :: "graph \<Rightarrow> string \<Rightarrow> nat list" where
  "company_ids g a =
     map nid (filter (node_matches ''Company'' [(''stock_code'', lit_val (Quoted a))]) (nodes g))"

text \<open>
  The second graph has the nodes of the first and its relationships followed by new ones,
  each new one once and each satisfying the predicate.
\<close>

definition edges_added :: "(edge \<Rightarrow> bool) \<Rightarrow> graph \<Rightarrow> graph \<Rightarrow> bool" where
  "edges_added P g g' =
     (nodes g' = nodes g \<and>
      (\<exists>new. edges g' = edges g @ new \<and> distinct new \<and> set new \<inter> set (edges g) = {}
             \<and> list_all P new))"

text \<open>
  A stock code without quote or backslash, which the query text holds as it is; and one
  that has no hyphen either, which the key \<open>src-dst\<close> of a relationship holds as it is.
\<close>

definition plain_code :: "string \<Rightarrow> bool" where
  "plain_code s = (CHR 0x27 \<notin> set s \<and> CHR 0x5C \<notin> set s)"

definition clean_code :: "string \<Rightarrow> bool" where
  "clean_code s = (plain_code s \<and> CHR ''-'' \<notin> set s)"

text \<open>Every row that has a stock code has a string without quote or backslash there.\<close>

definition plain_frame :: "dataframe \<Rightarrow> bool" where
  "plain_frame df =
     list_all (\<lambda>r. case map_of r ''stock_code'' of
                      None \<Rightarrow> True
                    | Some c \<Rightarrow> (case c of CStr s \<Rightarrow> plain_code s | _ \<Rightarrow> False))
       (frame_rows df)"

text \<open>Every Company node carries a string as its stock code, as the pipeline writes it.\<close>

definition company_codes_strings :: "graph \<Rightarrow> bool" where
  "company_codes_strings g =
     list_all (\<lambda>n. nlabel n = ''Company'' \<longrightarrow>
                 (case map_of (nprops n) ''stock_code'' of Some (PStr s) \<Rightarrow> True | _ \<Rightarrow> False))
       (nodes g)"

text \<open>The node is a Company node of the graph with the given stock code.\<close>

definition is_company :: "graph \<Rightarrow> node \<Rightarrow> string \<Rightarrow> bool" where
  "is_company g n code =
     (n \<in> set (nodes g) \<and> nlabel n = ''Company'' \<and> map_of (nprops n) ''stock_code'' = Some (PStr code))"

text \<open>
  The frame lists \<open>b\<close> among the competitors of \<open>a\<close>: it has the column of the
  competitors, the first row of \<open>a\<close>, the one \<open>get_competitor_info\<close> reads, has a list that
  holds \<open>b\<close>, and \<open>b\<close> has a row.
\<close>

definition lists_competitor :: "dataframe \<Rightarrow> string \<Rightarrow> string \<Rightarrow> bool" where
  "lists_competitor total_df a b =
     (has_column total_df ''compete_stock_code_li''
      \<and> (case rows_with total_df ''stock_code'' (CStr a) of
            Inr (r # rs) \<Rightarrow> (case map_of r ''compete_stock_code_li'' of
                              Some (CList l) \<Rightarrow> EStr b \<in> set l
                            | _ \<Rightarrow> False)
          | _ \<Rightarrow> False)
      \<and> (case rows_with total_df ''stock_code'' (CStr b) of Inr (r # rs) \<Rightarrow> True | _ \<Rightarrow> False))"

section \<open>Notions for stating the properties of a write\<close>









text \<open>
  The graph holds a FinancialStatements node whose seven fields are 0, with a FOR_QUARTER
  relationship to a Quarter node of the given year and quarter and a FOR_YEAR relationship
  to a Year node of the given year.
\<close>

definition zero_statement_linked :: "graph \<Rightarrow> int \<Rightarrow> int \<Rightarrow> bool" where
  "zero_statement_linked g y q =
     list_ex (\<lambda>f.
        node_matches ''FinancialStatements'' (map (\<lambda>k. (k, PNum ''0'')) fs_fields) f
        \<and> list_ex (\<lambda>qn.
             node_matches ''Quarter''
               [(''year'', PNum (show_int y)), (''quarter'', PNum (show_int q))] qn
             \<and> \<lparr>esrc = nid f, etype = ''FOR_QUARTER'', edst = nid qn\<rparr> \<in> set (edges g)) (nodes g)
        \<and> list_ex (\<lambda>yn.
             node_matches ''Year'' [(''year'', PNum (show_int y))] yn
             \<and> \<lparr>esrc = nid f, etype = ''FOR_YEAR'', edst = nid yn\<rparr> \<in> set (edges g)) (nodes g))
       (nodes g)"

section \<open>Parsing dates\<close>

lemma is_digit_cases:
  "is_digit c \<Longrightarrow> c = CHR ''0'' \<or> c = CHR ''1'' \<or> c = CHR ''2'' \<or> c = CHR ''3'' \<or> c = CHR ''4''
      \<or> c = CHR ''5'' \<or> c = CHR ''6'' \<or> c = CHR ''7'' \<or> c = CHR ''8'' \<or> c = CHR ''9''"
  by (auto simp: is_digit_def)

lemma digit_not_space: "is_digit c \<Longrightarrow> \<not> py_isspace c"
  by (drule is_digit_cases) (auto simp: py_isspace_def)

lemma digit_not_sign: "is_digit c \<Longrightarrow> c \<noteq> CHR ''-'' \<and> c \<noteq> CHR ''+''"
  by (auto simp: is_digit_def)

lemma digit_val_less: "is_digit c \<Longrightarrow> digit_val c < 10"
  by (drule is_digit_cases) (auto simp: digit_val_def)

lemma dropWhile_digits: "\<forall>c\<in>set s. is_digit c \<Longrightarrow> dropWhile py_isspace s = s"
  by (cases s) (auto simp: digit_not_space)

lemma py_strip_digits: "\<forall>c\<in>set s. is_digit c \<Longrightarrow> py_strip s = s"
  by (simp add: py_strip_def dropWhile_digits)

lemma int_digits_all:
  "\<forall>c\<in>set s. is_digit c \<Longrightarrow> s \<noteq> [] \<or> prev \<Longrightarrow>
     int_digits prev acc s = Some (foldl (\<lambda>a c. a * 10 + digit_val c) acc s)"
  by (induction s arbitrary: prev acc) auto

lemma py_int_digits:
  assumes "\<forall>c\<in>set s. is_digit c" and "s \<noteq> []"
  shows "py_int s = Some (dec s)"
proof -
  obtain c r where s: "s = c # r" using assms(2) by (cases s) auto
  have c: "c \<noteq> CHR ''-''" "c \<noteq> CHR ''+''" using assms(1) s digit_not_sign by auto
  have i: "int_digits False 0 s = Some (foldl (\<lambda>a c. a * 10 + digit_val c) 0 s)"
    using assms by (intro int_digits_all) auto
  have "py_int s = map_option int (int_digits False 0 s)"
    unfolding py_int_def py_strip_digits[OF assms(1)] using c by (simp add: s del: int_digits.simps)
  then show ?thesis
    by (simp add: i dec_def)
qed

lemma dec2: "dec [a, b] = int (digit_val a * 10 + digit_val b)"
  by (simp add: dec_def)

lemma month_alts_valid:
  assumes "is_digit a" "is_digit b" "1 \<le> dec [a, b]" "dec [a, b] \<le> 12"
  shows "\<exists>X. month_alts (a # b # r) = ([a, b], r) # X"
proof -
  have "(a = CHR ''1'' \<and> b \<in> set ''012'') \<or> (a = CHR ''0'' \<and> b \<in> set ''123456789'')"
    using assms(3,4) is_digit_cases[OF assms(1)] is_digit_cases[OF assms(2)]
    unfolding dec2 by (elim disjE; simp add: digit_val_def)
  then show ?thesis
    by (auto simp: month_alts_def two_chars_def one_char_def)
qed

lemma day_alts_valid:
  assumes "is_digit a" "is_digit b" "1 \<le> dec [a, b]" "dec [a, b] \<le> 31"
  shows "\<exists>X. day_alts (a # b # r) = ([a, b], r) # X"
proof -
  have "(a = CHR ''3'' \<and> b \<in> set ''01'') \<or> (a \<in> set ''12'') \<or> (a = CHR ''0'' \<and> b \<in> set ''123456789'')"
    using assms(3,4) is_digit_cases[OF assms(1)] is_digit_cases[OF assms(2)]
    unfolding dec2 by (elim disjE; simp add: digit_val_def)
  then show ?thesis
    using assms(2) by (auto simp: day_alts_def two_chars_def one_char_def)
qed

lemma days_in_month_le: "days_in_month y m \<le> 31"
  by (simp add: days_in_month_def)

lemma strptime_iso_valid:
  assumes Y: "length Y = 4" and M: "length M = 2" and D: "length D = 2"
    and dig: "\<forall>c\<in>set (Y @ M @ D). is_digit c"
    and v: "valid_date (dec Y) (dec M) (dec D)"
  shows "strptime_iso (Y @ ''-'' @ M @ ''-'' @ D) = Inr (dec Y, dec M, dec D)"
proof -
  obtain y1 y2 y3 y4 where Yc: "Y = [y1, y2, y3, y4]"
    using Y by (auto simp: length_Suc_conv eval_nat_numeral)
  obtain m1 m2 where Mc: "M = [m1, m2]"
    using M by (auto simp: length_Suc_conv eval_nat_numeral)
  obtain d1 d2 where Dc: "D = [d1, d2]"
    using D by (auto simp: length_Suc_conv eval_nat_numeral)
  have dm: "is_digit m1" "is_digit m2" "is_digit d1" "is_digit d2"
    and dy: "is_digit y1" "is_digit y2" "is_digit y3" "is_digit y4"
    using dig Yc Mc Dc by auto
  have rng: "1 \<le> dec [m1, m2]" "dec [m1, m2] \<le> 12" "1 \<le> dec [d1, d2]" "dec [d1, d2] \<le> 31"
    using v days_in_month_le[of "dec Y" "dec M"] Mc Dc by (auto simp: valid_date_def)
  obtain X where mX: "month_alts (m1 # m2 # CHR ''-'' # [d1, d2]) = ([m1, m2], CHR ''-'' # [d1, d2]) # X"
    using month_alts_valid[OF dm(1,2) rng(1,2)] by blast
  obtain Z where dZ: "day_alts [d1, d2] = ([d1, d2], []) # Z"
    using day_alts_valid[OF dm(3,4) rng(3,4)] by blast
  have pi: "py_int Y = Some (dec Y)" "py_int M = Some (dec M)" "py_int D = Some (dec D)"
    using dig Y M D by (auto intro!: py_int_digits)
  have "strptime_iso (Y @ ''-'' @ M @ ''-'' @ D) = make_date Y M D []"
    using dy by (simp add: strptime_iso_def Yc Mc Dc lit_def mX dZ)
  then show ?thesis
    using v pi by (simp add: make_date_def)
qed

text \<open>
  Claim C7. For a string of eight digits, the components are the decimal values of its first
  four, next two and last two digits, and the quarter is \<open>(month - 1) div 3 + 1\<close>; for the
  ISO form of a valid calendar date the components are the same; and for the months 1 to 12
  that quarter is 1 for months 1 to 3, 2 for 4 to 6, 3 for 7 to 9 and 4 for 10 to 12.
\<close>

theorem get_date_components_forms:
  assumes "length Y = 4" and "length M = 2" and "length D = 2"
    and "\<forall>c\<in>set (Y @ M @ D). is_digit c"
  shows "get_date_components (Y @ M @ D) = Some (dec Y, dec M, dec D, (dec M - 1) div 3 + 1)
       \<and> (valid_date (dec Y) (dec M) (dec D) \<longrightarrow>
            get_date_components (Y @ ''-'' @ M @ ''-'' @ D)
              = Some (dec Y, dec M, dec D, (dec M - 1) div 3 + 1))
       \<and> (1 \<le> dec M \<and> dec M \<le> 12 \<longrightarrow>
            (dec M - 1) div 3 + 1
              = (if dec M \<le> 3 then 1 else if dec M \<le> 6 then 2 else if dec M \<le> 9 then 3 else 4))"
proof (intro conjI impI)
  have pi: "py_int Y = Some (dec Y)" "py_int M = Some (dec M)" "py_int D = Some (dec D)"
    using assms by (auto intro!: py_int_digits)
  show "get_date_components (Y @ M @ D) = Some (dec Y, dec M, dec D, (dec M - 1) div 3 + 1)"
    using assms(1-3) pi by (simp add: get_date_components_def)
  show "get_date_components (Y @ ''-'' @ M @ ''-'' @ D)
      = Some (dec Y, dec M, dec D, (dec M - 1) div 3 + 1)"
    if "valid_date (dec Y) (dec M) (dec D)"
    using strptime_iso_valid[OF assms that] assms(1-3) by (simp add: get_date_components_def)
  show "(dec M - 1) div 3 + 1
      = (if dec M \<le> 3 then 1 else if dec M \<le> 6 then 2 else if dec M \<le> 9 then 3 else 4)"
    if "1 \<le> dec M \<and> dec M \<le> 12"
    using that by auto
qed

theorem get_date_components_forms_witness:
  "get_date_components ''20240815'' = Some (2024, 8, 15, 3)
   \<and> get_date_components ''2024-08-15'' = Some (2024, 8, 15, 3)"
proof -
  have d: "dec ''2024'' = 2024" "dec ''08'' = 8" "dec ''15'' = 15"
    by (simp_all add: dec_def digit_val_def)
  have v: "valid_date 2024 8 15"
    by (simp add: valid_date_def days_in_month_def)
  have "\<forall>c\<in>set (''2024'' @ ''08'' @ ''15''). is_digit c"
    by (simp add: is_digit_def)
  from get_date_components_forms[of "''2024''" "''08''" "''15''", OF _ _ _ this]
  show ?thesis using v by (simp add: d)
qed

section \<open>The date range at the end of the calendar\<close>

text \<open>
  Claim C10. A range that ends on 31 December 9999 is accepted by the parser, and the loop raises
  \<open>OverflowError\<close> when it steps past that day instead of returning the list of days.
\<close>

theorem get_date_list_overflow:
  "get_date_list ''99991231'' ''99991231'' = Inl OverflowError"
  by code_simp

lemma get_date_list_example:
  "get_date_list ''20240227'' ''20240302''
     = Inr [''20240227'', ''20240228'', ''20240229'', ''20240301'', ''20240302'']"
  by code_simp

lemma get_date_list_reversed: "get_date_list ''20240302'' ''20240227'' = Inr []"
  by code_simp

lemma get_date_list_first_year: "get_date_list ''00010101'' ''00010102'' = Inr [''10101'', ''10102'']"
  by code_simp

section \<open>The marker and the log of the per-date cycle\<close>

lemma date_steps_price_raises:
  "get_price_info date = Inl e \<Longrightarrow> date_steps get_price_info get_fs write date company_df g = (Inl e, g)"
  by (simp add: date_steps_def)

text \<open>
  Claim C2. Whenever the cycle of a date is aborted by an exception, the \<open>finally\<close> block finds both
  counters at 0, so it clears the marker and appends the date to the processed-dates log:
  the marker does not hold the date and the date is in the log.
\<close>

theorem process_single_date_abort:
  assumes "fst (process_single_date get_price_info get_fs write date company_df st) = Inl e"
  shows "current_date (snd (process_single_date get_price_info get_fs write date company_df st)) = None
       \<and> processed_dates (snd (process_single_date get_price_info get_fs write date company_df st))
           = processed_dates st @ [date]"
  using assms
  by (simp add: process_single_date_def Let_def split: prod.splits sum.splits)

theorem process_single_date_abort_witness:
  "fst (process_single_date (\<lambda>d. Inl ValueError) (\<lambda>d. Inr None) create_schema ''20240101''
          example_universe \<lparr>current_date = None, processed_dates = [], run_graph = example_graph\<rparr>)
     = Inl ValueError
   \<and> current_date (snd (process_single_date (\<lambda>d. Inl ValueError) (\<lambda>d. Inr None) create_schema
          ''20240101'' example_universe
          \<lparr>current_date = None, processed_dates = [], run_graph = example_graph\<rparr>)) = None
   \<and> processed_dates (snd (process_single_date (\<lambda>d. Inl ValueError) (\<lambda>d. Inr None) create_schema
          ''20240101'' example_universe
          \<lparr>current_date = None, processed_dates = [], run_graph = example_graph\<rparr>)) = [''20240101'']"
proof -
  have h: "fst (process_single_date (\<lambda>d. Inl ValueError) (\<lambda>d. Inr None) create_schema ''20240101''
          example_universe \<lparr>current_date = None, processed_dates = [], run_graph = example_graph\<rparr>)
     = Inl ValueError"
    by (simp add: process_single_date_def date_steps_def)
  show ?thesis
    using h process_single_date_abort[OF h] by simp
qed

section \<open>Clearing and resetting the database\<close>

lemma fold_detach_nodes:
  "nodes (fold detach_delete xs g) = filter (\<lambda>n. nid n \<notin> set xs) (nodes g)"
  by (induction xs arbitrary: g) (auto simp: detach_delete_def intro: filter_cong)

lemma fold_detach_edges:
  "edges (fold detach_delete xs g)
     = filter (\<lambda>e. esrc e \<notin> set xs \<and> edst e \<notin> set xs) (edges g)"
  by (induction xs arbitrary: g) (auto simp: detach_delete_def intro: filter_cong)

lemma clear_all_data_graph:
  assumes "\<not> dangling (db_graph db)"
  shows "nodes (db_graph (clear_all_data db)) = []" and "edges (db_graph (clear_all_data db)) = []"
proof -
  show "nodes (db_graph (clear_all_data db)) = []"
    by (simp add: clear_all_data_def fold_detach_nodes node_ids_def filter_empty_conv)
  have "\<forall>e\<in>set (edges (db_graph db)). esrc e \<in> set (node_ids (db_graph db))"
    using assms by (auto simp: dangling_def list_ex_iff)
  then show "edges (db_graph (clear_all_data db)) = []"
    by (simp add: clear_all_data_def fold_detach_edges filter_empty_conv)
qed

lemma clear_constraints_loop_result:
  "db_constraints (clear_constraints_loop cs db)
     = filter (\<lambda>c. \<not> (name_truthy c \<and> c \<in> set cs)) (db_constraints db)
   \<and> db_indexes (clear_constraints_loop cs db) = db_indexes db
   \<and> db_graph (clear_constraints_loop cs db) = db_graph db"
proof (induction cs arbitrary: db)
  case Nil
  show ?case by simp
next
  case (Cons c cs)
  show ?case
  proof (cases "name_truthy c")
    case False
    then have "clear_constraints_loop (c # cs) db = clear_constraints_loop cs db"
      by (auto simp: name_truthy_def split: option.splits)
    then show ?thesis
      using False Cons.IH[of db] by (auto intro!: filter_cong)
  next
    case True
    then obtain n where n: "c = Some n" "n \<noteq> []"
      by (auto simp: name_truthy_def split: option.splits)
    then have "clear_constraints_loop (c # cs) db = clear_constraints_loop cs (drop_constraint n db)"
      by simp
    then show ?thesis
      using True n Cons.IH[of "drop_constraint n db"]
      by (auto simp: drop_constraint_def intro!: filter_cong)
  qed
qed

lemma clear_indexes_loop_result:
  "db_indexes (clear_indexes_loop is db)
     = filter (\<lambda>i. \<not> (droppable_index i \<and> i \<in> set is)) (db_indexes db)
   \<and> db_constraints (clear_indexes_loop is db) = db_constraints db
   \<and> db_graph (clear_indexes_loop is db) = db_graph db"
proof (induction "is" arbitrary: db)
  case Nil
  show ?case by simp
next
  case (Cons i "is")
  show ?case
  proof (cases "droppable_index i")
    case False
    then have "clear_indexes_loop (i # is) db = clear_indexes_loop is db"
      by (auto simp: droppable_index_def split: option.splits)
    then show ?thesis
      using False Cons.IH[of db] by (auto intro!: filter_cong)
  next
    case True
    then obtain n where n: "i = Some n" "n \<noteq> []" "\<not> prefix ''system'' n"
      by (auto simp: droppable_index_def split: option.splits)
    then have "clear_indexes_loop (i # is) db = clear_indexes_loop is (drop_index n db)"
      by simp
    then show ?thesis
      using True n Cons.IH[of "drop_index n db"]
      by (auto simp: drop_index_def intro!: filter_cong)
  qed
qed

text \<open>
  Claim C8. On a stored graph (no relationship without its ends), \<open>clear_all_data\<close> leaves no node
  and no relationship and keeps the constraints and the indexes; \<open>reset_database\<close> leaves no
  node and no relationship, keeps of the constraints only the unnamed ones, and keeps of the
  indexes only the unnamed ones and those whose name starts with \<open>system\<close>.
\<close>

theorem clear_and_reset:
  assumes "\<not> dangling (db_graph db)"
  shows "db_graph (clear_all_data db) = empty_graph
       \<and> db_constraints (clear_all_data db) = db_constraints db
       \<and> db_indexes (clear_all_data db) = db_indexes db
       \<and> db_graph (reset_database db) = empty_graph
       \<and> db_constraints (reset_database db) = filter (\<lambda>c. \<not> name_truthy c) (db_constraints db)
       \<and> db_indexes (reset_database db)
           = filter (\<lambda>i. \<not> name_truthy i \<or> (\<exists>s. i = Some s \<and> prefix ''system'' s)) (db_indexes db)"
proof -
  have g: "db_graph (clear_all_data db) = empty_graph"
    using clear_all_data_graph[OF assms] by (simp add: empty_graph_def)
  have c: "db_constraints (clear_all_data db) = db_constraints db"
    and i: "db_indexes (clear_all_data db) = db_indexes db"
    by (simp_all add: clear_all_data_def)
  let ?d1 = "clear_all_data db"
  let ?d2 = "clear_constraints ?d1"
  have d2: "db_constraints ?d2 = filter (\<lambda>c. \<not> name_truthy c) (db_constraints db)"
    "db_indexes ?d2 = db_indexes db" "db_graph ?d2 = empty_graph"
    using clear_constraints_loop_result[of "db_constraints ?d1" ?d1] g c i
    by (auto simp: clear_constraints_def intro!: filter_cong)
  have same: "(\<lambda>i. \<not> (droppable_index i \<and> i \<in> set (db_indexes db)))
                = (\<lambda>i. (\<not> name_truthy i \<or> (\<exists>s. i = Some s \<and> prefix ''system'' s)) \<or> i \<notin> set (db_indexes db))"
    by (auto simp: droppable_index_def name_truthy_def fun_eq_iff split: option.splits)
  have d3: "db_indexes (reset_database db)
           = filter (\<lambda>i. \<not> name_truthy i \<or> (\<exists>s. i = Some s \<and> prefix ''system'' s)) (db_indexes db)"
    "db_constraints (reset_database db) = filter (\<lambda>c. \<not> name_truthy c) (db_constraints db)"
    "db_graph (reset_database db) = empty_graph"
    using clear_indexes_loop_result[of "db_indexes ?d2" ?d2] d2
    by (auto simp: reset_database_def clear_indexes_def droppable_index_def name_truthy_def
             split: option.splits intro!: filter_cong)
  show ?thesis using g c i d3 by simp
qed

theorem clear_and_reset_witness:
  "\<not> dangling (db_graph example_db)
   \<and> db_graph (clear_all_data example_db) = empty_graph
   \<and> db_constraints (clear_all_data example_db) = [Some ''constraint_1'', Some ''constraint_2'']
   \<and> db_graph (reset_database example_db) = empty_graph
   \<and> db_constraints (reset_database example_db) = []
   \<and> db_indexes (reset_database example_db) = [Some ''system_1'']"
proof -
  have h: "\<not> dangling (db_graph example_db)"
    by (simp add: example_db_def dangling_def node_ids_def)
  have c: "db_constraints example_db = [Some ''constraint_1'', Some ''constraint_2'']"
    and i: "db_indexes example_db = [Some ''constraint_1'', Some ''index_1'', Some ''system_1'']"
    by (simp_all add: example_db_def)
  show ?thesis
    using h clear_and_reset[OF h] by (simp add: c i name_truthy_def)
qed

section \<open>Missing keys in the query synthesizer\<close>

lemma first_missing_Some:
  "k \<in> set ks \<Longrightarrow> map_of d k = None \<Longrightarrow> \<exists>k'. first_missing d ks = Some k'"
  by (auto simp: first_missing_def filter_empty_conv split: list.splits)

lemma first_missing_hd:
  "map_of d k = None \<Longrightarrow> first_missing d (k # ks) = Some k"
  by (simp add: first_missing_def)

lemma first_missing_is_missing:
  assumes "first_missing d ks = Some k"
  shows "k \<in> set ks \<and> map_of d k = None"
proof -
  obtain r where "filter (\<lambda>k. map_of d k = None) ks = k # r"
    using assms by (auto simp: first_missing_def split: list.splits)
  then have "k \<in> set (filter (\<lambda>k. map_of d k = None) ks)" by simp
  then show ?thesis by simp
qed

lemma joined_list_cases:
  "joined_list v = Inl TypeError \<or> (\<exists>c. joined_list v = Inr c)"
  by (auto simp: joined_list_def split: cell.splits option.splits)

lemma company_query_raises:
  assumes "first_missing company_dict company_keys = Some k"
  shows "create_cypher_query_company company_dict
           = (if join_raises company_dict then Inl TypeError else Inl (KeyError k))"
proof -
  let ?nm = "joined_list (get_default company_dict ''compete_stock_nm_li'' (CStr ''''))"
  let ?cd = "joined_list (get_default company_dict ''compete_stock_code_li'' (CStr ''''))"
  consider "?nm = Inl TypeError" | c where "?nm = Inr c" "?cd = Inl TypeError"
    | c c' where "?nm = Inr c" "?cd = Inr c'"
    using joined_list_cases[of "get_default company_dict ''compete_stock_nm_li'' (CStr '''')"]
      joined_list_cases[of "get_default company_dict ''compete_stock_code_li'' (CStr '''')"]
    by blast
  then show ?thesis
  proof cases
    case 1
    then show ?thesis by (simp add: create_cypher_query_company_def join_raises_def)
  next
    case 2
    then show ?thesis by (simp add: create_cypher_query_company_def join_raises_def)
  next
    case 3
    then show ?thesis using assms by (simp add: create_cypher_query_company_def join_raises_def)
  qed
qed

text \<open>
  Claim C5. A company record that lacks one of the keys that \<open>_create_cypher_query_company\<close>
  indexes makes it raise and return no query: \<open>TypeError\<close> when a competitor list holds an
  element that is not a string, and otherwise \<open>KeyError\<close> for a key that the record lacks
  (for the stock code when that is absent). A missing stock code or price key makes
  \<open>_create_cypher_query_daily_data\<close> raise \<open>KeyError\<close> when the date parses; when the date
  does not parse that function returns the empty query text and raises nothing, whatever
  keys are missing.
\<close>

theorem synthesizer_missing_key:
  "((\<exists>k\<in>set company_keys. map_of company_dict k = None) \<longrightarrow>
      (\<exists>k\<in>set company_keys. map_of company_dict k = None \<and>
         create_cypher_query_company company_dict
           = (if join_raises company_dict then Inl TypeError else Inl (KeyError k))))
   \<and> (map_of company_dict ''stock_code'' = None \<longrightarrow>
         create_cypher_query_company company_dict
           = (if join_raises company_dict then Inl TypeError else Inl (KeyError ''stock_code'')))
   \<and> (get_date_components date \<noteq> None \<and>
        (map_of company_dict ''stock_code'' = None \<or>
         (\<exists>k\<in>set [''stck_hgpr'', ''stck_lwpr'', ''stck_oprc'', ''stck_clpr'']. map_of stock_price_dict k = None)) \<longrightarrow>
      (\<exists>k. create_cypher_query_daily_data date company_dict stock_price_dict fs_dict = Inl (KeyError k)))
   \<and> (get_date_components date = None \<longrightarrow>
      create_cypher_query_daily_data date company_dict stock_price_dict fs_dict = Inr [])"
proof (intro conjI impI)
  assume "\<exists>k\<in>set company_keys. map_of company_dict k = None"
  then obtain k where "first_missing company_dict company_keys = Some k"
    using first_missing_Some by blast
  then show "\<exists>k\<in>set company_keys. map_of company_dict k = None \<and>
         create_cypher_query_company company_dict
           = (if join_raises company_dict then Inl TypeError else Inl (KeyError k))"
    using first_missing_is_missing company_query_raises by blast
next
  assume "map_of company_dict ''stock_code'' = None"
  then have "first_missing company_dict company_keys = Some ''stock_code''"
    by (simp add: company_keys_def first_missing_hd)
  then show "create_cypher_query_company company_dict
           = (if join_raises company_dict then Inl TypeError else Inl (KeyError ''stock_code''))"
    by (rule company_query_raises)
next
  assume a: "get_date_components date \<noteq> None \<and>
        (map_of company_dict ''stock_code'' = None \<or>
         (\<exists>k\<in>set [''stck_hgpr'', ''stck_lwpr'', ''stck_oprc'', ''stck_clpr'']. map_of stock_price_dict k = None))"
  then obtain y m d q where dc: "get_date_components date = Some (y, m, d, q)"
    by auto
  show "\<exists>k. create_cypher_query_daily_data date company_dict stock_price_dict fs_dict = Inl (KeyError k)"
  proof (cases "first_missing stock_price_dict [''stck_hgpr'', ''stck_lwpr'', ''stck_oprc'', ''stck_clpr'']")
    case (Some k)
    then show ?thesis by (simp add: create_cypher_query_daily_data_def dc)
  next
    case None
    then have "\<not> (\<exists>k\<in>set [''stck_hgpr'', ''stck_lwpr'', ''stck_oprc'', ''stck_clpr'']. map_of stock_price_dict k = None)"
      using first_missing_Some[of _ "[''stck_hgpr'', ''stck_lwpr'', ''stck_oprc'', ''stck_clpr'']" stock_price_dict]
      by fastforce
    then have "map_of company_dict ''stock_code'' = None" using a by blast
    then have "first_missing company_dict [''stock_code''] = Some ''stock_code''"
      by (rule first_missing_hd)
    then show ?thesis using None by (simp add: create_cypher_query_daily_data_def dc)
  qed
next
  assume "get_date_components date = None"
  then show "create_cypher_query_daily_data date company_dict stock_price_dict fs_dict = Inr []"
    by (simp add: create_cypher_query_daily_data_def)
qed

lemma gdc_bad: "get_date_components ''2024'' = None"
  by code_simp

theorem synthesizer_missing_key_counterexample:
  "map_of ([] :: row) ''stock_code'' = None
   \<and> create_cypher_query_daily_data ''2024'' [] [] None = Inr []"
  by (simp add: create_cypher_query_daily_data_def gdc_bad)

lemma gdc_ex: "get_date_components ''20240515'' = Some (2024, 5, 15, 2)"
  by code_simp

lemma join_raises_examples:
  "\<not> join_raises [(''stock_nm'', CStr ''Nm'')]"
  "\<not> join_raises [(''stock_code'', CStr ''000001'')]"
  "join_raises [(''compete_stock_code_li'', CList [EStr ''000002'', ENone])]"
  by (simp_all add: join_raises_def joined_list_def get_default_def elem_string_def)

theorem synthesizer_missing_key_witness:
  "create_cypher_query_company [(''stock_nm'', CStr ''Nm'')] = Inl (KeyError ''stock_code'')
   \<and> create_cypher_query_company [(''stock_code'', CStr ''000001'')] = Inl (KeyError ''stock_nm'')
   \<and> create_cypher_query_company [(''compete_stock_code_li'', CList [EStr ''000002'', ENone])]
         = Inl TypeError
   \<and> (\<exists>k. create_cypher_query_daily_data ''20240515'' [] (example_price ''000001'' ''20240515'') None
          = Inl (KeyError k))
   \<and> create_cypher_query_daily_data ''2024'' [(''stock_nm'', CStr ''Nm'')] [] None = Inr []"
proof -
  have a: "map_of [(''stock_nm'', CStr ''Nm'')] ''stock_code'' = None" by simp
  have b: "get_date_components ''20240515'' \<noteq> None" by (simp add: gdc_ex)
  have c: "get_date_components ''2024'' = None"
    by (rule gdc_bad)
  have d: "map_of ([] :: row) ''stock_code'' = None" by simp
  have e: "map_of [(''compete_stock_code_li'', CList [EStr ''000002'', ENone])] ''stock_code'' = None"
    by simp
  have f: "first_missing [(''stock_code'', CStr ''000001'')] company_keys = Some ''stock_nm''"
    by (simp add: first_missing_def company_keys_def)
  have g: "create_cypher_query_company [(''stock_code'', CStr ''000001'')] = Inl (KeyError ''stock_nm'')"
    using company_query_raises[OF f] join_raises_examples(2) by simp
  show ?thesis
    using synthesizer_missing_key[of "[(''stock_nm'', CStr ''Nm'')]" "''2024''" "[]" None]
      synthesizer_missing_key[of "[]" "''20240515''" "example_price ''000001'' ''20240515''" None]
      synthesizer_missing_key[of "[(''compete_stock_code_li'', CList [EStr ''000002'', ENone])]"
        "''2024''" "[]" None]
      a b c d e g join_raises_examples
    by simp
qed

section \<open>The counters of the daily write\<close>

lemma rows_with_Inr:
  "has_column df k \<Longrightarrow> scalar v \<Longrightarrow> \<exists>rs. rows_with df k v = Inr rs"
  by (cases v) (simp_all add: rows_with_def scalar_def)

lemma fs_dict_of_Inr:
  assumes "case fs_df of None \<Rightarrow> True | Some f \<Rightarrow> has_column f ''stock_code''"
    and "scalar stock_code"
  shows "\<exists>r. fs_dict_of fs_df stock_code = Inr r"
proof (cases fs_df)
  case None
  then show ?thesis by (simp add: fs_dict_of_def)
next
  case (Some f)
  then obtain rs where "rows_with f ''stock_code'' stock_code = Inr rs"
    using assms rows_with_Inr[of f "''stock_code''" stock_code] by auto
  then show ?thesis
    using Some by (cases rs) (simp_all add: fs_dict_of_def)
qed

lemma add_daily_loop_counts:
  assumes "\<forall>c\<in>set cs. (\<exists>sc. map_of c ''stock_code'' = Some sc \<and> scalar sc)
                    \<and> map_of c ''stock_abbrv'' \<noteq> None"
    and "has_column price_df ''stock_code''"
    and "case fs_df of None \<Rightarrow> True | Some f \<Rightarrow> has_column f ''stock_code''"
    and "\<forall>g q e. wr g q = Inl e \<longrightarrow> is_exception e"
  shows "fst (add_daily_loop wr price_df fs_df date cs s e g)
       = Inr (s + length (filter (\<lambda>oc. oc = Written) (outcomes wr price_df fs_df date cs g)),
              e + length (filter (\<lambda>oc. oc \<noteq> Written) (outcomes wr price_df fs_df date cs g)))"
  using assms(1)
proof (induction cs arbitrary: s e g)
  case Nil
  show ?case by simp
next
  case (Cons c cs)
  obtain sc ab where sc: "map_of c ''stock_code'' = Some sc" and sca: "scalar sc"
    and ab: "map_of c ''stock_abbrv'' = Some ab"
    using Cons.prems by auto
  have IH: "\<And>s e g. fst (add_daily_loop wr price_df fs_df date cs s e g)
       = Inr (s + length (filter (\<lambda>oc. oc = Written) (outcomes wr price_df fs_df date cs g)),
              e + length (filter (\<lambda>oc. oc \<noteq> Written) (outcomes wr price_df fs_df date cs g)))"
    using Cons.IH Cons.prems by simp
  obtain rs where rs: "rows_with price_df ''stock_code'' sc = Inr rs"
    using rows_with_Inr[OF assms(2) sca] by blast
  obtain fs where fs: "fs_dict_of fs_df sc = Inr fs"
    using fs_dict_of_Inr[OF assms(3) sca] by blast
  show ?case
  proof (cases rs)
    case Nil
    then show ?thesis
      using sc ab IH rs by (simp add: getitem_def company_outcome_def cell_of_def get_default_def)
  next
    case (Cons price ps)
    show ?thesis
    proof (cases "daily_write wr date c price fs g")
      case (Inl err)
      have "is_exception err"
      proof (cases "create_cypher_query_daily_data date c price fs")
        case (Inl k)
        then have "err = k" using \<open>daily_write wr date c price fs g = Inl err\<close>
          by (simp add: daily_write_def)
        moreover have "\<exists>x. k = KeyError x"
          using Inl
          by (auto simp: create_cypher_query_daily_data_def split: option.splits prod.splits)
        ultimately show ?thesis by (auto simp: is_exception_def)
      next
        case (Inr q)
        then have "wr g q = Inl err" using \<open>daily_write wr date c price fs g = Inl err\<close>
          by (simp add: daily_write_def)
        then show ?thesis using assms(4) by blast
      qed
      then show ?thesis
        using Inl sc ab IH Cons rs fs
        by (simp add: getitem_def company_outcome_def cell_of_def get_default_def)
    next
      case (Inr g')
      then show ?thesis
        using sc ab IH Cons rs fs
        by (simp add: getitem_def company_outcome_def cell_of_def get_default_def)
    qed
  qed
qed

lemma length_outcomes: "length (outcomes wr price_df fs_df date cs g) = length cs"
  by (induction cs arbitrary: g) (auto split: prod.splits)

lemma exec_row_raises: "exec_row c r g = Inl e \<Longrightarrow> is_exception e"
  by (cases c)
    (auto simp: is_exception_def Let_def split: list.splits option.splits if_splits prod.splits)

lemma exec_rows_raises: "exec_rows c rs g = Inl e \<Longrightarrow> is_exception e"
proof (induction rs arbitrary: g)
  case Nil
  then show ?case by simp
next
  case (Cons r rs)
  then show ?case
    using exec_row_raises by (auto split: sum.splits prod.splits)
qed

lemma exec_query_raises: "exec_query q rs g = Inl e \<Longrightarrow> is_exception e"
proof (induction q arbitrary: rs g)
  case Nil
  then show ?case by simp
next
  case (Cons c q)
  then show ?case
    using exec_rows_raises by (auto split: sum.splits prod.splits)
qed

lemma create_schema_raises: "create_schema g q = Inl e \<Longrightarrow> is_exception e"
  using exec_query_raises
  by (auto simp: create_schema_def run_query_def is_exception_def
           split: if_splits sum.splits prod.splits)

text \<open>
  Claim C6. When every row of the company frame has a stock code that is not a list and an
  abbreviation, the frame of the prices and the frame of the statements, if there is one,
  have the column of the stock code, and the write raises exceptions only (no interrupt),
  the loop visits every company and returns: a company without a price row or with a
  failed write counts as an error, a written company as a success, and the pair returned
  is the number of written companies and the number of the others.
\<close>

theorem add_daily_data_counts:
  assumes "\<forall>c\<in>set (frame_rows company_df).
             (\<exists>sc. map_of c ''stock_code'' = Some sc \<and> scalar sc)
             \<and> map_of c ''stock_abbrv'' \<noteq> None"
    and "has_column price_df ''stock_code''"
    and "case fs_df of None \<Rightarrow> True | Some f \<Rightarrow> has_column f ''stock_code''"
    and "\<forall>g q e. wr g q = Inl e \<longrightarrow> is_exception e"
  shows "fst (add_daily_data_to_graph wr g company_df price_df fs_df date)
           = Inr (length (filter (\<lambda>oc. oc = Written)
                            (outcomes wr price_df fs_df date (frame_rows company_df) g)),
                  length (filter (\<lambda>oc. oc \<noteq> Written)
                            (outcomes wr price_df fs_df date (frame_rows company_df) g)))
       \<and> length (outcomes wr price_df fs_df date (frame_rows company_df) g)
           = length (frame_rows company_df)"
proof -
  have "fst (add_daily_loop wr price_df fs_df date (frame_rows company_df) 0 0 g)
       = Inr (0 + length (filter (\<lambda>oc. oc = Written)
                            (outcomes wr price_df fs_df date (frame_rows company_df) g)),
              0 + length (filter (\<lambda>oc. oc \<noteq> Written)
                            (outcomes wr price_df fs_df date (frame_rows company_df) g)))"
    using assms by (rule add_daily_loop_counts)
  then show ?thesis
    by (simp add: add_daily_data_to_graph_def length_outcomes)
qed

lemma example_price_query:
  "\<exists>q. create_cypher_query_daily_data ''20240515''
         (example_company ''000001'' (CList [EStr ''000002'', EStr ''000001'']))
         (example_price ''000001'' ''20240515'') None = Inr q"
  by (simp add: create_cypher_query_daily_data_def gdc_ex first_missing_def example_price_def
        example_company_def)

theorem add_daily_data_counts_counterexample:
  "fst (add_daily_data_to_graph create_schema empty_graph example_universe
          \<lparr>columns = [''date''], frame_rows = [[(''date'', CStr ''20240515'')]]\<rparr>
          None ''20240515'') = Inl (KeyError ''stock_code'')
   \<and> fst (add_daily_data_to_graph (\<lambda>g q. Inl KeyboardInterrupt) empty_graph example_universe
            (example_prices ''20240515'') None ''20240515'') = Inl KeyboardInterrupt"
proof -
  have a: "fst (add_daily_data_to_graph create_schema empty_graph example_universe
          \<lparr>columns = [''date''], frame_rows = [[(''date'', CStr ''20240515'')]]\<rparr>
          None ''20240515'') = Inl (KeyError ''stock_code'')"
    by (simp add: add_daily_data_to_graph_def example_universe_def example_company_def
          getitem_def rows_with_def has_column_def)
  obtain q where q: "create_cypher_query_daily_data ''20240515''
         (example_company ''000001'' (CList [EStr ''000002'', EStr ''000001'']))
         (example_price ''000001'' ''20240515'') None = Inr q"
    using example_price_query by blast
  have r: "rows_with (example_prices ''20240515'') ''stock_code'' (CStr ''000001'')
             = Inr [example_price ''000001'' ''20240515'']"
    by (simp add: rows_with_def has_column_def example_prices_def example_price_def cell_is_def
          series_eq_def)
  have s: "getitem (example_company ''000001'' (CList [EStr ''000002'', EStr ''000001''])) ''stock_code''
             = Inr (CStr ''000001'')"
    by (simp add: getitem_def example_company_def)
  have b: "fst (add_daily_data_to_graph (\<lambda>g q. Inl KeyboardInterrupt) empty_graph example_universe
            (example_prices ''20240515'') None ''20240515'') = Inl KeyboardInterrupt"
    using q r s
    by (simp add: add_daily_data_to_graph_def example_universe_def fs_dict_of_def daily_write_def
          is_exception_def)
  show ?thesis using a b by simp
qed
section \<open>Running the competitor query\<close>

lemma exec_rows_MatchNode:
  "exec_rows (MatchNode v l ps) rows g
     = Inr (concat (map (\<lambda>r. map (\<lambda>n. (v, Some (nid n)) # r)
                                   (filter (node_matches l (props_val ps)) (nodes g))) rows), g)"
  by (induction rows) auto

lemma exec_rows_MergeRel:
  assumes "\<forall>r\<in>set rows. bound r a \<noteq> None \<and> bound r b \<noteq> None"
  shows "\<exists>g' new. exec_rows (MergeRel a t b) rows g = Inr (rows, g')
           \<and> nodes g' = nodes g \<and> edges g' = edges g @ new \<and> distinct new
           \<and> set new \<inter> set (edges g) = {}
           \<and> (\<forall>e\<in>set new. etype e = t \<and>
                  (\<exists>r\<in>set rows. bound r a = Some (esrc e) \<and> bound r b = Some (edst e)))
           \<and> (\<forall>r\<in>set rows. \<forall>x y. bound r a = Some x \<longrightarrow> bound r b = Some y \<longrightarrow>
                  \<lparr>esrc = x, etype = t, edst = y\<rparr> \<in> set (edges g'))"
  using assms
proof (induction rows arbitrary: g)
  case Nil
  show ?case by simp
next
  case (Cons r rows)
  obtain x y where xy: "bound r a = Some x" "bound r b = Some y"
    using Cons.prems by auto
  let ?e = "\<lparr>esrc = x, etype = t, edst = y\<rparr>"
  let ?g1 = "if ?e \<in> set (edges g) then g else g\<lparr>edges := edges g @ [?e]\<rparr>"
  have r: "exec_row (MergeRel a t b) r g = Inr ([r], ?g1)"
    using xy by (simp add: Let_def)
  obtain g' new where IH: "exec_rows (MergeRel a t b) rows ?g1 = Inr (rows, g')"
    "nodes g' = nodes ?g1" "edges g' = edges ?g1 @ new" "distinct new"
    "set new \<inter> set (edges ?g1) = {}"
    "\<forall>e\<in>set new. etype e = t \<and>
        (\<exists>r\<in>set rows. bound r a = Some (esrc e) \<and> bound r b = Some (edst e))"
    "\<forall>r\<in>set rows. \<forall>x y. bound r a = Some x \<longrightarrow> bound r b = Some y \<longrightarrow>
        \<lparr>esrc = x, etype = t, edst = y\<rparr> \<in> set (edges g')"
    using Cons.IH[of ?g1] Cons.prems by auto
  have ex: "exec_rows (MergeRel a t b) (r # rows) g = Inr (r # rows, g')"
    using r IH(1) by (simp del: exec_row.simps)
  show ?case
  proof (cases "?e \<in> set (edges g)")
    case True
    have "exec_rows (MergeRel a t b) (r # rows) g = Inr (r # rows, g')
           \<and> nodes g' = nodes g \<and> edges g' = edges g @ new \<and> distinct new
           \<and> set new \<inter> set (edges g) = {}
           \<and> (\<forall>e\<in>set new. etype e = t \<and>
                  (\<exists>r\<in>set (r # rows). bound r a = Some (esrc e) \<and> bound r b = Some (edst e)))
           \<and> (\<forall>r\<in>set (r # rows). \<forall>x y. bound r a = Some x \<longrightarrow> bound r b = Some y \<longrightarrow>
                  \<lparr>esrc = x, etype = t, edst = y\<rparr> \<in> set (edges g'))"
      using ex IH True xy by auto
    then show ?thesis by blast
  next
    case False
    have "exec_rows (MergeRel a t b) (r # rows) g = Inr (r # rows, g')
           \<and> nodes g' = nodes g \<and> edges g' = edges g @ (?e # new) \<and> distinct (?e # new)
           \<and> set (?e # new) \<inter> set (edges g) = {}
           \<and> (\<forall>e\<in>set (?e # new). etype e = t \<and>
                  (\<exists>r\<in>set (r # rows). bound r a = Some (esrc e) \<and> bound r b = Some (edst e)))
           \<and> (\<forall>r\<in>set (r # rows). \<forall>x y. bound r a = Some x \<longrightarrow> bound r b = Some y \<longrightarrow>
                  \<lparr>esrc = x, etype = t, edst = y\<rparr> \<in> set (edges g'))"
      using ex IH False xy by auto
    then show ?thesis by blast
  qed
qed

lemma dangling_append:
  assumes "\<not> dangling g" "nodes g' = nodes g" "edges g' = edges g @ new"
    "\<forall>e\<in>set new. esrc e \<in> set (node_ids g) \<and> edst e \<in> set (node_ids g)"
  shows "\<not> dangling g'"
  using assms by (auto simp: dangling_def list_ex_iff node_ids_def)

lemma company_ids_subset: "set (company_ids g a) \<subseteq> set (node_ids g)"
  by (auto simp: company_ids_def node_ids_def)

lemma competitor_rows:
  "exec_query [MatchNode ''Company'' ''Company'' [(''stock_code'', Quoted a)],
               MatchNode ''Competitor'' ''Company'' [(''stock_code'', Quoted b)]] [[]] g
     = Inr (concat (map (\<lambda>x. map (\<lambda>y. [(''Competitor'', Some y), (''Company'', Some x)])
                                  (company_ids g b)) (company_ids g a)), g)"
  by (simp add: exec_rows_MatchNode company_ids_def props_val_def map_concat comp_def
           del: exec_rows.simps)

lemma exec_query_append:
  "exec_query (q1 @ q2) rows g
     = (case exec_query q1 rows g of Inl e \<Rightarrow> Inl e | Inr (rows', g') \<Rightarrow> exec_query q2 rows' g')"
  by (induction q1 arbitrary: rows g) (auto split: sum.splits)

text \<open>What a run of the competitor query does, when it succeeds and that it succeeds.\<close>

lemma competitor_query_exec:
  "\<exists>rows g' new. exec_query (competitor_query a b) [[]] g = Inr (rows, g')
     \<and> nodes g' = nodes g \<and> edges g' = edges g @ new \<and> distinct new
     \<and> set new \<inter> set (edges g) = {}
     \<and> (\<forall>e\<in>set new. etype e = ''COMPETES_WITH'' \<and> esrc e \<in> set (company_ids g a)
                       \<and> edst e \<in> set (company_ids g b))
     \<and> (\<forall>x\<in>set (company_ids g a). \<forall>y\<in>set (company_ids g b).
           \<lparr>esrc = x, etype = ''COMPETES_WITH'', edst = y\<rparr> \<in> set (edges g'))"
proof -
  let ?rows = "concat (map (\<lambda>x. map (\<lambda>y. [(''Competitor'', Some y), (''Company'', Some x)])
                                  (company_ids g b)) (company_ids g a))"
  have split: "competitor_query a b
      = [MatchNode ''Company'' ''Company'' [(''stock_code'', Quoted a)],
         MatchNode ''Competitor'' ''Company'' [(''stock_code'', Quoted b)]]
        @ [MergeRel ''Company'' ''COMPETES_WITH'' ''Competitor'']"
    by (simp add: competitor_query_def)
  have rows: "\<forall>r\<in>set ?rows. \<exists>x\<in>set (company_ids g a). \<exists>y\<in>set (company_ids g b).
                 bound r ''Company'' = Some x \<and> bound r ''Competitor'' = Some y"
    by (auto simp: bound_def)
  then have b: "\<forall>r\<in>set ?rows. bound r ''Company'' \<noteq> None \<and> bound r ''Competitor'' \<noteq> None"
    by fastforce
  obtain g' new where m: "exec_rows (MergeRel ''Company'' ''COMPETES_WITH'' ''Competitor'') ?rows g
            = Inr (?rows, g')"
    "nodes g' = nodes g" "edges g' = edges g @ new" "distinct new"
    "set new \<inter> set (edges g) = {}"
    "\<forall>e\<in>set new. etype e = ''COMPETES_WITH'' \<and>
        (\<exists>r\<in>set ?rows. bound r ''Company'' = Some (esrc e) \<and> bound r ''Competitor'' = Some (edst e))"
    "\<forall>r\<in>set ?rows. \<forall>x y. bound r ''Company'' = Some x \<longrightarrow> bound r ''Competitor'' = Some y \<longrightarrow>
        \<lparr>esrc = x, etype = ''COMPETES_WITH'', edst = y\<rparr> \<in> set (edges g')"
    using exec_rows_MergeRel[OF b, of "''COMPETES_WITH''" g] by blast
  have ex: "exec_query (competitor_query a b) [[]] g = Inr (?rows, g')"
    unfolding split exec_query_append competitor_rows using m(1)
    by (simp del: exec_rows.simps)
  have new: "\<forall>e\<in>set new. etype e = ''COMPETES_WITH'' \<and> esrc e \<in> set (company_ids g a)
                       \<and> edst e \<in> set (company_ids g b)"
  proof
    fix e assume "e \<in> set new"
    then obtain r where r: "etype e = ''COMPETES_WITH''" "r \<in> set ?rows"
      "bound r ''Company'' = Some (esrc e)" "bound r ''Competitor'' = Some (edst e)"
      using m(6) by blast
    then show "etype e = ''COMPETES_WITH'' \<and> esrc e \<in> set (company_ids g a)
                       \<and> edst e \<in> set (company_ids g b)"
      using rows by fastforce
  qed
  have all: "\<forall>x\<in>set (company_ids g a). \<forall>y\<in>set (company_ids g b).
           \<lparr>esrc = x, etype = ''COMPETES_WITH'', edst = y\<rparr> \<in> set (edges g')"
  proof (intro ballI)
    fix x y assume x: "x \<in> set (company_ids g a)" and y: "y \<in> set (company_ids g b)"
    let ?r = "[(''Competitor'', Some y), (''Company'', Some x)]"
    have "?r \<in> set ?rows" using x y by auto
    moreover have "bound ?r ''Company'' = Some x" "bound ?r ''Competitor'' = Some y"
      by (simp_all add: bound_def)
    ultimately show "\<lparr>esrc = x, etype = ''COMPETES_WITH'', edst = y\<rparr> \<in> set (edges g')"
      using m(7) by blast
  qed
  show ?thesis
    using ex m(2-5) new all by blast
qed

lemma query_ok_competitor:
  "query_ok (competitor_query a b) = (cypher_string a \<noteq> None \<and> cypher_string b \<noteq> None)"
  by (simp add: query_ok_def competitor_query_def clause_ok_def lit_ok_def)

lemma create_schema_competitor:
  assumes "create_schema g (competitor_query a b) = Inr g'"
  shows "nodes g' = nodes g
     \<and> (\<exists>new. edges g' = edges g @ new \<and> distinct new \<and> set new \<inter> set (edges g) = {}
          \<and> (\<forall>e\<in>set new. etype e = ''COMPETES_WITH'' \<and> esrc e \<in> set (company_ids g a)
                       \<and> edst e \<in> set (company_ids g b)))
     \<and> (\<forall>x\<in>set (company_ids g a). \<forall>y\<in>set (company_ids g b).
           \<lparr>esrc = x, etype = ''COMPETES_WITH'', edst = y\<rparr> \<in> set (edges g'))"
proof -
  obtain rows g1 new where e: "exec_query (competitor_query a b) [[]] g = Inr (rows, g1)"
     "nodes g1 = nodes g" "edges g1 = edges g @ new" "distinct new"
     "set new \<inter> set (edges g) = {}"
     "\<forall>e\<in>set new. etype e = ''COMPETES_WITH'' \<and> esrc e \<in> set (company_ids g a)
                       \<and> edst e \<in> set (company_ids g b)"
     "\<forall>x\<in>set (company_ids g a). \<forall>y\<in>set (company_ids g b).
           \<lparr>esrc = x, etype = ''COMPETES_WITH'', edst = y\<rparr> \<in> set (edges g1)"
    using competitor_query_exec[of a b g] by blast
  have "g' = g1"
    using assms e(1) by (auto simp: create_schema_def run_query_def split: if_splits)
  then show ?thesis using e by blast
qed

lemma create_schema_competitor_succeeds:
  assumes "unique_ok g" "\<not> dangling g" "cypher_string a \<noteq> None" "cypher_string b \<noteq> None"
  shows "\<exists>g'. create_schema g (competitor_query a b) = Inr g'"
proof -
  obtain rows g1 new where e: "exec_query (competitor_query a b) [[]] g = Inr (rows, g1)"
     "nodes g1 = nodes g" "edges g1 = edges g @ new"
     "\<forall>e\<in>set new. etype e = ''COMPETES_WITH'' \<and> esrc e \<in> set (company_ids g a)
                       \<and> edst e \<in> set (company_ids g b)"
    using competitor_query_exec[of a b g] by blast
  have "\<forall>e\<in>set new. esrc e \<in> set (node_ids g) \<and> edst e \<in> set (node_ids g)"
    using e(4) company_ids_subset by blast
  then have "\<not> dangling g1"
    using dangling_append[OF assms(2) e(2,3)] by blast
  then show ?thesis
    using assms e(1) by (simp add: create_schema_def run_query_def query_ok_competitor)
qed

section \<open>The competitors of a company\<close>

lemma rows_with_hd:
  assumes "rows_with df k v = Inr (r # rs)"
  shows "r \<in> set (frame_rows df) \<and> has_column df k
       \<and> (\<exists>c. map_of r k = Some c \<and> c \<noteq> CNaN \<and> c \<noteq> CNone \<and> (scalar v \<longrightarrow> c = v))"
proof -
  have h: "has_column df k"
    using assms by (auto simp: rows_with_def split: if_splits)
  show ?thesis
  proof (cases "scalar v")
    case True
    then have "rows_with df k v = Inr (filter (cell_is k v) (frame_rows df))"
      using h by (cases v) (simp_all add: rows_with_def scalar_def)
    then have "r # rs = filter (cell_is k v) (frame_rows df)"
      using assms by simp
    then have "r \<in> set (filter (cell_is k v) (frame_rows df))"
      by (metis list.set_intros(1))
    then show ?thesis
      using h by (auto simp: cell_is_def series_eq_def split: option.splits)
  next
    case False
    then obtain l where l: "v = CList l" by (cases v) (simp_all add: scalar_def)
    then have "r # rs = map fst (filter (\<lambda>(r, x). cell_is k (cell_of_elem x) r)
                                   (zip (frame_rows df) l))"
      using assms h by (auto simp: rows_with_def split: if_splits)
    then have "r \<in> set (map fst (filter (\<lambda>(r, x). cell_is k (cell_of_elem x) r)
                                     (zip (frame_rows df) l)))"
      by (metis list.set_intros(1))
    then obtain x where "(r, x) \<in> set (zip (frame_rows df) l)" "cell_is k (cell_of_elem x) r"
      by auto
    then show ?thesis
      using h False
      by (auto simp: cell_is_def series_eq_def split: option.splits dest: set_zip_leftD)
  qed
qed

lemma scalar_cell_of_elem: "scalar (cell_of_elem x)"
  by (cases x) (simp_all add: scalar_def cell_of_elem_def)

lemma dst_loop_entries:
  "d \<in> set (dst_loop stock_code graph_df codes) \<Longrightarrow>
     d \<in> set (frame_rows graph_df) \<and>
     (\<exists>code\<in>set codes. map_of d ''stock_code'' = Some (cell_of_elem code)
                         \<and> cell_of_elem code \<noteq> CNaN
                         \<and> \<not> cell_eq stock_code (cell_of_elem code))"
proof (induction codes)
  case Nil
  then show ?case by simp
next
  case (Cons code codes)
  show ?case
  proof (cases "cell_eq stock_code (cell_of_elem code)")
    case True
    then show ?thesis using Cons by auto
  next
    case False
    show ?thesis
    proof (cases "rows_with graph_df ''stock_code'' (cell_of_elem code)")
      case (Inl e)
      then show ?thesis using Cons False by auto
    next
      case (Inr found)
      show ?thesis
      proof (cases found)
        case Nil
        then show ?thesis using Cons Inr False by auto
      next
        case (Cons r rs)
        then have r: "r \<in> set (frame_rows graph_df)"
          "map_of r ''stock_code'' = Some (cell_of_elem code)" "cell_of_elem code \<noteq> CNaN"
          using rows_with_hd[of graph_df "''stock_code''" "cell_of_elem code" r rs] Inr
            scalar_cell_of_elem[of code]
          by auto
        show ?thesis
          using Cons.prems Cons.IH False Cons Inr r by auto
      qed
    qed
  qed
qed

lemma get_competitor_info_entries:
  assumes "d \<in> set (snd (get_competitor_info stock_code graph_df))"
  shows "d \<in> set (frame_rows graph_df) \<and>
     (\<exists>c. map_of d ''stock_code'' = Some c \<and> c \<noteq> CNaN \<and> \<not> cell_eq stock_code c)"
proof -
  obtain codes where "d \<in> set (dst_loop stock_code graph_df codes)"
    using assms unfolding get_competitor_info_def
    by (auto split: sum.splits list.splits option.splits if_splits cell.splits)
  then show ?thesis
    using dst_loop_entries by blast
qed

lemma get_competitor_info_src:
  assumes "get_competitor_info stock_code graph_df = (src, dsts)" "dsts \<noteq> []"
  shows "src \<in> set (frame_rows graph_df)
       \<and> (\<exists>c. map_of src ''stock_code'' = Some c \<and> (scalar stock_code \<longrightarrow> c = stock_code))"
proof -
  obtain rs where "rows_with graph_df ''stock_code'' stock_code = Inr (src # rs)"
    using assms unfolding get_competitor_info_def
    by (auto split: sum.splits list.splits option.splits if_splits cell.splits)
  then show ?thesis
    using rows_with_hd by blast
qed
section \<open>The relationships the competitor ingestion adds\<close>

lemma edges_added_refl: "edges_added P g g"
  by (simp add: edges_added_def)

lemma edges_added_trans:
  assumes "edges_added P g g1" "edges_added P g1 g2"
  shows "edges_added P g g2"
proof -
  obtain n1 where n1: "nodes g1 = nodes g" "edges g1 = edges g @ n1" "distinct n1"
    "set n1 \<inter> set (edges g) = {}" "list_all P n1"
    using assms(1) by (auto simp: edges_added_def)
  obtain n2 where n2: "nodes g2 = nodes g1" "edges g2 = edges g1 @ n2" "distinct n2"
    "set n2 \<inter> set (edges g1) = {}" "list_all P n2"
    using assms(2) by (auto simp: edges_added_def)
  have "edges g2 = edges g @ (n1 @ n2)" "distinct (n1 @ n2)"
    "set (n1 @ n2) \<inter> set (edges g) = {}" "list_all P (n1 @ n2)"
    using n1 n2 by auto
  then show ?thesis
    unfolding edges_added_def using n1(1) n2(1) by metis
qed

lemma edges_added_nodes: "edges_added P g g' \<Longrightarrow> nodes g' = nodes g"
  by (simp add: edges_added_def)

lemma edges_added_subset: "edges_added P g g' \<Longrightarrow> set (edges g) \<subseteq> set (edges g')"
  by (auto simp: edges_added_def)

lemma edges_added_new: "edges_added P g g' \<Longrightarrow> e \<in> set (edges g') \<Longrightarrow> e \<in> set (edges g) \<or> P e"
  by (auto simp: edges_added_def list_all_iff)

lemma count_list_distinct:
  "distinct xs \<Longrightarrow> count_list xs x = (if x \<in> set xs then 1 else 0)"
  by (induction xs) auto

lemma edges_added_count:
  assumes "edges_added P g g'"
  shows "count_list (edges g') e = (if e \<in> set (edges g) then count_list (edges g) e
                                     else if e \<in> set (edges g') then 1 else 0)"
proof -
  obtain new where n: "edges g' = edges g @ new" "distinct new" "set new \<inter> set (edges g) = {}"
    using assms by (auto simp: edges_added_def)
  have c: "count_list new e = (if e \<in> set new then 1 else 0)"
    using n(2) by (rule count_list_distinct)
  show ?thesis
  proof (cases "e \<in> set (edges g)")
    case True
    then have "e \<notin> set new" using n(3) by auto
    then show ?thesis using True n(1) c by simp
  next
    case False
    then have "count_list (edges g) e = 0" by (simp add: count_list_0_iff)
    then show ?thesis using False n(1) c by simp
  qed
qed

lemma company_ids_nodes: "nodes g' = nodes g \<Longrightarrow> company_ids g' a = company_ids g a"
  by (simp add: company_ids_def)

lemma node_ids_nodes: "nodes g' = nodes g \<Longrightarrow> node_ids g' = node_ids g"
  by (simp add: node_ids_def)

lemma clean_cypher_string:
  "CHR 0x27 \<notin> set s \<Longrightarrow> CHR 0x5C \<notin> set s \<Longrightarrow> cypher_string s = Some s"
  by (induction s rule: cypher_string.induct) auto

lemma plain_code_cypher: "plain_code s \<Longrightarrow> cypher_string s = Some s"
  by (simp add: plain_code_def clean_cypher_string)

lemma clean_plain: "clean_code s \<Longrightarrow> plain_code s"
  by (simp add: clean_code_def)

lemma clean_code_cypher: "clean_code s \<Longrightarrow> cypher_string s = Some s"
  by (simp add: clean_plain plain_code_cypher)

lemma company_ids_disjoint:
  assumes "distinct (node_ids g)" "cypher_string a = Some a" "cypher_string b = Some b" "a \<noteq> b"
    "x \<in> set (company_ids g a)" "y \<in> set (company_ids g b)"
  shows "x \<noteq> y"
proof
  assume xy: "x = y"
  obtain n where n: "n \<in> set (nodes g)" "nid n = x" "map_of (nprops n) ''stock_code'' = Some (PStr a)"
    using assms(2,5) by (auto simp: company_ids_def node_matches_def lit_val_def)
  obtain m where m: "m \<in> set (nodes g)" "nid m = y" "map_of (nprops m) ''stock_code'' = Some (PStr b)"
    using assms(3,6) by (auto simp: company_ids_def node_matches_def lit_val_def)
  have "inj_on nid (set (nodes g))"
    using assms(1) by (simp add: node_ids_def distinct_map)
  then have "n = m" using n m xy by (auto dest: inj_onD)
  then show False using n m assms(4) by simp
qed

lemma create_schema_competitor_added:
  assumes "create_schema g (competitor_query a b) = Inr g'"
    and "distinct (node_ids g)" "cypher_string a = Some a" "cypher_string b = Some b" "a \<noteq> b"
  shows "edges_added (\<lambda>e. etype e = ''COMPETES_WITH'' \<and> esrc e \<noteq> edst e) g g'"
proof -
  obtain new where n: "nodes g' = nodes g" "edges g' = edges g @ new" "distinct new"
    "set new \<inter> set (edges g) = {}"
    "\<forall>e\<in>set new. etype e = ''COMPETES_WITH'' \<and> esrc e \<in> set (company_ids g a)
                       \<and> edst e \<in> set (company_ids g b)"
    using create_schema_competitor[OF assms(1)] by blast
  have "list_all (\<lambda>e. etype e = ''COMPETES_WITH'' \<and> esrc e \<noteq> edst e) new"
    unfolding list_all_iff using n(5) company_ids_disjoint[OF assms(2-5)] by blast
  then show ?thesis
    unfolding edges_added_def using n(1-4) by blast
qed

lemma competitor_query_of_rows:
  "map_of src ''stock_code'' = Some s \<Longrightarrow> map_of dst ''stock_code'' = Some d \<Longrightarrow>
     create_cypher_query_competitor src dst = Inr (competitor_query (py_str s) (py_str d))"
  by (simp add: create_cypher_query_competitor_def getitem_def competitor_query_def)

lemma dst_loop_added:
  assumes "distinct (node_ids g)" and "map_of src ''stock_code'' = Some (CStr a)" and "plain_code a"
    and "\<forall>d\<in>set dsts. \<exists>code. map_of d ''stock_code'' = Some (CStr code) \<and> plain_code code \<and> code \<noteq> a"
  shows "edges_added (\<lambda>e. etype e = ''COMPETES_WITH'' \<and> esrc e \<noteq> edst e) g
           (fst (competitor_dst_loop existing company src dsts (g, k)))"
  using assms
proof (induction dsts arbitrary: g k)
  case Nil
  show ?case by (simp add: edges_added_refl)
next
  case (Cons d dsts)
  let ?P = "\<lambda>e. etype e = ''COMPETES_WITH'' \<and> esrc e \<noteq> edst e"
  obtain code where code: "map_of d ''stock_code'' = Some (CStr code)" "plain_code code" "code \<noteq> a"
    using Cons.prems(4) by auto
  have rest: "\<forall>d\<in>set dsts. \<exists>code. map_of d ''stock_code'' = Some (CStr code) \<and> plain_code code \<and> code \<noteq> a"
    using Cons.prems(4) by simp
  have q: "create_cypher_query_competitor src d = Inr (competitor_query a code)"
    using competitor_query_of_rows[OF Cons.prems(2) code(1)] by (simp add: py_str_def)
  show ?case
  proof (cases "getitem company ''stock_code''")
    case (Inl e)
    then show ?thesis using code by (simp add: getitem_def edges_added_refl)
  next
    case (Inr sc)
    have dc: "getitem d ''stock_code'' = Inr (CStr code)"
      using code by (simp add: getitem_def)
    show ?thesis
    proof (cases "py_str sc @ ''-'' @ py_str (CStr code) \<in> set existing")
      case True
      then show ?thesis
        using Inr dc Cons.IH[OF Cons.prems(1-3) rest, of k] by simp
    next
      case False
      show ?thesis
      proof (cases "create_schema g (competitor_query a code)")
        case (Inl e)
        then show ?thesis
          using Inr dc False q by (simp add: edges_added_refl)
      next
        case (Inr g1)
        have a1: "edges_added ?P g g1"
          using create_schema_competitor_added[OF Inr Cons.prems(1)] Cons.prems(3) code
          by (simp add: plain_code_cypher)
        have d1: "distinct (node_ids g1)"
          using Cons.prems(1) edges_added_nodes[OF a1] by (simp add: node_ids_def)
        have a2: "edges_added ?P g1 (fst (competitor_dst_loop existing company src dsts (g1, k + 1)))"
          using Cons.IH[OF d1 Cons.prems(2,3) rest] by simp
        have "competitor_dst_loop existing company src (d # dsts) (g, k)
                = competitor_dst_loop existing company src dsts (g1, k + 1)"
          using \<open>getitem company ''stock_code'' = Inr sc\<close> dc False q Inr by simp
        then show ?thesis
          using edges_added_trans[OF a1 a2] by simp
      qed
    qed
  qed
qed

lemma plain_frame_row:
  "plain_frame df \<Longrightarrow> r \<in> set (frame_rows df) \<Longrightarrow> map_of r ''stock_code'' = Some c \<Longrightarrow>
     \<exists>s. c = CStr s \<and> plain_code s"
  by (auto simp: plain_frame_def list_all_iff split: cell.splits)

lemma company_step_added:
  assumes "distinct (node_ids g)" "plain_frame df" "company \<in> set (frame_rows df)"
  shows "edges_added (\<lambda>e. etype e = ''COMPETES_WITH'' \<and> esrc e \<noteq> edst e) g
           (fst (competitor_company_step existing df company (g, k)))"
proof -
  let ?P = "\<lambda>e. etype e = ''COMPETES_WITH'' \<and> esrc e \<noteq> edst e"
  have main: "edges_added ?P g (fst (competitor_dst_loop existing company src dsts (g, k)))"
    if sc: "getitem company ''stock_code'' = Inr sc"
      and gi: "get_competitor_info sc df = (src, dsts)" and ne: "dsts \<noteq> []"
    for sc src dsts
  proof -
    have "map_of company ''stock_code'' = Some sc"
      using sc by (auto simp: getitem_def split: option.splits)
    then obtain a where sca: "sc = CStr a"
      using plain_frame_row[OF assms(2,3)] by blast
    obtain c where c: "src \<in> set (frame_rows df)" "map_of src ''stock_code'' = Some c"
      "scalar sc \<longrightarrow> c = sc"
      using get_competitor_info_src[OF gi ne] by blast
    have a: "c = CStr a" using c(3) sca by (simp add: scalar_def)
    have ca: "plain_code a"
      using plain_frame_row[OF assms(2) c(1,2)] a by simp
    have "\<forall>d\<in>set dsts. \<exists>code. map_of d ''stock_code'' = Some (CStr code) \<and> plain_code code \<and> code \<noteq> a"
    proof
      fix d assume "d \<in> set dsts"
      then have "d \<in> set (snd (get_competitor_info sc df))" using gi by simp
      then obtain c' where d': "d \<in> set (frame_rows df)" "map_of d ''stock_code'' = Some c'"
        "\<not> cell_eq sc c'"
        using get_competitor_info_entries by blast
      obtain code where cc: "c' = CStr code" "plain_code code"
        using plain_frame_row[OF assms(2) d'(1,2)] by blast
      have d: "map_of d ''stock_code'' = Some (CStr code)" "\<not> cell_eq sc (CStr code)"
        using d' cc by simp_all
      have "plain_code code" by (rule cc(2))
      moreover have "code \<noteq> a" using d(2) sca by (auto simp: cell_eq_def)
      ultimately show "\<exists>code. map_of d ''stock_code'' = Some (CStr code) \<and> plain_code code \<and> code \<noteq> a"
        using d(1) by blast
    qed
    then show ?thesis
      using dst_loop_added[OF assms(1) _ ca] c(2) a by blast
  qed
  show ?thesis
    unfolding competitor_company_step_def Let_def
    using main by (auto simp: edges_added_refl split: sum.splits prod.splits)
qed

lemma fold_company_step_added:
  assumes "distinct (node_ids g)" "plain_frame df" "set cs \<subseteq> set (frame_rows df)"
  shows "edges_added (\<lambda>e. etype e = ''COMPETES_WITH'' \<and> esrc e \<noteq> edst e) g
           (fst (fold (competitor_company_step existing df) cs (g, k)))"
  using assms(1,3)
proof (induction cs arbitrary: g k)
  case Nil
  show ?case by (simp add: edges_added_refl)
next
  case (Cons c cs)
  let ?P = "\<lambda>e. etype e = ''COMPETES_WITH'' \<and> esrc e \<noteq> edst e"
  obtain g1 k1 where s: "competitor_company_step existing df c (g, k) = (g1, k1)"
    by (cases "competitor_company_step existing df c (g, k)") auto
  have cin: "c \<in> set (frame_rows df)" "set cs \<subseteq> set (frame_rows df)"
    using Cons.prems(2) by simp_all
  have a1: "edges_added ?P g g1"
    using company_step_added[OF Cons.prems(1) assms(2) cin(1), where existing = existing and k = k] s by simp
  have "distinct (node_ids g1)"
    using Cons.prems(1) edges_added_nodes[OF a1] by (simp add: node_ids_def)
  then have "edges_added ?P g1 (fst (fold (competitor_company_step existing df) cs (g1, k1)))"
    using cin(2) by (rule Cons.IH)
  then show ?case
    using edges_added_trans[OF a1] s by simp
qed

lemma map_of_fillna:
  "k' \<noteq> k \<Longrightarrow> map_of (fillna_empty k r) k' = map_of r k'"
  by (simp add: fillna_empty_def)

lemma plain_frame_fillna:
  "plain_frame df \<Longrightarrow> plain_frame (fillna_column ''compete_stock_code_li'' df)"
  by (simp add: plain_frame_def fillna_column_def list_all_iff map_of_fillna)

lemma add_competitor_relationships_added:
  assumes "distinct (node_ids g)" "plain_frame total_df"
  shows "edges_added (\<lambda>e. etype e = ''COMPETES_WITH'' \<and> esrc e \<noteq> edst e) g
           (fst (add_competitor_relationships g total_df competitor_df))"
  unfolding add_competitor_relationships_def Let_def
  using fold_company_step_added[OF assms(1) plain_frame_fillna[OF assms(2)] subset_refl]
  by (auto simp: edges_added_refl split: option.splits)

lemma cell_eq_differs: "c \<noteq> CNaN \<Longrightarrow> \<not> cell_eq stock_code c \<Longrightarrow> c \<noteq> stock_code"
  by (auto simp: cell_eq_def)

text \<open>
  Claim C9. No row that \<open>get_competitor_info\<close> returns as a competitor carries the stock
  code of the source company; and when the stock codes of the frame are strings without
  quote or backslash and the node identifiers are distinct, every relationship
  that the competitor ingestion adds joins two different nodes. Two different stock codes
  that denote the same string in the query text escape this: both patterns of the query
  match one node, and the relationship written is a loop on it.
\<close>

theorem no_self_competitor:
  "(\<forall>d\<in>set (snd (get_competitor_info stock_code graph_df)).
       \<exists>c. map_of d ''stock_code'' = Some c \<and> c \<noteq> stock_code)
   \<and> (distinct (node_ids g) \<and> plain_frame total_df \<longrightarrow>
       (\<forall>e\<in>set (edges (fst (add_competitor_relationships g total_df competitor_df))).
           e \<in> set (edges g) \<or> esrc e \<noteq> edst e))"
proof (intro conjI ballI impI)
  fix d assume "d \<in> set (snd (get_competitor_info stock_code graph_df))"
  then obtain c where "map_of d ''stock_code'' = Some c" "c \<noteq> CNaN" "\<not> cell_eq stock_code c"
    using get_competitor_info_entries by blast
  then show "\<exists>c. map_of d ''stock_code'' = Some c \<and> c \<noteq> stock_code"
    using cell_eq_differs by blast
next
  fix e
  assume h: "distinct (node_ids g) \<and> plain_frame total_df"
    and e: "e \<in> set (edges (fst (add_competitor_relationships g total_df competitor_df)))"
  have "edges_added (\<lambda>e. etype e = ''COMPETES_WITH'' \<and> esrc e \<noteq> edst e) g
           (fst (add_competitor_relationships g total_df competitor_df))"
    using h add_competitor_relationships_added by blast
  then show "e \<in> set (edges g) \<or> esrc e \<noteq> edst e"
    using edges_added_new[OF _ e] by blast
qed
section \<open>One relationship for each listed competitor\<close>

lemma create_schema_not_dangling: "create_schema g q = Inr g' \<Longrightarrow> \<not> dangling g'"
  by (auto simp: create_schema_def run_query_def split: if_splits sum.splits prod.splits)

lemma unique_ok_nodes: "nodes g' = nodes g \<Longrightarrow> unique_ok g' = unique_ok g"
  by (simp add: unique_ok_def)

lemma dst_loop_not_dangling:
  "\<not> dangling g \<Longrightarrow> \<not> dangling (fst (competitor_dst_loop existing company src dsts (g, k)))"
proof (induction dsts arbitrary: g k)
  case Nil
  then show ?case by simp
next
  case (Cons d dsts)
  show ?case
    using Cons.prems Cons.IH create_schema_not_dangling
    by (auto split: sum.splits prod.splits)
qed

lemma company_step_not_dangling:
  "\<not> dangling g \<Longrightarrow> \<not> dangling (fst (competitor_company_step existing df company (g, k)))"
  unfolding competitor_company_step_def Let_def
  using dst_loop_not_dangling by (auto split: sum.splits prod.splits)

lemma hyphen_split:
  assumes "x @ ''-'' @ y = a @ ''-'' @ b" "CHR ''-'' \<notin> set a" "CHR ''-'' \<notin> set b"
  shows "x = a \<and> y = b"
proof -
  have "x @ CHR ''-'' # y = a @ CHR ''-'' # b" using assms(1) by simp
  then obtain us where "(x = a @ us \<and> us @ CHR ''-'' # y = CHR ''-'' # b)
                      \<or> (x @ us = a \<and> CHR ''-'' # y = us @ CHR ''-'' # b)"
    unfolding append_eq_append_conv2 by blast
  then show ?thesis
  proof
    assume h: "x = a @ us \<and> us @ CHR ''-'' # y = CHR ''-'' # b"
    show ?thesis
    proof (cases us)
      case Nil
      then show ?thesis using h by simp
    next
      case (Cons u us')
      then have "b = us' @ CHR ''-'' # y" using h by simp
      then show ?thesis using assms(3) by simp
    qed
  next
    assume h: "x @ us = a \<and> CHR ''-'' # y = us @ CHR ''-'' # b"
    show ?thesis
    proof (cases us)
      case Nil
      then show ?thesis using h by simp
    next
      case (Cons u us')
      then have "u = CHR ''-''" using h by simp
      then have "CHR ''-'' \<in> set a" using h Cons by auto
      then show ?thesis using assms(2) by simp
    qed
  qed
qed

lemma unique_company:
  assumes "unique_ok g" "is_company g n a" "is_company g m a"
  shows "n = m"
proof -
  let ?f = "filter (\<lambda>n. nlabel n = ''Company'' \<and> None \<notin> set (key_of [''stock_code''] n)) (nodes g)"
  have "distinct (map (key_of [''stock_code'']) ?f)"
    using assms(1) by (simp add: unique_ok_def unique_keys_def)
  then have inj: "inj_on (key_of [''stock_code'']) (set ?f)"
    by (simp add: distinct_map)
  have "n \<in> set ?f" "m \<in> set ?f" "key_of [''stock_code''] n = key_of [''stock_code''] m"
    using assms(2,3) by (auto simp: is_company_def key_of_def)
  then show ?thesis using inj by (auto dest: inj_onD)
qed

lemma edge_eq: "(e :: edge) = \<lparr>esrc = x, etype = t, edst = y\<rparr> \<longleftrightarrow> esrc e = x \<and> etype e = t \<and> edst e = y"
  by (cases e) simp

lemma company_string:
  assumes "company_codes_strings g" "n \<in> set (nodes g)" "nlabel n = ''Company''"
  shows "\<exists>s. map_of (nprops n) ''stock_code'' = Some (PStr s)"
proof -
  have c: "case map_of (nprops n) ''stock_code'' of Some (PStr s) \<Rightarrow> True | _ \<Rightarrow> False"
    using assms by (simp add: company_codes_strings_def list_all_iff)
  show ?thesis
  proof (cases "map_of (nprops n) ''stock_code''")
    case None
    then show ?thesis using c by simp
  next
    case (Some v)
    then show ?thesis using c by (cases v) simp_all
  qed
qed

lemma key_existing:
  assumes "unique_ok g" "company_codes_strings g" "is_company g na a" "is_company g nb b"
    and "CHR ''-'' \<notin> set a" "CHR ''-'' \<notin> set b"
    and "a @ ''-'' @ b \<in> set (check_existing_competitor_relationships g)"
  shows "\<lparr>esrc = nid na, etype = ''COMPETES_WITH'', edst = nid nb\<rparr> \<in> set (edges g)"
proof -
  obtain e c1 c2 where e: "e \<in> set (edges g)" "etype e = ''COMPETES_WITH''"
    and c1: "c1 \<in> set (nodes g)" "nid c1 = esrc e" "nlabel c1 = ''Company''"
    and c2: "c2 \<in> set (nodes g)" "nid c2 = edst e" "nlabel c2 = ''Company''"
    and k: "company_code c1 @ ''-'' @ company_code c2 = a @ ''-'' @ b"
    using assms(7) unfolding check_existing_competitor_relationships_def by auto
  have codes: "company_code c1 = a" "company_code c2 = b"
    using hyphen_split[OF k assms(5,6)] by auto
  obtain s1 where s1: "map_of (nprops c1) ''stock_code'' = Some (PStr s1)"
    using company_string[OF assms(2) c1(1,3)] by blast
  obtain s2 where s2: "map_of (nprops c2) ''stock_code'' = Some (PStr s2)"
    using company_string[OF assms(2) c2(1,3)] by blast
  have ic: "is_company g c1 a" "is_company g c2 b"
    using codes s1 s2 c1 c2 by (simp_all add: is_company_def company_code_def prop_str_def)
  have "c1 = na" "c2 = nb"
    using unique_company[OF assms(1) ic(1) assms(3)] unique_company[OF assms(1) ic(2) assms(4)]
    by simp_all
  then have "e = \<lparr>esrc = nid na, etype = ''COMPETES_WITH'', edst = nid nb\<rparr>"
    using c1 c2 e by (simp add: edge_eq)
  then show ?thesis using e by simp
qed

lemma company_ids_member:
  "is_company g n a \<Longrightarrow> cypher_string a = Some a \<Longrightarrow> nid n \<in> set (company_ids g a)"
  by (auto simp: is_company_def company_ids_def node_matches_def lit_val_def)


lemma create_schema_competitor_nodes:
  "create_schema g (competitor_query a b) = Inr g' \<Longrightarrow> nodes g' = nodes g"
  by (rule create_schema_competitor[THEN conjunct1])

lemma create_schema_competitor_sub:
  assumes "create_schema g (competitor_query a b) = Inr g'"
  shows "set (edges g) \<subseteq> set (edges g')"
proof -
  have "\<exists>new. edges g' = edges g @ new \<and> distinct new \<and> set new \<inter> set (edges g) = {}
          \<and> (\<forall>e\<in>set new. etype e = ''COMPETES_WITH'' \<and> esrc e \<in> set (company_ids g a)
                       \<and> edst e \<in> set (company_ids g b))"
    by (rule create_schema_competitor[OF assms, THEN conjunct2, THEN conjunct1])
  then obtain new where "edges g' = edges g @ new" by (elim exE conjE)
  then show ?thesis by simp
qed

lemma create_schema_competitor_edge:
  assumes "create_schema g (competitor_query a b) = Inr g'"
    and "x \<in> set (company_ids g a)" "y \<in> set (company_ids g b)"
  shows "\<lparr>esrc = x, etype = ''COMPETES_WITH'', edst = y\<rparr> \<in> set (edges g')"
proof -
  have "\<forall>x\<in>set (company_ids g a). \<forall>y\<in>set (company_ids g b).
           \<lparr>esrc = x, etype = ''COMPETES_WITH'', edst = y\<rparr> \<in> set (edges g')"
    by (rule create_schema_competitor[OF assms(1), THEN conjunct2, THEN conjunct2])
  then show ?thesis using assms(2,3) by simp
qed

lemma dst_loop_reaches:
  assumes "unique_ok g" and "\<not> dangling g" and "distinct (node_ids g)"
    and "getitem company ''stock_code'' = Inr (CStr a)"
    and "map_of src ''stock_code'' = Some (CStr a)" and "clean_code a"
    and "\<forall>d\<in>set dsts. \<exists>code. map_of d ''stock_code'' = Some (CStr code) \<and> plain_code code \<and> code \<noteq> a"
    and "\<exists>d\<in>set dsts. map_of d ''stock_code'' = Some (CStr b)"
    and "a @ ''-'' @ b \<in> set existing \<longrightarrow> \<lparr>esrc = x, etype = ''COMPETES_WITH'', edst = y\<rparr> \<in> set (edges g)"
    and "x \<in> set (company_ids g a)" and "y \<in> set (company_ids g b)"
  shows "\<lparr>esrc = x, etype = ''COMPETES_WITH'', edst = y\<rparr>
           \<in> set (edges (fst (competitor_dst_loop existing company src dsts (g, k))))"
  using assms(1,2,3,7,8,9,10,11)
proof (induction dsts arbitrary: g k)
  case Nil
  then show ?case by simp
next
  case (Cons d dsts)
  let ?e = "\<lparr>esrc = x, etype = ''COMPETES_WITH'', edst = y\<rparr>"
  obtain code where code: "map_of d ''stock_code'' = Some (CStr code)" "plain_code code" "code \<noteq> a"
    using Cons.prems(4) by auto
  have rest: "\<forall>d\<in>set dsts. \<exists>code. map_of d ''stock_code'' = Some (CStr code) \<and> plain_code code \<and> code \<noteq> a"
    using Cons.prems(4) by simp
  have inrest: "code \<noteq> b \<Longrightarrow> \<exists>d\<in>set dsts. map_of d ''stock_code'' = Some (CStr b)"
    using Cons.prems(5) code(1) by auto
  have q: "create_cypher_query_competitor src d = Inr (competitor_query a code)"
    using competitor_query_of_rows[OF assms(5) code(1)] by (simp add: py_str_def)
  have dc: "getitem d ''stock_code'' = Inr (CStr code)"
    using code by (simp add: getitem_def)
  have mono: "\<And>g1 k1. distinct (node_ids g1) \<Longrightarrow> ?e \<in> set (edges g1) \<Longrightarrow>
      ?e \<in> set (edges (fst (competitor_dst_loop existing company src dsts (g1, k1))))"
    using edges_added_subset[OF dst_loop_added[OF _ assms(5) clean_plain[OF assms(6)] rest]] by blast
  show ?case
  proof (cases "a @ ''-'' @ code \<in> set existing")
    case True
    have eq: "competitor_dst_loop existing company src (d # dsts) (g, k)
                = competitor_dst_loop existing company src dsts (g, k)"
      using assms(4) dc True by (simp add: py_str_def)
    show ?thesis
    proof (cases "code = b")
      case True
      then have "?e \<in> set (edges g)" using Cons.prems(6) \<open>a @ ''-'' @ code \<in> set existing\<close> by simp
      then show ?thesis using eq mono[OF Cons.prems(3)] by simp
    next
      case False
      then show ?thesis
        using eq Cons.IH[OF Cons.prems(1,2,3) rest inrest Cons.prems(6,7,8)] by simp
    qed
  next
    case False
    have cs: "cypher_string a \<noteq> None" "cypher_string code \<noteq> None"
      using assms(6) code(2) by (simp_all add: clean_code_cypher plain_code_cypher)
    obtain g1 where g1: "create_schema g (competitor_query a code) = Inr g1"
      using create_schema_competitor_succeeds[OF Cons.prems(1,2) cs] by blast
    have eq: "competitor_dst_loop existing company src (d # dsts) (g, k)
                = competitor_dst_loop existing company src dsts (g1, k + 1)"
      using assms(4) dc False q g1 by (simp add: py_str_def)
    have n1: "nodes g1 = nodes g" and sub: "set (edges g) \<subseteq> set (edges g1)"
      using create_schema_competitor_nodes[OF g1] create_schema_competitor_sub[OF g1] by simp_all
    have inv: "unique_ok g1" "\<not> dangling g1" "distinct (node_ids g1)"
      using Cons.prems(1,3) n1 create_schema_not_dangling[OF g1] unique_ok_nodes[OF n1]
      by (simp_all add: node_ids_def)
    have ids: "x \<in> set (company_ids g1 a)" "y \<in> set (company_ids g1 b)"
      using Cons.prems(7,8) by (simp_all add: company_ids_nodes[OF n1])
    show ?thesis
    proof (cases "code = b")
      case True
      have "?e \<in> set (edges g1)"
        using create_schema_competitor_edge[OF g1] Cons.prems(7,8) True by simp
      then show ?thesis using eq mono[OF inv(3)] by simp
    next
      case False
      have K1: "a @ ''-'' @ b \<in> set existing \<longrightarrow> ?e \<in> set (edges g1)"
        using Cons.prems(6) sub by blast
      show ?thesis
        using eq Cons.IH[OF inv rest inrest[OF False] K1 ids] by simp
    qed
  qed
qed

lemma dst_loop_contains:
  assumes "EStr b \<in> set codes" "\<not> cell_eq sc (CStr b)"
    and "rows_with df ''stock_code'' (CStr b) = Inr (r # rs)"
  shows "r \<in> set (dst_loop sc df codes)"
  using assms(1)
proof (induction codes)
  case Nil
  then show ?case by simp
next
  case (Cons c codes)
  show ?case
  proof (cases "c = EStr b")
    case True
    then show ?thesis using assms(2,3) by (simp add: cell_of_elem_def)
  next
    case False
    then have "r \<in> set (dst_loop sc df codes)" using Cons by simp
    then show ?thesis by (auto split: sum.splits list.splits)
  qed
qed

lemma has_column_fillna: "has_column (fillna_column k df) k' = has_column df k'"
  by (simp add: has_column_def fillna_column_def)

lemma cell_is_fillna: "k' \<noteq> k \<Longrightarrow> cell_is k' v (fillna_empty k r) = cell_is k' v r"
  by (simp add: cell_is_def map_of_fillna)

lemma rows_with_fillna:
  assumes "k' \<noteq> k" and "rows_with df k' (CStr s) = Inr rs"
  shows "rows_with (fillna_column k df) k' (CStr s) = Inr (map (fillna_empty k) rs)"
proof -
  have h: "has_column df k'" and rs: "rs = filter (cell_is k' (CStr s)) (frame_rows df)"
    using assms(2) by (auto simp: rows_with_def split: if_splits)
  have "filter (cell_is k' (CStr s)) (map (fillna_empty k) (frame_rows df))
          = map (fillna_empty k) (filter (cell_is k' (CStr s)) (frame_rows df))"
    by (simp add: filter_map comp_def cell_is_fillna[OF assms(1)])
  then show ?thesis
    using h rs by (simp add: rows_with_def has_column_def fillna_column_def)
qed

lemma fillna_id: "map_of r k = Some (CList l) \<Longrightarrow> fillna_empty k r = r"
  by (simp add: fillna_empty_def)

lemma not_numeric_column:
  "r \<in> set (frame_rows df) \<Longrightarrow> map_of r k = Some (CList l) \<Longrightarrow> \<not> numeric_column df k"
  unfolding numeric_column_def list_all_iff by (rule notI, drule bspec[of _ _ r]) simp_all

lemma company_step_reaches:
  assumes "unique_ok g" and "\<not> dangling g" and "distinct (node_ids g)"
    and "plain_frame df" and "has_column df ''compete_stock_code_li''"
    and "rows_with df ''stock_code'' (CStr a) = Inr (rA # rest)"
    and "map_of rA ''compete_stock_code_li'' = Some (CList l)" and "EStr b \<in> set l" and "a \<noteq> b"
    and "rows_with df ''stock_code'' (CStr b) = Inr (rB # rs)"
    and "a @ ''-'' @ b \<in> set existing \<longrightarrow> \<lparr>esrc = x, etype = ''COMPETES_WITH'', edst = y\<rparr> \<in> set (edges g)"
    and "x \<in> set (company_ids g a)" and "y \<in> set (company_ids g b)"
    and "clean_code a"
  shows "\<lparr>esrc = x, etype = ''COMPETES_WITH'', edst = y\<rparr>
           \<in> set (edges (fst (competitor_company_step existing df rA (g, k))))"
proof -
  have rA: "rA \<in> set (frame_rows df)" "map_of rA ''stock_code'' = Some (CStr a)"
    using rows_with_hd[OF assms(6)] by (auto simp: scalar_def)
  have ca: "clean_code a" by (rule assms(14))
  have rBc: "map_of rB ''stock_code'' = Some (CStr b)"
    using rows_with_hd[OF assms(10)] by (auto simp: scalar_def)
  have ne: "\<not> cell_eq (CStr a) (CStr b)" using assms(9) by (simp add: cell_eq_def)
  have inB: "rB \<in> set (dst_loop (CStr a) df l)"
    using dst_loop_contains[OF assms(8) ne assms(10)] .
  have lne: "l \<noteq> []" using assms(8) by auto
  have nn: "\<not> numeric_column df ''compete_stock_code_li''"
    using not_numeric_column[OF rA(1) assms(7)] .
  have gi: "get_competitor_info (CStr a) df = (rA, dst_loop (CStr a) df l)"
    using assms(5,6,7) lne nn by (simp add: get_competitor_info_def py_truthy_def)
  have dne: "dst_loop (CStr a) df l \<noteq> []" using inB by auto
  have ds: "\<forall>d\<in>set (dst_loop (CStr a) df l).
               \<exists>code. map_of d ''stock_code'' = Some (CStr code) \<and> plain_code code \<and> code \<noteq> a"
  proof
    fix d assume "d \<in> set (dst_loop (CStr a) df l)"
    then obtain c' where d': "d \<in> set (frame_rows df)" "map_of d ''stock_code'' = Some c'"
      "\<not> cell_eq (CStr a) c'"
      using dst_loop_entries by blast
    obtain code where cc: "c' = CStr code" "plain_code code"
      using plain_frame_row[OF assms(4) d'(1,2)] by blast
    have "code \<noteq> a" using d'(3) cc by (auto simp: cell_eq_def)
    then show "\<exists>code. map_of d ''stock_code'' = Some (CStr code) \<and> plain_code code \<and> code \<noteq> a"
      using d'(2) cc by blast
  qed
  have dB: "\<exists>d\<in>set (dst_loop (CStr a) df l). map_of d ''stock_code'' = Some (CStr b)"
    using inB rBc by blast
  have co: "getitem rA ''stock_code'' = Inr (CStr a)"
    using rA(2) by (simp add: getitem_def)
  have step: "competitor_company_step existing df rA (g, k)
          = competitor_dst_loop existing rA rA (dst_loop (CStr a) df l) (g, k)"
    using assms(7) lne co gi dne
    by (simp add: competitor_company_step_def get_default_def py_truthy_def)
  show ?thesis
    unfolding step
    using dst_loop_reaches[OF assms(1,2,3) co rA(2) ca ds dB assms(11,12,13)] .
qed

lemma fold_not_dangling:
  "\<not> dangling g \<Longrightarrow> \<not> dangling (fst (fold (competitor_company_step existing df) cs (g, k)))"
proof (induction cs arbitrary: g k)
  case Nil
  then show ?case by simp
next
  case (Cons c cs)
  obtain g1 k1 where s: "competitor_company_step existing df c (g, k) = (g1, k1)"
    by (cases "competitor_company_step existing df c (g, k)") auto
  have "\<not> dangling g1"
    using company_step_not_dangling[OF Cons.prems, of existing df c k] s by simp
  then show ?case using Cons.IH[of g1 k1] s by simp
qed

lemma fold_reaches:
  assumes "plain_frame df" and "has_column df ''compete_stock_code_li''"
    and "rows_with df ''stock_code'' (CStr a) = Inr (rA # rest)"
    and "map_of rA ''compete_stock_code_li'' = Some (CList l)" and "EStr b \<in> set l" and "a \<noteq> b"
    and "rows_with df ''stock_code'' (CStr b) = Inr (rB # rs)"
    and "rA \<in> set cs" and "set cs \<subseteq> set (frame_rows df)"
    and "unique_ok g" and "\<not> dangling g" and "distinct (node_ids g)"
    and "a @ ''-'' @ b \<in> set existing \<longrightarrow> \<lparr>esrc = x, etype = ''COMPETES_WITH'', edst = y\<rparr> \<in> set (edges g)"
    and "x \<in> set (company_ids g a)" and "y \<in> set (company_ids g b)"
    and "clean_code a"
  shows "\<lparr>esrc = x, etype = ''COMPETES_WITH'', edst = y\<rparr>
           \<in> set (edges (fst (fold (competitor_company_step existing df) cs (g, k))))"
  using assms(8-15)
proof (induction cs arbitrary: g k)
  case Nil
  then show ?case by simp
next
  case (Cons c cs)
  let ?e = "\<lparr>esrc = x, etype = ''COMPETES_WITH'', edst = y\<rparr>"
  obtain g1 k1 where s: "competitor_company_step existing df c (g, k) = (g1, k1)"
    by (cases "competitor_company_step existing df c (g, k)") auto
  have cin: "c \<in> set (frame_rows df)" "set cs \<subseteq> set (frame_rows df)"
    using Cons.prems(2) by simp_all
  have a1: "edges_added (\<lambda>e. etype e = ''COMPETES_WITH'' \<and> esrc e \<noteq> edst e) g g1"
    using company_step_added[OF Cons.prems(5) assms(1) cin(1),
        where existing = existing and k = k] s by simp
  have n1: "nodes g1 = nodes g" using edges_added_nodes[OF a1] .
  have inv: "unique_ok g1" "\<not> dangling g1" "distinct (node_ids g1)"
    using Cons.prems(3,5) unique_ok_nodes[OF n1] node_ids_nodes[OF n1]
      company_step_not_dangling[OF Cons.prems(4), of existing df c k] s
    by simp_all
  have ids: "x \<in> set (company_ids g1 a)" "y \<in> set (company_ids g1 b)"
    using Cons.prems(7,8) by (simp_all add: company_ids_nodes[OF n1])
  have K1: "a @ ''-'' @ b \<in> set existing \<longrightarrow> ?e \<in> set (edges g1)"
    using Cons.prems(6) edges_added_subset[OF a1] by blast
  have fold_eq: "fold (competitor_company_step existing df) (c # cs) (g, k)
           = fold (competitor_company_step existing df) cs (g1, k1)"
    using s by simp
  show ?case
  proof (cases "c = rA")
    case True
    have "?e \<in> set (edges g1)"
      using company_step_reaches[OF Cons.prems(3,4,5) assms(1-7) Cons.prems(6,7,8) assms(16), of k]
        s True
      by simp
    then show ?thesis
      unfolding fold_eq
      using edges_added_subset[OF fold_company_step_added[OF inv(3) assms(1) cin(2),
            where existing = existing and k = k1]]
      by blast
  next
    case False
    then have "rA \<in> set cs" using Cons.prems(1) by simp
    then show ?thesis
      unfolding fold_eq using Cons.IH[OF _ cin(2) inv K1 ids] by simp
  qed
qed

lemma count_edges_list:
  "length (filter (\<lambda>e. esrc e = x \<and> etype e = t \<and> edst e = y) es)
     = count_list es \<lparr>esrc = x, etype = t, edst = y\<rparr>"
  by (induction es) (auto simp: edge_eq)

lemma count_edges_count_list:
  "count_edges g x t y = count_list (edges g) \<lparr>esrc = x, etype = t, edst = y\<rparr>"
  unfolding count_edges_def by (rule count_edges_list)

lemma is_company_nodes: "nodes g' = nodes g \<Longrightarrow> is_company g' n a = is_company g n a"
  by (simp add: is_company_def)

lemma company_codes_strings_nodes:
  "nodes g' = nodes g \<Longrightarrow> company_codes_strings g' = company_codes_strings g"
  by (simp add: company_codes_strings_def)

lemma ingestion_run:
  assumes "wf_graph g" "unique_ok g" "company_codes_strings g"
    and "is_company g na a" "is_company g nb b" "a \<noteq> b"
    and "clean_code a" "clean_code b" "plain_frame total_df"
    and "lists_competitor total_df a b" "\<not> frame_empty cdf"
    and "count_edges g (nid na) ''COMPETES_WITH'' (nid nb) \<le> 1"
  shows "nodes (fst (add_competitor_relationships g total_df (Some cdf))) = nodes g
       \<and> \<not> dangling (fst (add_competitor_relationships g total_df (Some cdf)))
       \<and> count_edges (fst (add_competitor_relationships g total_df (Some cdf)))
            (nid na) ''COMPETES_WITH'' (nid nb) = 1"
proof -
  let ?k = "''compete_stock_code_li''"
  let ?df = "fillna_column ?k total_df"
  let ?ex = "check_existing_competitor_relationships g"
  let ?e = "\<lparr>esrc = nid na, etype = ''COMPETES_WITH'', edst = nid nb\<rparr>"
  let ?g' = "fst (add_competitor_relationships g total_df (Some cdf))"
  have di: "distinct (node_ids g)" and nd: "\<not> dangling g"
    using assms(1) by (simp_all add: wf_graph_def)
  have col: "has_column total_df ?k"
    using assms(10) by (simp add: lists_competitor_def)
  obtain rA rest l where rA: "rows_with total_df ''stock_code'' (CStr a) = Inr (rA # rest)"
    "map_of rA ?k = Some (CList l)" "EStr b \<in> set l"
    using assms(10) unfolding lists_competitor_def
    by (auto split: sum.splits list.splits option.splits cell.splits)
  obtain rB rs where rB: "rows_with total_df ''stock_code'' (CStr b) = Inr (rB # rs)"
    using assms(10) unfolding lists_competitor_def
    by (auto split: sum.splits list.splits)
  have run: "add_competitor_relationships g total_df (Some cdf)
               = fold (competitor_company_step ?ex ?df) (frame_rows ?df) (g, 0)"
    using assms(11) col by (simp add: add_competitor_relationships_def Let_def)
  have fA: "fillna_empty ?k rA = rA" using fillna_id[OF rA(2)] .
  have rA': "rows_with ?df ''stock_code'' (CStr a) = Inr (rA # map (fillna_empty ?k) rest)"
    using rows_with_fillna[OF _ rA(1), of ?k] fA by simp
  have rB': "rows_with ?df ''stock_code'' (CStr b)
               = Inr (fillna_empty ?k rB # map (fillna_empty ?k) rs)"
    using rows_with_fillna[OF _ rB, of ?k] by simp
  have rAdf: "rA \<in> set (frame_rows ?df)" using rows_with_hd[OF rA'] by simp
  have col': "has_column ?df ?k" using col by (simp add: has_column_fillna)
  have cf: "plain_frame ?df" using plain_frame_fillna[OF assms(9)] .
  have K: "a @ ''-'' @ b \<in> set ?ex \<longrightarrow> ?e \<in> set (edges g)"
    using key_existing[OF assms(2,3,4,5)] assms(7,8) by (simp add: clean_code_def)
  have ids: "nid na \<in> set (company_ids g a)" "nid nb \<in> set (company_ids g b)"
    using company_ids_member assms(4,5,7,8) clean_code_cypher by blast+
  have reach: "?e \<in> set (edges ?g')"
    unfolding run
    using fold_reaches[OF cf col' rA' rA(2,3) assms(6) rB' rAdf subset_refl assms(2) nd di K ids
        assms(7)] .
  have added: "edges_added (\<lambda>e. etype e = ''COMPETES_WITH'' \<and> esrc e \<noteq> edst e) g ?g'"
    using add_competitor_relationships_added[OF di assms(9)] .
  have cnt: "count_list (edges ?g') ?e = (if ?e \<in> set (edges g) then count_list (edges g) ?e
                                     else if ?e \<in> set (edges ?g') then 1 else 0)"
    using edges_added_count[OF added] .
  have le: "count_list (edges g) ?e \<le> 1"
    using assms(12) by (simp add: count_edges_count_list)
  have "count_list (edges ?g') ?e = 1"
  proof (cases "?e \<in> set (edges g)")
    case True
    then have "count_list (edges g) ?e \<noteq> 0" by (simp add: count_list_0_iff)
    then show ?thesis using cnt True le by simp
  next
    case False
    then show ?thesis using cnt reach by simp
  qed
  moreover have "\<not> dangling ?g'"
    unfolding run using fold_not_dangling[OF nd] .
  moreover have "nodes ?g' = nodes g" using edges_added_nodes[OF added] .
  ultimately show ?thesis by (simp add: count_edges_count_list)
qed

text \<open>
  Claim C3. Take a stored graph that satisfies the uniqueness constraints and whose Company
  nodes carry strings as stock codes, with Company nodes for \<open>a\<close> and \<open>b\<close> and at most one
  COMPETES_WITH relationship from \<open>a\<close> to \<open>b\<close>, the stock codes \<open>a\<close> and \<open>b\<close> being without
  quote, backslash or hyphen; take a frame whose stock codes are strings without quote or
  backslash and that lists \<open>b\<close> among the competitors of \<open>a\<close>. Then after one or more runs
  of the competitor ingestion there is exactly one COMPETES_WITH relationship from \<open>a\<close> to
  \<open>b\<close>. A stock code with a hyphen escapes this: the key \<open>src-dst\<close> of one pair can be the
  key of another pair that the graph already relates, and then the listed pair is never
  written.
\<close>

theorem competitor_edge_once:
  assumes "wf_graph g" "unique_ok g" "company_codes_strings g"
    and "is_company g na a" "is_company g nb b" "a \<noteq> b"
    and "clean_code a" "clean_code b" "plain_frame total_df"
    and "lists_competitor total_df a b" "\<not> frame_empty cdf"
    and "count_edges g (nid na) ''COMPETES_WITH'' (nid nb) \<le> 1"
    and "0 < n"
  shows "count_edges (ingest_competitors n total_df (Some cdf) g)
           (nid na) ''COMPETES_WITH'' (nid nb) = 1"
proof -
  have "count_edges (ingest_competitors (Suc m) total_df (Some cdf) g)
           (nid na) ''COMPETES_WITH'' (nid nb) = 1"
    if "wf_graph g" "unique_ok g" "company_codes_strings g"
      "is_company g na a" "is_company g nb b"
      "count_edges g (nid na) ''COMPETES_WITH'' (nid nb) \<le> 1"
    for m g
    using that
  proof (induction m arbitrary: g)
    case 0
    show ?case
      using ingestion_run[OF 0(1-5) assms(6-11) 0(6)] by simp
  next
    case (Suc m)
    let ?g' = "fst (add_competitor_relationships g total_df (Some cdf))"
    have r: "nodes ?g' = nodes g" "\<not> dangling ?g'"
      "count_edges ?g' (nid na) ''COMPETES_WITH'' (nid nb) = 1"
      using ingestion_run[OF Suc.prems(1-5) assms(6-11) Suc.prems(6)] by simp_all
    have inv: "wf_graph ?g'" "unique_ok ?g'" "company_codes_strings ?g'"
      "is_company ?g' na a" "is_company ?g' nb b"
      "count_edges ?g' (nid na) ''COMPETES_WITH'' (nid nb) \<le> 1"
      using Suc.prems r unique_ok_nodes[OF r(1)] company_codes_strings_nodes[OF r(1)]
        is_company_nodes[OF r(1)] node_ids_nodes[OF r(1)]
      by (simp_all add: wf_graph_def)
    show ?case
      using Suc.IH[OF inv] by simp
  qed
  moreover obtain m where "n = Suc m" using assms(13) by (cases n) auto
  ultimately show ?thesis using assms(1-5,12) by simp
qed

section \<open>The competitor ingestion on the small universe\<close>

lemma example_graph_value:
  "example_graph =
     \<lparr>nodes =
        [\<lparr>nid = 1, nlabel = ''Company'',
            nprops =
              [(''stock_code'', PStr ''000001''), (''stock_nm'', PStr ''Nm''),
               (''stock_abbrv'', PStr ''N''), (''stock_nm_eng'', PStr ''Nm''),
               (''listing_dt'', PStr ''2000''), (''outstanding_shares'', PNum ''10''),
               (''kospi200_item_yn'', PStr ''Y''), (''compete_stock_nm_li'', PStr []),
               (''compete_stock_code_li'', PStr ''000002, 000001'')]\<rparr>,
         \<lparr>nid = 2, nlabel = ''Sector'', nprops = [(''stock_sector_nm'', PStr ''S'')]\<rparr>,
         \<lparr>nid = 3, nlabel = ''Company'',
            nprops =
              [(''stock_code'', PStr ''000002''), (''stock_nm'', PStr ''Nm''),
               (''stock_abbrv'', PStr ''N''), (''stock_nm_eng'', PStr ''Nm''),
               (''listing_dt'', PStr ''2000''), (''outstanding_shares'', PNum ''10''),
               (''kospi200_item_yn'', PStr ''Y''), (''compete_stock_nm_li'', PStr []),
               (''compete_stock_code_li'', PStr [])]\<rparr>],
      edges =
        [\<lparr>esrc = 1, etype = ''BELONGS_TO'', edst = 2\<rparr>,
         \<lparr>esrc = 3, etype = ''BELONGS_TO'', edst = 2\<rparr>]\<rparr>"
  by code_simp

lemma example_wf: "wf_graph example_graph"
  by (simp add: example_graph_value wf_graph_def node_ids_def dangling_def)

lemma example_unique: "unique_ok example_graph"
  by (simp add: example_graph_value unique_ok_def unique_keys_def key_of_def)

lemma example_strings: "company_codes_strings example_graph"
  by (simp add: example_graph_value company_codes_strings_def)

lemma example_plain: "plain_frame example_universe"
  by (simp add: plain_frame_def example_universe_def example_company_def plain_code_def)

lemma example_lists: "lists_competitor example_universe ''000001'' ''000002''"
  by (simp add: lists_competitor_def example_universe_def example_company_def rows_with_def
        has_column_def cell_is_def series_eq_def)

lemma example_companies:
  "is_company example_graph (nodes example_graph ! 0) ''000001''"
  "is_company example_graph (nodes example_graph ! 2) ''000002''"
  "nid (nodes example_graph ! 0) = 1" "nid (nodes example_graph ! 2) = 3"
  by (simp_all add: example_graph_value is_company_def)

lemma example_count:
  "count_edges example_graph x ''COMPETES_WITH'' y = 0"
  by (simp add: example_graph_value count_edges_def)

theorem competitor_edge_once_witness:
  "wf_graph example_graph \<and> unique_ok example_graph \<and> company_codes_strings example_graph
   \<and> is_company example_graph (nodes example_graph ! 0) ''000001''
   \<and> is_company example_graph (nodes example_graph ! 2) ''000002''
   \<and> clean_code ''000001'' \<and> clean_code ''000002'' \<and> plain_frame example_universe
   \<and> lists_competitor example_universe ''000001'' ''000002''
   \<and> \<not> frame_empty example_universe
   \<and> count_edges example_graph 1 ''COMPETES_WITH'' 3 \<le> 1
   \<and> count_edges (ingest_competitors 2 example_universe (Some example_universe) example_graph)
        1 ''COMPETES_WITH'' 3 = 1"
proof -
  have ne: "''000001'' \<noteq> ''000002''" "\<not> frame_empty example_universe" "(0::nat) < 2"
    by (simp_all add: example_universe_def frame_empty_def)
  have cc: "clean_code ''000001''" "clean_code ''000002''"
    by (simp_all add: clean_code_def plain_code_def)
  have le: "count_edges example_graph (nid (nodes example_graph ! 0)) ''COMPETES_WITH''
              (nid (nodes example_graph ! 2)) \<le> 1"
    by (simp add: example_companies example_count)
  have "count_edges (ingest_competitors 2 example_universe (Some example_universe) example_graph)
          (nid (nodes example_graph ! 0)) ''COMPETES_WITH'' (nid (nodes example_graph ! 2)) = 1"
    using competitor_edge_once[OF example_wf example_unique example_strings example_companies(1,2)
        ne(1) cc example_plain example_lists ne(2) le ne(3)] .
  then show ?thesis
    using example_wf example_unique example_strings example_companies cc example_plain
      example_lists example_count ne(2)
    by simp
qed

lemma hyphen_run:
  "add_competitor_relationships hyphen_graph hyphen_universe (Some hyphen_universe)
     = (hyphen_graph, 0)"
  by code_simp

lemma hyphen_existing:
  "check_existing_competitor_relationships hyphen_graph = [''0-1-2'']"
  by code_simp

theorem competitor_edge_once_counterexample:
  "wf_graph hyphen_graph \<and> unique_ok hyphen_graph \<and> company_codes_strings hyphen_graph
   \<and> is_company hyphen_graph (nodes hyphen_graph ! 0) ''0-1''
   \<and> is_company hyphen_graph (nodes hyphen_graph ! 1) ''2''
   \<and> nid (nodes hyphen_graph ! 0) = 1 \<and> nid (nodes hyphen_graph ! 1) = 2
   \<and> plain_code ''0-1'' \<and> clean_code ''2'' \<and> plain_frame hyphen_universe
   \<and> lists_competitor hyphen_universe ''0-1'' ''2''
   \<and> \<not> frame_empty hyphen_universe
   \<and> count_edges hyphen_graph 1 ''COMPETES_WITH'' 2 = 0
   \<and> count_edges (ingest_competitors 1 hyphen_universe (Some hyphen_universe) hyphen_graph)
        1 ''COMPETES_WITH'' 2 = 0
   \<and> count_edges (ingest_competitors 3 hyphen_universe (Some hyphen_universe) hyphen_graph)
        1 ''COMPETES_WITH'' 2 = 0"
proof -
  have g: "wf_graph hyphen_graph" "unique_ok hyphen_graph" "company_codes_strings hyphen_graph"
    by (simp_all add: hyphen_graph_def wf_graph_def node_ids_def dangling_def unique_ok_def
          unique_keys_def key_of_def company_codes_strings_def)
  have c: "is_company hyphen_graph (nodes hyphen_graph ! 0) ''0-1''"
    "is_company hyphen_graph (nodes hyphen_graph ! 1) ''2''"
    "nid (nodes hyphen_graph ! 0) = 1" "nid (nodes hyphen_graph ! 1) = 2"
    by (simp_all add: hyphen_graph_def is_company_def)
  have l: "lists_competitor hyphen_universe ''0-1'' ''2''" "\<not> frame_empty hyphen_universe"
    by (simp_all add: lists_competitor_def hyphen_universe_def example_universe_def
          example_company_def rows_with_def has_column_def cell_is_def series_eq_def
          frame_empty_def)
  have z: "count_edges hyphen_graph 1 ''COMPETES_WITH'' 2 = 0"
    by (simp add: hyphen_graph_def count_edges_def)
  have p: "plain_code ''0-1''" "clean_code ''2''" "plain_frame hyphen_universe"
    by (simp_all add: plain_code_def clean_code_def plain_frame_def hyphen_universe_def
          example_company_def)
  show ?thesis
    using g c l z p by (simp add: numeral_3_eq_3 hyphen_run)
qed

theorem no_self_competitor_witness:
  "distinct (node_ids example_graph) \<and> plain_frame example_universe
   \<and> list_all (\<lambda>d. \<exists>c. map_of d ''stock_code'' = Some c \<and> c \<noteq> CStr ''000001'')
       (snd (get_competitor_info (CStr ''000001'') example_universe))
   \<and> list_all (\<lambda>e. e \<in> set (edges example_graph) \<or> esrc e \<noteq> edst e)
       (edges (fst (add_competitor_relationships example_graph example_universe
                      (Some example_universe))))"
proof -
  have d: "distinct (node_ids example_graph)"
    using example_wf by (simp add: wf_graph_def)
  show ?thesis
    using d example_plain
      no_self_competitor[of "CStr ''000001''" example_universe example_graph example_universe
        "Some example_universe"]
    by (simp add: list_all_iff)
qed

lemma example_self_listed:
  "snd (get_competitor_info (CStr ''000001'') example_universe)
     = [example_company ''000002'' (CList [])]"
  by (simp add: get_competitor_info_def example_universe_def example_company_def rows_with_def
        has_column_def numeric_column_def cell_is_def series_eq_def cell_eq_def cell_of_elem_def
        py_truthy_def)


lemma quote_graph_value:
  "quote_graph =
     \<lparr>nodes =
        [\<lparr>nid = 1, nlabel = ''Company'',
            nprops =
              [(''stock_code'', PStr [CHR 0x22]), (''stock_nm'', PStr ''Nm''),
               (''stock_abbrv'', PStr ''N''), (''stock_nm_eng'', PStr ''Nm''),
               (''listing_dt'', PStr ''2000''), (''outstanding_shares'', PNum ''10''),
               (''kospi200_item_yn'', PStr ''Y''), (''compete_stock_nm_li'', PStr []),
               (''compete_stock_code_li'', PStr [CHR 0x22])]\<rparr>,
         \<lparr>nid = 2, nlabel = ''Sector'', nprops = [(''stock_sector_nm'', PStr ''S'')]\<rparr>],
      edges = [\<lparr>esrc = 1, etype = ''BELONGS_TO'', edst = 2\<rparr>]\<rparr>"
  by code_simp

lemma quote_run:
  "edges (fst (add_competitor_relationships quote_graph quote_universe (Some quote_universe)))
     = [\<lparr>esrc = 1, etype = ''BELONGS_TO'', edst = 2\<rparr>,
        \<lparr>esrc = 1, etype = ''COMPETES_WITH'', edst = 1\<rparr>]"
  unfolding quote_graph_value by code_simp

lemma quote_listed:
  "map (\<lambda>d. map_of d ''stock_code'')
       (snd (get_competitor_info (CStr [CHR 0x5C, CHR 0x22]) quote_universe))
     = [Some (CStr [CHR 0x22])]"
  by code_simp

theorem no_self_competitor_counterexample:
  "distinct (node_ids quote_graph) \<and> unique_ok quote_graph
   \<and> edges quote_graph = [\<lparr>esrc = 1, etype = ''BELONGS_TO'', edst = 2\<rparr>]
   \<and> map (\<lambda>d. map_of d ''stock_code'')
         (snd (get_competitor_info (CStr [CHR 0x5C, CHR 0x22]) quote_universe))
       = [Some (CStr [CHR 0x22])]
   \<and> edges (fst (add_competitor_relationships quote_graph quote_universe (Some quote_universe)))
       = [\<lparr>esrc = 1, etype = ''BELONGS_TO'', edst = 2\<rparr>,
          \<lparr>esrc = 1, etype = ''COMPETES_WITH'', edst = 1\<rparr>]"
proof -
  have "distinct (node_ids quote_graph)" "unique_ok quote_graph"
    "edges quote_graph = [\<lparr>esrc = 1, etype = ''BELONGS_TO'', edst = 2\<rparr>]"
    by (simp_all add: quote_graph_value node_ids_def unique_ok_def unique_keys_def key_of_def)
  then show ?thesis
    using quote_run quote_listed by simp
qed
section \<open>What a query of merges and matches leaves\<close>














section \<open>The all-zero financial statement\<close>












section \<open>The daily write on the small universe\<close>



lemma example_fs_dict:
  "fs_dict_of (Some (example_fs ''20240515'')) (CStr ''000001'')
     = Inr (Some (fs_row (CStr ''000001'') 2023 ''4'' [0, 0, 0, 0, 0, 0, 0]))"
  by code_simp

lemma example_daily_write:
  "daily_write create_schema ''20240515''
     (example_company ''000001'' (CList [EStr ''000002'', EStr ''000001'']))
     (example_price ''000001'' ''20240515'')
     (Some (fs_row (CStr ''000001'') 2023 ''4'' [0, 0, 0, 0, 0, 0, 0])) example_graph
     = Inr written_20240515"
  unfolding written_20240515_def by code_simp

lemma example_getitem:
  "getitem (example_company c l) ''stock_code'' = Inr (CStr c)"
  "getitem (example_company c l) ''stock_abbrv'' = Inr (CStr ''N'')"
  by (simp_all add: getitem_def example_company_def)

lemma example_price_rows:
  "rows_with (example_prices d) ''stock_code'' (CStr c)
     = Inr (if c = ''000001'' then [example_price ''000001'' d] else [])"
  by (auto simp: rows_with_def has_column_def example_prices_def example_price_def cell_is_def
        series_eq_def)

lemma example_written_value: "example_written ''20240515'' = written_20240515"
  by (simp add: example_written_def add_daily_data_to_graph_def example_universe_def
        example_getitem example_price_rows example_fs_dict example_daily_write)


lemma example_outcomes:
  "outcomes create_schema (example_prices ''20240515'') (Some (example_fs ''20240515''))
     ''20240515'' (frame_rows example_universe) example_graph = [Written, NoPrice]"
  by (simp add: example_universe_def company_outcome_def cell_of_def get_default_def
        example_company_def[of "''000001''"] example_company_def[of "''000002''"]
        example_price_rows example_fs_dict
        example_daily_write[unfolded example_company_def[of "''000001''"]])

lemma failing_outcomes:
  "outcomes (\<lambda>g q. Inl (StoreError ''down'')) (example_prices ''20240515'') None
     ''20240515'' (frame_rows example_universe) empty_graph = [WriteFailed, NoPrice]"
  using example_price_query
  by (auto simp: example_universe_def company_outcome_def daily_write_def rows_with_def
        has_column_def example_prices_def cell_is_def
        cell_of_def get_default_def series_eq_def fs_dict_of_def example_price_def
        example_company_def)

theorem add_daily_data_counts_witness:
  "list_all (\<lambda>c. (\<exists>sc. map_of c ''stock_code'' = Some sc \<and> scalar sc)
                  \<and> map_of c ''stock_abbrv'' \<noteq> None)
      (frame_rows example_universe)
   \<and> has_column (example_prices ''20240515'') ''stock_code''
   \<and> has_column (example_fs ''20240515'') ''stock_code''
   \<and> fst (add_daily_data_to_graph create_schema example_graph example_universe
              (example_prices ''20240515'') (Some (example_fs ''20240515'')) ''20240515'')
       = Inr (1, 1)
   \<and> outcomes create_schema (example_prices ''20240515'') (Some (example_fs ''20240515''))
        ''20240515'' (frame_rows example_universe) example_graph = [Written, NoPrice]
   \<and> is_exception (StoreError ''down'')
   \<and> fst (add_daily_data_to_graph (\<lambda>g q. Inl (StoreError ''down'')) empty_graph example_universe
              (example_prices ''20240515'') None ''20240515'') = Inr (0, 2)
   \<and> outcomes (\<lambda>g q. Inl (StoreError ''down'')) (example_prices ''20240515'') None
        ''20240515'' (frame_rows example_universe) empty_graph = [WriteFailed, NoPrice]"
proof -
  have h: "\<forall>c\<in>set (frame_rows example_universe).
             (\<exists>sc. map_of c ''stock_code'' = Some sc \<and> scalar sc)
             \<and> map_of c ''stock_abbrv'' \<noteq> None"
    by (simp add: example_universe_def example_company_def scalar_def)
  have p: "has_column (example_prices ''20240515'') ''stock_code''"
    by (simp add: has_column_def example_prices_def)
  have f: "has_column (example_fs ''20240515'') ''stock_code''"
    by (simp add: has_column_def example_fs_def)
  have f1: "case Some (example_fs ''20240515'') of None \<Rightarrow> True
            | Some f \<Rightarrow> has_column f ''stock_code''"
    using f by simp
  have f2: "case None :: dataframe option of None \<Rightarrow> True | Some f \<Rightarrow> has_column f ''stock_code''"
    by simp
  have w1: "\<forall>g q e. create_schema g q = Inl e \<longrightarrow> is_exception e"
    using create_schema_raises by blast
  have w2: "\<forall>g q e. (\<lambda>g q. Inl (StoreError ''down'')) (g :: graph) (q :: query) = Inl e
             \<longrightarrow> is_exception e"
    by (auto simp: is_exception_def)
  show ?thesis
    unfolding list_all_iff
    using h p f example_outcomes failing_outcomes
      add_daily_data_counts[OF h p f1 w1, of example_graph "''20240515''"]
      add_daily_data_counts[OF h p f2 w2, of empty_graph "''20240515''"]
    by (simp add: is_exception_def)
qed


lemma written_links: "zero_statement_linked written_20240515 2024 2"
  unfolding written_20240515_def by code_simp


section \<open>The recovery on a written date\<close>

lemma cleanup_single_unchanged:
  "cleanup_single_date_data written_20240515 ''20240515'' = written_20240515"
  unfolding written_20240515_def by code_simp

lemma cleanup_query_fails:
  "run_query (cleanup_query ''20240515'') written_20240515 = Inl ConstraintError"
  unfolding written_20240515_def by code_simp

lemma written_labels:
  "map nlabel (nodes written_20240515)
     = [''Company'', ''Sector'', ''Company'', ''Date'', ''Quarter'', ''Year'', ''StockPrice'',
        ''Indicator'', ''FinancialStatements'']"
  by (simp add: written_20240515_def)

text \<open>
  Claim C1. After the daily data of 20240515 was written for a company, the recovery for that date
  deletes nothing: its query matches no StockPrice, Indicator or FinancialStatements node,
  the plain deletion of the Date node fails on the relationships the node still has, and
  the graph keeps its Date, StockPrice, Indicator and FinancialStatements nodes.
\<close>

theorem recovery_leaves_date_subgraph:
  "run_query (cleanup_query ''20240515'') (example_written ''20240515'') = Inl ConstraintError
   \<and> cleanup_single_date_data (example_written ''20240515'') ''20240515'' = example_written ''20240515''
   \<and> cleanup_processed_data (example_written ''20240515'') [''20240515''] = example_written ''20240515''
   \<and> map nlabel (nodes (example_written ''20240515''))
       = [''Company'', ''Sector'', ''Company'', ''Date'', ''Quarter'', ''Year'', ''StockPrice'',
          ''Indicator'', ''FinancialStatements'']"
  unfolding example_written_value
  by (simp add: cleanup_query_fails cleanup_single_date_data_def written_labels)


end
